(* ===== verification/Prelude.thy ===== *)
theory Prelude
  imports Main "HOL-Library.Word" "HOL-Library.Sublist"
begin

text \<open>
  Shared vocabulary of the development: bytes, C strings and memory regions, the faults
  that stand for undefined behaviour of C, and the generic lemmas on scans, substring
  search and decimal numerals that the component theories use.

  A byte is a \<^typ>\<open>char\<close> (256 values). A \<^emph>\<open>C string\<close> is modelled by its characters
  without the terminator; a \<^emph>\<open>memory region\<close> (an array, or what lies behind a pointer up to
  the end of its object) by the list of all its bytes, terminators included.
\<close>

named_theorems c_defs \<comment> \<open>definitions of the C library functions\<close>
named_theorems scan_simps \<comment> \<open>loops over characters as list functions\<close>

type_synonym byte = char

abbreviation code :: "byte \<Rightarrow> nat" where
  "code c \<equiv> of_char c"

abbreviation NUL :: byte where
  "NUL \<equiv> CHR 0x00"

abbreviation CR :: byte where
  "CR \<equiv> CHR 0x0D"

abbreviation LF :: byte where
  "LF \<equiv> CHR 0x0A"

lemma code_less_256: "code c < 256"
  by (cases c) (auto simp: of_char_def horner_sum_simps split: bool.splits)

section \<open>Undefined behaviour as a value\<close>

text \<open>
  The sources are C programs. A dereference of \<^verbatim>\<open>NULL\<close>, an access outside an object and
  a signed overflow are undefined behaviour, and so are a division by zero, the use of a pointer
  that was never set and a format that is not a string; the model returns the fault instead of a
  result, so that a theorem with a result \<open>Inr _\<close> says that none of them happened.
\<close>

datatype fault = NullDeref | OutOfBounds | IntOverflow | DivByZero | WildPointer | BadFormat

type_synonym 'a cres = "fault + 'a"

definition cthen :: "'a cres \<Rightarrow> ('a \<Rightarrow> 'b cres) \<Rightarrow> 'b cres" where
  "cthen m f = (case m of Inl e \<Rightarrow> Inl e | Inr x \<Rightarrow> f x)"

lemma cthen_simps [simp]:
  "cthen (Inl e) f = Inl e"
  "cthen (Inr x) f = f x"
  by (simp_all add: cthen_def)

lemma cthen_Inr [simp]: "cthen m Inr = m"
  by (cases m) simp_all

lemma cthen_assoc: "cthen (cthen m f) g = cthen m (\<lambda>x. cthen (f x) g)"
  by (cases m) simp_all

lemma cthen_eq_Inr:
  "cthen m f = Inr y \<longleftrightarrow> (\<exists>x. m = Inr x \<and> f x = Inr y)"
  by (cases m) auto

lemma cthen_eq_InrE [elim!]:
  assumes "cthen m f = Inr y"
  obtains x where "m = Inr x" "f x = Inr y"
  using assms by (auto simp: cthen_eq_Inr)

section \<open>Loops that look for a character\<close>

text \<open>
  \<^verbatim>\<open>for(i = from; i < len; ++i) if(P(s[i])) break;\<close> leaves \<^verbatim>\<open>i\<close> at the first position
  with \<open>P\<close>, or at the length.
\<close>

function scan :: "(byte \<Rightarrow> bool) \<Rightarrow> string \<Rightarrow> nat \<Rightarrow> nat" where
  "scan P s i = (if i < length s \<and> \<not> P (s ! i) then scan P s (Suc i) else i)"
  by pat_completeness auto
termination
  by (relation "measure (\<lambda>(P, s, i). length s - i)") auto

declare scan.simps [simp del]

lemma scan_stop: "i < length s \<Longrightarrow> P (s ! i) \<Longrightarrow> scan P s i = i"
  by (simp add: scan.simps)

lemma scan_end: "length s \<le> i \<Longrightarrow> scan P s i = i"
  by (simp add: scan.simps)

lemma scan_takeWhile [scan_simps]:
  assumes "i \<le> length s"
  shows "scan P s i = i + length (takeWhile (\<lambda>c. \<not> P c) (drop i s))"
  using assms
proof (induction P s i rule: scan.induct)
  case (1 P s i)
  show ?case
  proof (cases "i < length s")
    case True
    have "drop i s = s ! i # drop (Suc i) s"
      using True by (simp add: Cons_nth_drop_Suc)
    with 1 True show ?thesis
      by (cases "P (s ! i)") (simp_all add: scan.simps [of P s i])
  next
    case False
    with 1 show ?thesis by (simp add: scan_end)
  qed
qed

lemma scan_ge: "i \<le> scan P s i"
proof (cases "i \<le> length s")
  case True
  then show ?thesis by (simp add: scan_takeWhile)
next
  case False
  then show ?thesis by (simp add: scan_end)
qed

lemma scan_le: "i \<le> length s \<Longrightarrow> scan P s i \<le> length s"
  using length_takeWhile_le [of "\<lambda>c. \<not> P c" "drop i s"]
  by (simp add: scan_takeWhile)

lemma scan_append:
  assumes "\<forall>c \<in> set ys. \<not> P c" and "zs = [] \<or> P (hd zs)"
  shows "scan P (xs @ ys @ zs) (length xs) = length xs + length ys"
  using assms
  by (cases zs) (auto simp: scan_takeWhile takeWhile_append2 takeWhile_eq_all_conv [THEN iffD2])

section \<open>C strings\<close>

definition cstring :: "string \<Rightarrow> string" where
  "cstring mem = takeWhile (\<lambda>c. c \<noteq> NUL) mem"

definition terminated :: "string \<Rightarrow> bool" where
  "terminated mem = (NUL \<in> set mem)"

text \<open>\<^verbatim>\<open>strlen(p)\<close> on the region behind \<^verbatim>\<open>p\<close>.\<close>

definition strlen :: "string \<Rightarrow> nat cres" where
  "strlen mem = (if terminated mem then Inr (length (cstring mem)) else Inl OutOfBounds)"

text \<open>The first position at which \<open>pat\<close> occurs in \<open>s\<close>.\<close>

fun find_sub :: "string \<Rightarrow> string \<Rightarrow> nat option" where
  "find_sub pat [] = (if pat = [] then Some 0 else None)"
| "find_sub pat (c # s) =
     (if prefix pat (c # s) then Some 0 else map_option Suc (find_sub pat s))"

text \<open>\<^verbatim>\<open>strstr(p, pat)\<close>: the haystack must be a terminated string.\<close>

definition strstr :: "string \<Rightarrow> string \<Rightarrow> nat option cres" where
  "strstr mem pat =
     (if terminated mem then Inr (find_sub pat (cstring mem)) else Inl OutOfBounds)"

lemma cstring_terminated [simp]:
  "NUL \<notin> set s \<Longrightarrow> cstring (s @ NUL # rest) = s"
  by (induction s) (auto simp: cstring_def)

lemma terminated_append [simp]: "terminated (s @ NUL # rest)"
  by (simp add: terminated_def)

lemma strlen_terminated [simp]:
  "NUL \<notin> set s \<Longrightarrow> strlen (s @ NUL # rest) = Inr (length s)"
  by (simp add: strlen_def)

lemma strstr_terminated:
  "NUL \<notin> set s \<Longrightarrow> strstr (s @ NUL # rest) pat = Inr (find_sub pat s)"
  by (simp add: strstr_def)

lemma length_cstring_le: "length (cstring mem) \<le> length mem"
  by (simp add: cstring_def length_takeWhile_le)

lemma length_cstring_less: "terminated mem \<Longrightarrow> length (cstring mem) < length mem"
  unfolding cstring_def terminated_def
  by (induction mem) auto

lemma find_sub_Some_prefix:
  "find_sub pat s = Some i \<Longrightarrow> prefix pat (drop i s)"
  by (induction pat s arbitrary: i rule: find_sub.induct) (auto split: if_splits)

lemma find_sub_Some_le:
  "find_sub pat s = Some i \<Longrightarrow> i + length pat \<le> length s"
  by (induction pat s arbitrary: i rule: find_sub.induct)
    (auto split: if_splits dest: prefix_length_le)

lemma find_sub_None:
  "find_sub pat s = None \<longleftrightarrow> \<not> sublist pat s"
  by (induction pat s rule: find_sub.induct) (auto simp: sublist_Cons_right)

lemma find_sub_least:
  "find_sub pat s = Some i \<Longrightarrow> j < i \<Longrightarrow> \<not> prefix pat (drop j s)"
proof (induction pat s arbitrary: i j rule: find_sub.induct)
  case (2 pat c s)
  then show ?case by (cases j) (auto split: if_splits)
qed (simp split: if_splits)

text \<open>A one-character pattern that does not occur in the front part is found right after it.\<close>

lemma find_sub_single:
  "c \<notin> set xs \<Longrightarrow> find_sub [c] (xs @ c # ys) = Some (length xs)"
  by (induction xs) auto

section \<open>Decimal numerals\<close>

definition digit_char :: "nat \<Rightarrow> byte" where
  "digit_char d = ''0123456789'' ! d"

fun dec :: "nat \<Rightarrow> string" where \<comment> \<open>\<^verbatim>\<open>%u\<close> of \<^verbatim>\<open>printf\<close>\<close>
  "dec n = (if n < 10 then [digit_char n] else dec (n div 10) @ [digit_char (n mod 10)])"

declare dec.simps [simp del]

definition decint :: "int \<Rightarrow> string" where \<comment> \<open>\<^verbatim>\<open>%d\<close> of \<^verbatim>\<open>printf\<close>\<close>
  "decint i = (if i < 0 then CHR ''-'' # dec (nat (- i)) else dec (nat i))"

definition is_digit :: "byte \<Rightarrow> bool" where
  "is_digit c = (48 \<le> code c \<and> code c \<le> 57)"

definition digit_val :: "byte \<Rightarrow> nat" where
  "digit_val c = code c - 48"

lemma code_digit_char [simp]: "d < 10 \<Longrightarrow> code (digit_char d) = 48 + d"
  by (auto simp: digit_char_def numeral_eq_Suc less_Suc_eq)

lemma is_digit_digit_char [simp]: "d < 10 \<Longrightarrow> is_digit (digit_char d)"
  by (simp add: is_digit_def)

lemma digit_val_digit_char [simp]: "d < 10 \<Longrightarrow> digit_val (digit_char d) = d"
  by (simp add: digit_val_def)

lemma dec_nonempty [simp]: "dec n \<noteq> []"
  by (subst dec.simps) simp

lemma dec_digits: "c \<in> set (dec n) \<Longrightarrow> is_digit c"
  by (induction n rule: dec.induct) (subst (asm) (2) dec.simps, auto split: if_splits)

text \<open>The value of a digit string read left to right onto an accumulator.\<close>

definition read_dec :: "nat \<Rightarrow> string \<Rightarrow> nat" where
  "read_dec p ds = foldl (\<lambda>a c. a * 10 + digit_val c) p ds"

lemma read_dec_simps [simp]:
  "read_dec p [] = p"
  "read_dec p (c # ds) = read_dec (p * 10 + digit_val c) ds"
  "read_dec p (xs @ ys) = read_dec (read_dec p xs) ys"
  by (simp_all add: read_dec_def)

lemma read_dec_ge: "p \<le> read_dec p ds"
proof (induction ds arbitrary: p)
  case (Cons c ds)
  have "p \<le> p * 10 + digit_val c" by simp
  also have "\<dots> \<le> read_dec (p * 10 + digit_val c) ds" by (rule Cons.IH)
  finally show ?case by simp
qed simp

lemma read_dec_dec [simp]: "read_dec 0 (dec n) = n"
proof (induction n rule: dec.induct)
  case (1 n)
  then show ?case by (cases "n < 10") (simp_all add: dec.simps [of n])
qed

end
