(* ===== verification/Spdycli_Mem.thy ===== *)
theory Spdycli_Mem
  imports Prelude
begin

text \<open>
  The string functions of the C library that the push client uses on its fixed character arrays.
  An array is the list of its bytes; a store outside it, and a scan that runs past it, are the
  fault \<^const>\<open>OutOfBounds\<close>. The locale \<open>text_buffer\<close> is the contract that the code building paths
  and headers relies on; \<^verbatim>\<open>strcat\<close> provides it.
\<close>

section \<open>Stores\<close>

definition mem_write :: "string \<Rightarrow> nat \<Rightarrow> string \<Rightarrow> string cres" where
  "mem_write buf off bs =
     (if off + length bs \<le> length buf then Inr (take off buf @ bs @ drop (off + length bs) buf)
      else Inl OutOfBounds)"

abbreviation lit :: "string \<Rightarrow> string" where \<comment> \<open>a string literal with its terminator\<close>
  "lit s \<equiv> s @ [NUL]"

definition strcpy :: "string \<Rightarrow> string \<Rightarrow> string cres" where
  "strcpy dst src = cthen (strlen src) (\<lambda>n. mem_write dst 0 (take n src @ [NUL]))"

definition strcat :: "string \<Rightarrow> string \<Rightarrow> string cres" where
  "strcat dst src =
     cthen (strlen dst) (\<lambda>d. cthen (strlen src) (\<lambda>n. mem_write dst d (take n src @ [NUL])))"

text \<open>\<^verbatim>\<open>snprintf(dst, n, "%s", src)\<close> and \<^verbatim>\<open>sprintf(dst + off, ...)\<close> with the formatted text.\<close>

definition snprintf_s :: "string \<Rightarrow> nat \<Rightarrow> string \<Rightarrow> string cres" where
  "snprintf_s dst n src =
     cthen (strlen src) (\<lambda>l. if n = 0 then Inr dst else mem_write dst 0 (take (min l (n - 1)) src @ [NUL]))"

definition sprintf :: "string \<Rightarrow> nat \<Rightarrow> string \<Rightarrow> string cres" where
  "sprintf dst off content = mem_write dst off (content @ [NUL])"

text \<open>\<^verbatim>\<open>strncpy\<close> copies at most \<open>n\<close> characters and fills up with zeros.\<close>

definition strncpy :: "string \<Rightarrow> string \<Rightarrow> nat \<Rightarrow> string cres" where
  "strncpy dst src n =
     (let c = take n (cstring src) in
      if length c < n \<and> \<not> terminated src then Inl OutOfBounds
      else mem_write dst 0 (c @ replicate (n - length c) NUL))"

lemmas str_defs [c_defs] =
  strcpy_def strcat_def snprintf_s_def sprintf_def strncpy_def

lemma mem_write_len: "mem_write buf off bs = Inr buf' \<Longrightarrow> length buf' = length buf"
  by (auto simp: mem_write_def split: if_splits)

lemma mem_write_ok:
  "off + length bs \<le> length buf \<Longrightarrow> mem_write buf off bs = Inr (take off buf @ bs @ drop (off + length bs) buf)"
  by (simp add: mem_write_def)

lemma mem_write_append:
  "mem_write (s @ r) (length s) t = (if length t \<le> length r then Inr (s @ t @ drop (length t) r) else Inl OutOfBounds)"
  by (simp add: mem_write_def)

lemma cstring_split:
  assumes "terminated mem"
  obtains rest where "mem = cstring mem @ NUL # rest" "NUL \<notin> set (cstring mem)"
proof -
  obtain xs ys where "mem = xs @ NUL # ys" "NUL \<notin> set xs"
    using assms unfolding terminated_def by (meson split_list_first)
  then show thesis by (intro that [of ys]) simp_all
qed

lemma NUL_notin_cstring [simp]: "NUL \<notin> set (cstring mem)"
  by (auto simp: cstring_def dest: set_takeWhileD)

lemma cstring_append_NUL [simp]: "cstring (cstring mem @ NUL # rest) = cstring mem"
  by (rule cstring_terminated) simp

lemma take_strlen [simp]: "take (length (cstring src)) src = cstring src"
  by (simp add: cstring_def takeWhile_eq_take [symmetric])

lemma min_cstring [simp]: "min (length src) (length (cstring src)) = length (cstring src)"
  by (simp add: length_cstring_le min.absorb2)

section \<open>Text in a buffer\<close>

locale text_buffer =
  fixes cap :: "'b \<Rightarrow> nat" and ok :: "'b \<Rightarrow> bool" and content :: "'b \<Rightarrow> string"
    and append_text :: "'b \<Rightarrow> string \<Rightarrow> 'b cres"
  assumes append_fits: "\<lbrakk>ok b; NUL \<notin> set s; length (content b) + length s < cap b\<rbrakk> \<Longrightarrow>
      \<exists>b'. append_text b s = Inr b' \<and> ok b' \<and> content b' = content b @ s \<and> cap b' = cap b"
    and append_full: "\<lbrakk>ok b; NUL \<notin> set s; cap b \<le> length (content b) + length s\<rbrakk> \<Longrightarrow>
      append_text b s = Inl OutOfBounds"
begin

definition appends :: "'b \<Rightarrow> string list \<Rightarrow> 'b cres" where
  "appends b ss = foldl (\<lambda>r s. cthen r (\<lambda>b. append_text b s)) (Inr b) ss"

lemma appends_fault: "foldl (\<lambda>r s. cthen r (\<lambda>b. append_text b s)) (Inl e) ss = Inl e"
  by (induction ss) simp_all

lemma appends_simps [simp]:
  "appends b [] = Inr b"
  "appends b (s # ss) = cthen (append_text b s) (\<lambda>b. appends b ss)"
  by (simp_all add: appends_def) (cases "append_text b s"; simp add: appends_fault)

lemma appends_fit:
  "\<lbrakk>ok b; \<forall>s \<in> set ss. NUL \<notin> set s; length (content b) + length (concat ss) < cap b\<rbrakk> \<Longrightarrow>
    \<exists>b'. appends b ss = Inr b' \<and> ok b' \<and> content b' = content b @ concat ss \<and> cap b' = cap b"
proof (induction ss arbitrary: b)
  case (Cons s ss)
  then obtain b1 where "append_text b s = Inr b1" "ok b1" "content b1 = content b @ s" "cap b1 = cap b"
    using append_fits [of b s] by auto
  with Cons.IH [of b1] Cons.prems show ?case by auto
qed simp

lemma appends_full:
  "\<lbrakk>ok b; \<forall>s \<in> set ss. NUL \<notin> set s; length (content b) < cap b; cap b \<le> length (content b) + length (concat ss)\<rbrakk> \<Longrightarrow>
    appends b ss = Inl OutOfBounds"
proof (induction ss arbitrary: b)
  case (Cons s ss)
  show ?case
  proof (cases "length (content b) + length s < cap b")
    case True
    with Cons.prems obtain b1 where "append_text b s = Inr b1" "ok b1" "content b1 = content b @ s" "cap b1 = cap b"
      using append_fits [of b s] by auto
    with Cons.IH [of b1] Cons.prems True show ?thesis by auto
  next
    case False
    with Cons.prems append_full [of b s] show ?thesis by auto
  qed
qed simp

end

lemma strcat_at:
  assumes "terminated dst" "NUL \<notin> set s"
  shows "strcat dst (lit s) =
    (if length (cstring dst) + length s < length dst
     then Inr (cstring dst @ s @ NUL # drop (length (cstring dst) + length s + 1) dst) else Inl OutOfBounds)"
  using assms by (auto simp: strcat_def strlen_def mem_write_def)

interpretation arr: text_buffer length terminated cstring "\<lambda>dst s. strcat dst (lit s)"
proof
  fix b s :: string
  assume b: "terminated b" "NUL \<notin> set s"
  show "\<exists>b'. strcat b (lit s) = Inr b' \<and> terminated b' \<and> cstring b' = cstring b @ s \<and> length b' = length b"
    if "length (cstring b) + length s < length b"
    using that b cstring_terminated [of "cstring b @ s"] terminated_append [of "cstring b @ s"]
    by (simp add: strcat_at)
  show "strcat b (lit s) = Inl OutOfBounds" if "length b \<le> length (cstring b) + length s"
    using that b by (simp add: strcat_at)
qed

end
