(* ===== verification/Spdycli_Ids.thy ===== *)
theory Spdycli_Ids
  imports Spdycli_Mem
begin

text \<open>
  The identifiers the server assigns: \<^verbatim>\<open>getClientId\<close> and \<^verbatim>\<open>getPushId\<close> of \<^verbatim>\<open>client/spdycli.c\<close>. The
  argument \<open>data\<close> is the memory behind the pointer the library hands to the client: the bytes of
  the chunk and whatever lies behind them, because the chunk has no terminator of its own.
\<close>

section \<open>The extraction functions\<close>

text \<open>
  The body both functions have, with the two patterns they search for. A failed \<^verbatim>\<open>strstr\<close>
  returns \<^verbatim>\<open>NULL\<close>, which the code moves forward and uses.
\<close>

definition json_value :: "string \<Rightarrow> string \<Rightarrow> string \<Rightarrow> string \<Rightarrow> string cres" where
  \<open>json_value pat skip data retbuf =
     cthen (strstr data pat) (\<lambda>i. case i of None \<Rightarrow> Inl NullDeref | Some i \<Rightarrow>
       let p = drop (i + length skip) data in
       cthen (strstr p ''"'') (\<lambda>j. case j of None \<Rightarrow> Inl NullDeref | Some j \<Rightarrow> snprintf_s retbuf (j + 1) p))\<close>

definition getClientId :: "string \<Rightarrow> string \<Rightarrow> string cres" where
  \<open>getClientId data retbuf = json_value ''client_id":'' ''client_id":"'' data retbuf\<close>

definition getPushId :: "string \<Rightarrow> string \<Rightarrow> string cres" where
  \<open>getPushId data retbuf = json_value ''push_id":'' ''push_id":"'' data retbuf\<close>

section \<open>The answer of the register interface\<close>

text \<open>\<^verbatim>\<open>{"client_id":"clid-3-1","push_id":"puid-3-1"}\<close>, as the comments of the code give it.\<close>

definition register_json :: "string \<Rightarrow> string \<Rightarrow> string" where
  \<open>register_json c p = ''{"client_id":"'' @ c @ ''","push_id":"'' @ p @ ''"}''\<close>

lemma no_prefix_over:
  "\<lbrakk>q \<notin> set a; q \<notin> set c; x \<noteq> y\<rbrakk> \<Longrightarrow> \<not> prefix (a @ [q, x]) (c @ q # y # rest)"
proof (induction a arbitrary: c)
  case Nil
  then show ?case by (cases c) auto
next
  case (Cons a0 a)
  then show ?case by (cases c) auto
qed

lemma find_sub_over:
  assumes "q \<notin> set a" "q \<notin> set c" "x \<noteq> y"
  shows "find_sub (a @ [q, x]) (c @ q # y # rest) =
    map_option (\<lambda>i. length c + i) (find_sub (a @ [q, x]) (q # y # rest))"
  using assms(2)
proof (induction c)
  case Nil
  then show ?case by (simp add: option.map_ident)
next
  case (Cons c0 c)
  with no_prefix_over [OF assms(1) Cons.prems assms(3)] show ?case
    by (simp add: option.map_comp comp_def)
qed

definition id_text :: "string \<Rightarrow> bool" where
  \<open>id_text s \<longleftrightarrow> NUL \<notin> set s \<and> CHR ''"'' \<notin> set s\<close>

lemma cstring_slack: "NUL \<notin> set s \<Longrightarrow> cstring (s @ slack) = s @ cstring slack"
  by (induction s) (auto simp: cstring_def)

lemma terminated_slack: "terminated slack \<Longrightarrow> terminated (s @ slack)"
  by (simp add: terminated_def)

text \<open>The value starts right behind the pattern; the first quote behind it ends it.\<close>

lemma json_value_found:
  assumes i: "find_sub pat (cstring data) = Some i" and t: "terminated data"
    and v: "drop (i + length skip) data = v @ CHR ''\"'' # rest" "id_text v" "terminated rest"
  shows "json_value pat skip data retbuf =
    (if length v < length retbuf then Inr (v @ NUL # drop (length v + 1) retbuf) else Inl OutOfBounds)"
proof -
  let ?p = "v @ CHR ''\"'' # rest"
  have nul: "NUL \<notin> set (v @ [CHR ''\"''])" using v(2) by (simp add: id_text_def)
  have c: "cstring ?p = v @ CHR ''\"'' # cstring rest"
    using cstring_slack [OF nul, of rest] by simp
  have t': "terminated ?p" using v(3) by (simp add: terminated_def)
  have "find_sub [CHR ''\"''] (cstring ?p) = Some (length v)"
    using v(2) by (simp add: c find_sub_single id_text_def)
  then have q: "strstr ?p [CHR ''\"''] = Inr (Some (length v))" using t' by (simp add: strstr_def)
  have s: "snprintf_s retbuf (length v + 1) ?p = mem_write retbuf 0 (v @ [NUL])"
    using t' c by (simp add: snprintf_s_def strlen_def)
  have p: "strstr data pat = Inr (Some i)" using i t by (simp add: strstr_def)
  show ?thesis
    by (simp add: json_value_def p v(1) q s Let_def del: One_nat_def) (auto simp: mem_write_def)
qed

locale id_getter =
  fixes get :: "string \<Rightarrow> string \<Rightarrow> string cres" and key :: string
  assumes get_def: \<open>get data retbuf = json_value (key @ ''":'') (key @ ''":"'') data retbuf\<close>
    and key_ok: \<open>CHR ''"'' \<notin> set key\<close> \<open>NUL \<notin> set key\<close>
begin

lemma missing: \<open>\<lbrakk>terminated data; \<not> sublist (key @ ''":'') (cstring data)\<rbrakk> \<Longrightarrow> get data retbuf = Inl NullDeref\<close>
  using find_sub_None [of \<open>key @ ''":''\<close> "cstring data"]
  by (simp add: get_def json_value_def strstr_def)

lemma field:
  assumes first: \<open>find_sub (key @ ''":'') (pre @ key @ ''":"'' @ v @ CHR ''"'' # cstring rest) = Some (length pre)\<close>
    and ok: "NUL \<notin> set pre" "id_text v" "terminated rest"
  shows \<open>get (pre @ key @ ''":"'' @ v @ CHR ''"'' # rest) retbuf =
    (if length v < length retbuf then Inr (v @ NUL # drop (length v + 1) retbuf) else Inl OutOfBounds)\<close>
proof -
  have \<open>NUL \<notin> set (pre @ key @ ''":"'' @ v @ ''"'')\<close> using ok key_ok by (simp add: id_text_def)
  from cstring_slack [OF this, of rest] have c: \<open>cstring (pre @ key @ ''":"'' @ v @ CHR ''"'' # rest) =
      pre @ key @ ''":"'' @ v @ CHR ''"'' # cstring rest\<close> by simp
  show ?thesis
    unfolding get_def
    by (rule json_value_found [where i = "length pre" and rest = rest])
      (use first ok c in \<open>simp_all add: terminated_def\<close>)
qed

end

interpretation cid: id_getter getClientId \<open>''client_id''\<close>
  by unfold_locales (simp_all add: getClientId_def)

interpretation pid: id_getter getPushId \<open>''push_id''\<close>
  by unfold_locales (simp_all add: getPushId_def)

text \<open>Where the two patterns occur first in the answer.\<close>

lemma client_id_first:
  \<open>find_sub ''client_id":'' (''{"client_id":"'' @ s) = Some 2\<close>
  by (simp add: prefix_def)

lemma push_id_first:
  assumes "id_text c"
  shows \<open>find_sub ''push_id":'' (''{"client_id":"'' @ c @ ''","push_id":"'' @ s) = Some (length c + 17)\<close>
proof -
  have \<open>find_sub (''push_id'' @ [CHR ''"'', CHR '':'']) (c @ CHR ''"'' # CHR '','' # ''"push_id":"'' @ s) =
      Some (length c + 3)\<close>
    using assms by (subst find_sub_over) (simp_all add: id_text_def)
  then show ?thesis by simp
qed

lemma ids_stored:
  assumes "id_text c" "id_text p" "terminated slack"
  shows "getClientId (register_json c p @ slack) cbuf =
      (if length c < length cbuf then Inr (c @ NUL # drop (length c + 1) cbuf) else Inl OutOfBounds) \<and>
    getPushId (register_json c p @ slack) pbuf =
      (if length p < length pbuf then Inr (p @ NUL # drop (length p + 1) pbuf) else Inl OutOfBounds)"
proof
  have j: \<open>register_json c p @ slack = ''{"'' @ ''client_id'' @ ''":"'' @ c @ CHR ''"'' # '',"push_id":"'' @ p @ ''"}'' @ slack\<close>
    by (simp add: register_json_def)
  show "getClientId (register_json c p @ slack) cbuf =
      (if length c < length cbuf then Inr (c @ NUL # drop (length c + 1) cbuf) else Inl OutOfBounds)"
    unfolding j using assms client_id_first by (intro cid.field) (simp_all add: terminated_def)
  have j': \<open>register_json c p @ slack = (''{"client_id":"'' @ c @ ''","'') @ ''push_id'' @ ''":"'' @ p @ CHR ''"'' # ''}'' @ slack\<close>
    by (simp add: register_json_def)
  show "getPushId (register_json c p @ slack) pbuf =
      (if length p < length pbuf then Inr (p @ NUL # drop (length p + 1) pbuf) else Inl OutOfBounds)"
    unfolding j' using assms push_id_first [OF assms(1)]
    by (intro pid.field) (simp_all add: terminated_def id_text_def)
qed

text \<open>
  C14. Both identifiers of a register answer are stored exactly as the server sent them, whatever
  follows the answer in memory, as long as each fits its array; an identifier that does not fit
  is written past the end of the array.
\<close>

theorem get_ids_roundtrip:
  assumes "id_text c" "id_text p" "terminated slack"
  shows "getClientId (register_json c p @ slack) cbuf =
      (if length c < length cbuf then Inr (c @ NUL # drop (length c + 1) cbuf) else Inl OutOfBounds) \<and>
    getPushId (register_json c p @ slack) pbuf =
      (if length p < length pbuf then Inr (p @ NUL # drop (length p + 1) pbuf) else Inl OutOfBounds)"
  using assms by (rule ids_stored)

theorem get_ids_roundtrip_witness:
  "getClientId (register_json ''clid-3-1'' ''puid-3-1'' @ [NUL]) (replicate 256 NUL) =
     Inr (''clid-3-1'' @ NUL # replicate 247 NUL) \<and>
   getPushId (register_json ''clid-3-1'' ''puid-3-1'' @ [NUL]) (replicate 8 NUL) = Inl OutOfBounds"
  using get_ids_roundtrip [of "''clid-3-1''" "''puid-3-1''" "[NUL]" "replicate 256 NUL" "replicate 8 NUL"]
  by (simp add: id_text_def terminated_def)

text \<open>
  C22. A body without the field makes the client compute with a null pointer.
\<close>

theorem get_id_missing:
  assumes "terminated data" \<open>\<not> sublist ''client_id":'' (cstring data)\<close>
  shows "getClientId data buf = Inl NullDeref"
  using cid.missing [of data buf] assms by simp

theorem get_id_missing_witness: "getClientId (''{}'' @ [NUL]) (replicate 256 NUL) = Inl NullDeref"
  by (rule get_id_missing) (simp_all add: terminated_def cstring_def sublist_def)

end
