(* ===== verification/Spdycli_Uri.thy ===== *)
theory Spdycli_Uri
  imports Prelude
begin

text \<open>
  The URI parser of the push client, \<^verbatim>\<open>parse_uri\<close> of \<^verbatim>\<open>client/spdycli.c\<close>, and the request
  structure that \<^verbatim>\<open>request_init\<close> copies out of its result. The \<^verbatim>\<open>uri\<close> argument is modelled
  by the characters of the C string; a \<^verbatim>\<open>const char *\<close> field of \<^verbatim>\<open>struct URI\<close> is null, an
  offset into that string, or the string literal the code assigns.
\<close>

section \<open>Data\<close>

datatype cptr = Null | UriOff nat | Lit string

record URI =
  host :: cptr
  hostlen :: nat
  port :: nat
  path :: cptr
  pathlen :: nat
  hostport :: cptr
  hostportlen :: nat

record Request =
  req_host :: string
  req_port :: nat
  req_path :: string
  req_hostport :: string
  stream_id :: int
  inflater :: bool

definition uri_zero :: URI where \<comment> \<open>\<^verbatim>\<open>memset(res, 0, sizeof(struct URI))\<close>\<close>
  "uri_zero = \<lparr>host = Null, hostlen = 0, port = 0, path = Null, pathlen = 0,
     hostport = Null, hostportlen = 0\<rparr>"

section \<open>Operations\<close>

definition host_delim :: "byte \<Rightarrow> bool" where
  "host_delim c = (c \<in> set '':/?#'')"

definition port_delim :: "byte \<Rightarrow> bool" where
  "port_delim c = (c \<in> set ''/?#'')"

text \<open>
  The host part: the new \<^verbatim>\<open>offset\<close> and the fields it sets. An unclosed bracket leaves
  \<^verbatim>\<open>hostlen\<close> at 0 and the offset behind the bracket.
\<close>

definition parse_host :: "string \<Rightarrow> URI \<Rightarrow> nat \<times> URI" where
  "parse_host uri res =
     (if uri ! 8 = CHR ''['' then
        (let i = scan (\<lambda>c. c = CHR '']'') uri 9 in
         if i < length uri then (i + 1, res\<lparr>host := UriOff 9, hostlen := i - 9\<rparr>)
         else (9, res\<lparr>host := UriOff 9\<rparr>))
      else
        (let i = scan host_delim uri 8 in (i, res\<lparr>hostlen := i - 8\<rparr>)))"

text \<open>The port loop: \<open>None\<close> is \<^verbatim>\<open>return -1\<close>.\<close>

function port_loop :: "string \<Rightarrow> nat \<Rightarrow> nat \<Rightarrow> (nat \<times> nat) option" where
  "port_loop uri i p =
     (if i < length uri then
        if port_delim (uri ! i) then Some (i, p)
        else if is_digit (uri ! i) then
          (let p' = p * 10 + digit_val (uri ! i) in
           if 65535 < p' then None else port_loop uri (Suc i) p')
        else None
      else Some (i, p))"
  by pat_completeness auto
termination
  by (relation "measure (\<lambda>(uri, i, p). length uri - i)") auto

declare port_loop.simps [simp del]

definition parse_port :: "string \<Rightarrow> nat \<Rightarrow> URI \<Rightarrow> (nat \<times> URI) option" where
  "parse_port uri off res =
     (if off < length uri \<and> uri ! off = CHR '':'' then
        (case port_loop uri (off + 1) 0 of
           None \<Rightarrow> None
         | Some (i, p) \<Rightarrow> if p = 0 then None else Some (i, res\<lparr>port := p\<rparr>))
      else Some (off, res))"

definition ptr_off :: "cptr \<Rightarrow> nat" where
  "ptr_off p = (case p of UriOff n \<Rightarrow> n | _ \<Rightarrow> 0)"

definition parse_path :: "string \<Rightarrow> nat \<Rightarrow> URI \<Rightarrow> URI" where
  "parse_path uri off res =
     (let i = scan (\<lambda>c. c = CHR ''#'') uri off in
      if i - off = 0 then res\<lparr>path := Lit ''/'', pathlen := 1\<rparr>
      else res\<lparr>path := UriOff off, pathlen := i - off\<rparr>)"

text \<open>
  The whole function: the return value and the structure it leaves behind, which the
  caller goes on using even when the value is -1.
\<close>

definition parse_uri :: "string \<Rightarrow> int \<times> URI" where
  "parse_uri uri =
     (if length uri < 9 \<or> take 8 uri \<noteq> ''https://'' then (-1, uri_zero)
      else
        let res = uri_zero\<lparr>host := UriOff 8, hostport := UriOff 8, hostlen := 0\<rparr>;
            (off, res) = parse_host uri res
        in if hostlen res = 0 then (-1, res)
        else
          let res = res\<lparr>port := 443\<rparr>
          in case parse_port uri off res of
               None \<Rightarrow> (-1, res)
             | Some (off, res) \<Rightarrow>
                 let res = res\<lparr>hostportlen := off - ptr_off (host res)\<rparr>
                 in (0, parse_path uri off res))"

text \<open>
  \<^verbatim>\<open>strcopy(s, len)\<close>: \<^verbatim>\<open>len\<close> bytes from the pointer, which must lie inside the object
  (the string and its terminator, or the literal).
\<close>

definition ptr_region :: "string \<Rightarrow> cptr \<Rightarrow> string cres" where
  "ptr_region uri p =
     (case p of Null \<Rightarrow> Inl NullDeref
      | UriOff n \<Rightarrow> if n \<le> length uri then Inr (drop n uri @ [NUL]) else Inl OutOfBounds
      | Lit s \<Rightarrow> Inr (s @ [NUL]))"

definition strcopy :: "string \<Rightarrow> cptr \<Rightarrow> nat \<Rightarrow> string cres" where
  "strcopy uri p len =
     cthen (ptr_region uri p)
       (\<lambda>mem. if len \<le> length mem then Inr (take len mem) else Inl OutOfBounds)"

definition request_init :: "string \<Rightarrow> URI \<Rightarrow> Request cres" where
  "request_init uri u =
     cthen (strcopy uri (host u) (hostlen u)) (\<lambda>h.
     cthen (strcopy uri (path u) (pathlen u)) (\<lambda>pa.
     cthen (strcopy uri (hostport u) (hostportlen u)) (\<lambda>hp.
       Inr \<lparr>req_host = h, req_port = port u, req_path = pa, req_hostport = hp,
            stream_id = -1, inflater = False\<rparr>)))"

section \<open>The port loop\<close>

lemma port_loop_reference:
  assumes "i \<le> length uri" and "p \<le> 65535"
  shows "port_loop uri i p =
    (let ds = takeWhile (\<lambda>c. \<not> port_delim c) (drop i uri)
     in if (\<forall>c \<in> set ds. is_digit c) \<and> read_dec p ds \<le> 65535
        then Some (i + length ds, read_dec p ds) else None)"
  using assms
proof (induction uri i p rule: port_loop.induct)
  case (1 uri i p)
  show ?case
  proof (cases "i < length uri \<and> \<not> port_delim (uri ! i) \<and> is_digit (uri ! i)")
    case True
    let ?c = "uri ! i"
    let ?p = "p * 10 + digit_val ?c"
    have drop: "drop i uri = ?c # drop (Suc i) uri"
      using True by (simp add: Cons_nth_drop_Suc)
    have ge: "?p \<le> read_dec ?p ds" for ds by (rule read_dec_ge)
    show ?thesis
    proof (cases "?p \<le> 65535")
      case le: True
      with 1 True have "port_loop uri i p = port_loop uri (Suc i) ?p"
        by (simp add: port_loop.simps [of uri i] Let_def)
      with 1 True le show ?thesis by (simp add: drop Let_def)
    next
      case False
      then have "\<not> read_dec ?p ds \<le> 65535" for ds using ge [of ds] by simp
      with True False show ?thesis
        by (simp add: port_loop.simps [of uri i] drop Let_def)
    qed
  next
    case False
    with 1 show ?thesis
      by (cases "i < length uri")
        (auto simp: port_loop.simps [of uri i] port_loop.simps [of uri "length uri"] Let_def
           Cons_nth_drop_Suc [symmetric])
  qed
qed

text \<open>
  The accumulator is an \<^verbatim>\<open>int\<close>: the largest value it takes, one digit onto 65535, is far
  below \<^verbatim>\<open>INT_MAX\<close>, so the test \<^verbatim>\<open>port > 65535\<close> comes before any overflow.
\<close>

lemma port_acc_no_overflow:
  assumes "p \<le> 65535" and "is_digit c"
  shows "p * 10 + digit_val c \<le> 655359" and "(655359::nat) < 2 ^ 31"
proof -
  have "digit_val c \<le> 9" using assms(2) by (auto simp: is_digit_def digit_val_def)
  with assms(1) show "p * 10 + digit_val c \<le> 655359" by linarith
qed simp

section \<open>The reference parser\<close>

text \<open>
  What the function means to compute, on the text after \<^verbatim>\<open>https://\<close>: the host with its
  optional brackets, the optional port, and the path with its query; the fragment is cut.
\<close>

definition ref_host :: "string \<Rightarrow> (string \<times> string) option" where
  "ref_host r =
     (if r \<noteq> [] \<and> hd r = CHR ''['' then
        (let h = takeWhile (\<lambda>c. c \<noteq> CHR '']'') (tl r) in
         if CHR '']'' \<in> set (tl r) \<and> h \<noteq> [] then Some (h, drop (length h + 1) (tl r)) else None)
      else
        (let h = takeWhile (\<lambda>c. \<not> host_delim c) r in
         if h \<noteq> [] then Some (h, drop (length h) r) else None))"

definition ref_port :: "string \<Rightarrow> (nat \<times> string) option" where
  "ref_port r =
     (if r \<noteq> [] \<and> hd r = CHR '':'' then
        (let ds = takeWhile (\<lambda>c. \<not> port_delim c) (tl r) in
         if (\<forall>c \<in> set ds. is_digit c) \<and> 0 < read_dec 0 ds \<and> read_dec 0 ds \<le> 65535
         then Some (read_dec 0 ds, drop (length ds) (tl r)) else None)
      else Some (443, r))"

definition ref_path :: "string \<Rightarrow> string" where
  "ref_path r = (let p = takeWhile (\<lambda>c. c \<noteq> CHR ''#'') r in if p = [] then ''/'' else p)"

definition ref_uri :: "string \<Rightarrow> (string \<times> nat \<times> string) option" where
  "ref_uri uri =
     (if length uri < 9 \<or> take 8 uri \<noteq> ''https://'' then None
      else case ref_host (drop 8 uri) of
             None \<Rightarrow> None
           | Some (h, r) \<Rightarrow>
               (case ref_port r of None \<Rightarrow> None | Some (p, r') \<Rightarrow> Some (h, p, ref_path r')))"

section \<open>The parser computes the reference\<close>

lemma parse_host_plain:
  assumes "8 \<le> length uri" and "uri ! 8 \<noteq> CHR ''[''"
  shows "parse_host uri res =
    (let h = takeWhile (\<lambda>c. \<not> host_delim c) (drop 8 uri)
     in (8 + length h, res\<lparr>hostlen := length h\<rparr>))"
  using assms by (simp add: parse_host_def scan_takeWhile Let_def)

lemma takeWhile_length_in:
  "x \<in> set xs \<Longrightarrow> length (takeWhile (\<lambda>c. c \<noteq> x) xs) < length xs"
  by (induction xs) auto

lemma parse_host_bracket:
  assumes "9 \<le> length uri" and "uri ! 8 = CHR ''[''"
  shows "parse_host uri res =
    (let h = takeWhile (\<lambda>c. c \<noteq> CHR '']'') (drop 9 uri)
     in if CHR '']'' \<in> set (drop 9 uri)
        then (10 + length h, res\<lparr>host := UriOff 9, hostlen := length h\<rparr>)
        else (9, res\<lparr>host := UriOff 9\<rparr>))"
proof (cases "CHR '']'' \<in> set (drop 9 uri)")
  case True
  with assms takeWhile_length_in [OF True] show ?thesis
    by (simp add: parse_host_def scan_takeWhile Let_def)
next
  case False
  then have "length (takeWhile (\<lambda>c. c \<noteq> CHR '']'') (drop 9 uri)) = length uri - 9"
    by (subst takeWhile_eq_all_conv [THEN iffD2]) auto
  with False assms show ?thesis
    by (simp add: parse_host_def scan_takeWhile Let_def)
qed

lemma take_length_takeWhile: "take (length (takeWhile P xs)) xs = takeWhile P xs"
  by (rule takeWhile_eq_take [symmetric])

lemma hd_drop_8: "8 < length uri \<Longrightarrow> hd (drop 8 uri) = uri ! 8"
  by (simp add: hd_drop_conv_nth)

lemma tl_drop_8: "tl (drop 8 uri) = drop 9 uri"
  using tl_drop [of 8 uri] drop_Suc [of 8 uri] by simp

lemma parse_host_None:
  assumes "8 < length uri" and "ref_host (drop 8 uri) = None" and "hostlen res = 0"
  shows "hostlen (snd (parse_host uri res)) = 0"
  using assms
  by (cases "uri ! 8 = CHR ''[''")
    (auto simp: ref_host_def parse_host_plain parse_host_bracket hd_drop_8 tl_drop_8 Let_def
       split: if_splits)

lemma parse_host_Some:
  assumes len: "8 < length uri" and ref: "ref_host (drop 8 uri) = Some (h, r)"
    and res: "host res = UriOff 8"
  obtains n off where "parse_host uri res = (off, res\<lparr>host := UriOff n, hostlen := length h\<rparr>)"
    and "take (length h) (drop n uri) = h" and "h \<noteq> []" and "n + length h \<le> off"
    and "off \<le> length uri" and "r = drop off uri"
    and "uri ! 8 \<noteq> CHR ''['' \<Longrightarrow> n = 8 \<and> off = 8 + length h"
    and "uri ! 8 = CHR ''['' \<Longrightarrow> n = 9 \<and> off = 10 + length h"
proof (cases "uri ! 8 = CHR ''[''")
  case True
  with ref len have h: "h = takeWhile (\<lambda>c. c \<noteq> CHR '']'') (drop 9 uri)"
    and r: "r = drop (length h + 1) (drop 9 uri)" and br: "CHR '']'' \<in> set (drop 9 uri)"
    and "h \<noteq> []"
    by (auto simp: ref_host_def hd_drop_8 tl_drop_8 Let_def split: if_splits)
  moreover have "length h < length uri - 9"
    using takeWhile_length_in [OF br] by (simp add: h)
  moreover have "parse_host uri res = (10 + length h, res\<lparr>host := UriOff 9, hostlen := length h\<rparr>)"
    using len True br by (simp add: parse_host_bracket h Let_def)
  moreover have "take (length h) (drop 9 uri) = h"
    by (simp add: h take_length_takeWhile)
  ultimately show ?thesis
    using that [of "10 + length h" 9] True by (simp add: add.commute)
next
  case False
  with ref len have h: "h = takeWhile (\<lambda>c. \<not> host_delim c) (drop 8 uri)"
    and r: "r = drop (length h) (drop 8 uri)" and "h \<noteq> []"
    by (auto simp: ref_host_def hd_drop_8 Let_def split: if_splits)
  moreover have "length h \<le> length uri - 8"
    using length_takeWhile_le [of "\<lambda>c. \<not> host_delim c" "drop 8 uri"] by (simp add: h)
  moreover have "parse_host uri res = (8 + length h, res\<lparr>host := UriOff 8, hostlen := length h\<rparr>)"
    using len False res by (simp add: parse_host_plain h Let_def)
  moreover have "take (length h) (drop 8 uri) = h"
    by (simp add: h take_length_takeWhile)
  ultimately show ?thesis
    using that [of "8 + length h" 8] False len by (simp add: add.commute)
qed

lemma parse_port_reference:
  assumes "off \<le> length uri" and "port res = 443"
  shows "parse_port uri off res =
    (case ref_port (drop off uri) of None \<Rightarrow> None
     | Some (p, r) \<Rightarrow> Some (length uri - length r, res\<lparr>port := p\<rparr>))"
proof (cases "off < length uri \<and> uri ! off = CHR '':''")
  case True
  then have "tl (drop off uri) = drop (Suc off) uri" "hd (drop off uri) = CHR '':''"
    by (simp_all add: tl_drop drop_Suc hd_drop_conv_nth)
  moreover have "length (takeWhile (\<lambda>c. \<not> port_delim c) (drop (Suc off) uri)) \<le> length uri - Suc off"
    using length_takeWhile_le [of "\<lambda>c. \<not> port_delim c" "drop (Suc off) uri"] by simp
  ultimately show ?thesis
    using True assms
    by (auto simp: parse_port_def ref_port_def port_loop_reference Let_def split: if_splits)
next
  case False
  with assms show ?thesis
    by (cases "off = length uri") (auto simp: parse_port_def ref_port_def hd_drop_conv_nth)
qed

lemma ref_port_suffix:
  assumes "ref_port r = Some (p, r')"
  shows "r' = drop (length r - length r') r" and "length r' \<le> length r"
    and "0 < p" and "p \<le> 65535"
proof -
  have "r' = r \<or> (\<exists>k. r' = drop k (tl r))"
    using assms by (auto simp: ref_port_def Let_def split: if_splits)
  then have "\<exists>k. r' = drop k r"
    by (metis drop_0 drop_Suc)
  then obtain k where k: "r' = drop k r" by blast
  then show "length r' \<le> length r" by simp
  show "r' = drop (length r - length r') r"
    by (cases "k \<le> length r") (simp_all add: k)
  show "0 < p" "p \<le> 65535"
    using assms by (auto simp: ref_port_def Let_def split: if_splits)
qed

lemma strcopy_inside [simp]:
  "n + len \<le> length uri \<Longrightarrow> strcopy uri (UriOff n) len = Inr (take len (drop n uri))"
  by (simp add: strcopy_def ptr_region_def)

lemma strcopy_slash [simp]: "strcopy uri (Lit ''/'') (Suc 0) = Inr ''/''"
  by (simp add: strcopy_def ptr_region_def)

text \<open>What an accepted text yields, the \<^verbatim>\<open>hostport\<close> copy included.\<close>

lemma parse_uri_accepts:
  assumes https: "8 < length uri" "take 8 uri = ''https://''"
    and h: "ref_host (drop 8 uri) = Some (h, r)" and p: "ref_port r = Some (p, r')"
  shows "\<exists>u. parse_uri uri = (0, u) \<and> request_init uri u =
    Inr \<lparr>req_host = h, req_port = p, req_path = ref_path r',
      req_hostport = take (length uri - length r' - (if uri ! 8 = CHR ''['' then 9 else 8)) (drop 8 uri),
      stream_id = -1, inflater = False\<rparr>"
proof -
  define res where "res = uri_zero\<lparr>host := UriOff 8, hostport := UriOff 8, hostlen := 0\<rparr>"
  have "host res = UriOff 8" by (simp add: res_def)
  from parse_host_Some [OF https(1) h this] obtain n off where
    ph: "parse_host uri res = (off, res\<lparr>host := UriOff n, hostlen := length h\<rparr>)"
    and th: "take (length h) (drop n uri) = h" and "h \<noteq> []"
    and n: "n + length h \<le> off" "off \<le> length uri" and r: "r = drop off uri"
    and br: "uri ! 8 \<noteq> CHR ''['' \<Longrightarrow> n = 8" "uri ! 8 = CHR ''['' \<Longrightarrow> n = 9"
    by metis
  define off' where "off' = length uri - length r'"
  have r'_le: "length r' \<le> length r" and p_ok: "0 < p" "p \<le> 65535"
    and r'_eq: "r' = drop (length r - length r') r"
    using ref_port_suffix [OF p] by blast+
  have off': "off \<le> off'" "off' \<le> length uri" and r': "r' = drop off' uri"
    using r'_eq r'_le n(2) by (simp_all add: r off'_def)
  have scan: "scan (\<lambda>c. c = CHR ''#'') uri off' = off' + length (takeWhile (\<lambda>c. c \<noteq> CHR ''#'') r')"
    using off' r' by (simp add: scan_takeWhile)
  have le: "off' + length (takeWhile (\<lambda>c. c \<noteq> CHR ''#'') r') \<le> length uri"
    using length_takeWhile_le [of "\<lambda>c. c \<noteq> CHR ''#''" r'] off' by (simp add: r')
  define u where "u = parse_path uri off'
    (res\<lparr>host := UriOff n, hostlen := length h, port := p, hostportlen := off' - n\<rparr>)"
  have ps: "parse_uri uri = (0, u)"
    using https ph \<open>h \<noteq> []\<close> n(2) p
    by (simp add: parse_uri_def res_def [symmetric] parse_port_reference r off'_def u_def ptr_off_def)
  have n8: "8 + (off' - n) \<le> length uri" "(if uri ! 8 = CHR ''['' then 9 else 8) = n"
    using br https(1) off' n by (cases "uri ! 8 = CHR ''[''"; simp)+
  have "request_init uri u = Inr \<lparr>req_host = h, req_port = p, req_path = ref_path r',
      req_hostport = take (off' - n) (drop 8 uri), stream_id = -1, inflater = False\<rparr>"
    using th n off' le n8
    by (cases "takeWhile (\<lambda>c. c \<noteq> CHR ''#'') r' = []")
      (simp_all add: u_def request_init_def parse_path_def scan res_def ref_path_def Let_def
         take_length_takeWhile r' [symmetric])
  with ps show ?thesis by (simp add: n8(2) off'_def)
qed

lemma parse_uri_rejects:
  assumes "ref_uri uri = None"
  shows "fst (parse_uri uri) = -1"
proof (cases "length uri < 9 \<or> take 8 uri \<noteq> ''https://''")
  case True
  then show ?thesis by (auto simp: parse_uri_def)
next
  case False
  define res where "res = uri_zero\<lparr>host := UriOff 8, hostport := UriOff 8, hostlen := 0\<rparr>"
  have res: "host res = UriOff 8" "hostlen res = 0" by (simp_all add: res_def)
  show ?thesis
  proof (cases "ref_host (drop 8 uri)")
    case None
    with False res have "hostlen (snd (parse_host uri res)) = 0"
      by (auto intro!: parse_host_None)
    with False show ?thesis
      by (auto simp: parse_uri_def res_def Let_def split: prod.splits)
  next
    case (Some hr)
    obtain h r where hr: "hr = (h, r)" by (cases hr)
    with Some False assms have none: "ref_port r = None"
      by (auto simp: ref_uri_def split: option.splits)
    from False Some hr res obtain n off where
      "parse_host uri res = (off, res\<lparr>host := UriOff n, hostlen := length h\<rparr>)"
      "off \<le> length uri" "r = drop off uri" "h \<noteq> []"
      by (metis parse_host_Some not_less_eq numeral_eq_Suc pred_numeral_simps)
    with False none show ?thesis
      by (auto simp: parse_uri_def res_def [symmetric] parse_port_reference)
  qed
qed

section \<open>Rendered URIs\<close>

definition port_text :: "nat option \<Rightarrow> string" where
  "port_text po = (case po of None \<Rightarrow> [] | Some p \<Rightarrow> CHR '':'' # dec p)"

definition port_of :: "nat option \<Rightarrow> nat" where
  "port_of po = (case po of None \<Rightarrow> 443 | Some p \<Rightarrow> p)"

text \<open>A path with its query, followed by a fragment that the client drops.\<close>

definition tail_ok :: "string \<Rightarrow> string \<Rightarrow> bool" where
  "tail_ok pa fr = ((\<forall>c \<in> set pa. c \<noteq> CHR ''#'') \<and> (pa = [] \<or> hd pa = CHR ''/'' \<or> hd pa = CHR ''?'')
     \<and> (fr = [] \<or> hd fr = CHR ''#''))"

lemma not_port_delim_digit: "is_digit c \<Longrightarrow> \<not> port_delim c"
  by (auto simp: is_digit_def port_delim_def)

lemma tail_starts:
  "tail_ok pa fr \<Longrightarrow> pa @ fr = [] \<or> port_delim (hd (pa @ fr))"
  "tail_ok pa fr \<Longrightarrow> pa @ fr \<noteq> [] \<Longrightarrow> hd (pa @ fr) \<noteq> CHR '':''"
  by (cases pa; cases fr; auto simp: tail_ok_def port_delim_def)+

lemma takeWhile_stop:
  "\<forall>c \<in> set xs. P c \<Longrightarrow> ys = [] \<or> \<not> P (hd ys) \<Longrightarrow> takeWhile P (xs @ ys) = xs"
  by (cases ys) (auto simp: takeWhile_append2 takeWhile_eq_all_conv [THEN iffD2])

lemma ref_port_text:
  assumes "tail_ok pa fr" and "0 < port_of po" and "port_of po \<le> 65535"
  shows "ref_port (port_text po @ pa @ fr) = Some (port_of po, pa @ fr)"
proof (cases po)
  case None
  with tail_starts [OF assms(1)] show ?thesis
    by (auto simp: port_text_def ref_port_def port_of_def)
next
  case (Some p)
  have "takeWhile (\<lambda>c. \<not> port_delim c) (dec p @ pa @ fr) = dec p"
    by (rule takeWhile_stop) (use tail_starts [OF assms(1)] in \<open>auto dest: dec_digits not_port_delim_digit\<close>)
  with Some assms show ?thesis
    by (auto simp: port_text_def ref_port_def port_of_def Let_def dest: dec_digits)
qed

lemma ref_path_text:
  "tail_ok pa fr \<Longrightarrow> ref_path (pa @ fr) = (if pa = [] then ''/'' else pa)"
  using takeWhile_stop [of pa "\<lambda>c. c \<noteq> CHR ''#''" fr]
  by (simp add: tail_ok_def ref_path_def Let_def)

lemma ref_host_plain:
  assumes "h \<noteq> []" and "\<forall>c \<in> set h. \<not> host_delim c" and "hd h \<noteq> CHR ''[''"
    and "r = [] \<or> host_delim (hd r)"
  shows "ref_host (h @ r) = Some (h, r)"
  using assms takeWhile_stop [of h "\<lambda>c. \<not> host_delim c" r]
  by (auto simp: ref_host_def Let_def)

lemma ref_host_bracket:
  assumes "h \<noteq> []" and "\<forall>c \<in> set h. c \<noteq> CHR '']''"
  shows "ref_host (CHR ''['' # h @ CHR '']'' # r) = Some (h, r)"
  using assms takeWhile_stop [of h "\<lambda>c. c \<noteq> CHR '']''" "CHR '']'' # r"]
  by (auto simp: ref_host_def Let_def)

lemma host_delim_tail:
  "tail_ok pa fr \<Longrightarrow> port_text po @ pa @ fr = [] \<or> host_delim (hd (port_text po @ pa @ fr))"
  using tail_starts(1) [of pa fr]
  by (cases po) (auto simp: port_text_def host_delim_def port_delim_def)

section \<open>Properties\<close>

text \<open>
  C12. On every string, \<^verbatim>\<open>parse_uri\<close> returns -1 when the reference grammar rejects the
  text, and otherwise 0 with a structure from which \<^verbatim>\<open>request_init\<close> copies exactly the
  host, port and path of the reference without reading outside the string.
\<close>

theorem parse_uri_reference:
  "case ref_uri uri of
     None \<Rightarrow> fst (parse_uri uri) = -1
   | Some (h, p, pa) \<Rightarrow> \<exists>u hp. parse_uri uri = (0, u) \<and> request_init uri u =
       Inr \<lparr>req_host = h, req_port = p, req_path = pa, req_hostport = hp,
         stream_id = -1, inflater = False\<rparr>"
proof (cases "ref_uri uri")
  case None
  then show ?thesis by (simp add: parse_uri_rejects)
next
  case (Some x)
  then obtain h r p r' where "8 < length uri" "take 8 uri = ''https://''"
    "ref_host (drop 8 uri) = Some (h, r)" "ref_port r = Some (p, r')" "x = (h, p, ref_path r')"
    by (auto simp: ref_uri_def split: if_splits option.splits)
  with Some parse_uri_accepts [of uri h r p r'] show ?thesis by auto
qed

lemma parse_printed:
  assumes "h \<noteq> []" and "\<forall>c \<in> set h. \<not> host_delim c" and "hd h \<noteq> CHR ''[''"
    and "0 < port_of po" and "port_of po \<le> 65535" and "tail_ok pa fr"
    and "uri = ''https://'' @ h @ port_text po @ pa @ fr"
  shows "\<exists>u. parse_uri uri = (0, u) \<and> request_init uri u =
    Inr \<lparr>req_host = h, req_port = port_of po, req_path = (if pa = [] then ''/'' else pa),
      req_hostport = h @ port_text po, stream_id = -1, inflater = False\<rparr>"
proof -
  have h: "ref_host (drop 8 uri) = Some (h, port_text po @ pa @ fr)"
    using assms host_delim_tail ref_host_plain by simp
  have uri: "8 < length uri" "take 8 uri = ''https://''" "uri ! 8 \<noteq> CHR ''[''"
    using assms by (cases h; simp add: nth_append)+
  show ?thesis
    using parse_uri_accepts [OF uri(1,2) h ref_port_text [OF assms(6,4,5)]] uri(3) assms(6)
    by (simp add: ref_path_text assms(7))
qed

text \<open>
  C13. A URI printed from a host name, an optional port, a path with query and a fragment
  is parsed back: host, port, path (\<^verbatim>\<open>/\<close> when empty) and \<^verbatim>\<open>host:port\<close> text are the printed ones.
\<close>

theorem parse_uri_roundtrip:
  assumes "h \<noteq> []" and "\<forall>c \<in> set h. \<not> host_delim c" and "hd h \<noteq> CHR ''[''"
    and "0 < port_of po" and "port_of po \<le> 65535" and "tail_ok pa fr"
    and "uri = ''https://'' @ h @ port_text po @ pa @ fr"
  shows "\<exists>u. parse_uri uri = (0, u) \<and> request_init uri u =
    Inr \<lparr>req_host = h, req_port = port_of po, req_path = (if pa = [] then ''/'' else pa),
      req_hostport = h @ port_text po, stream_id = -1, inflater = False\<rparr>"
  using assms by (rule parse_printed)

theorem parse_uri_roundtrip_witness:
  "\<exists>u. parse_uri ''https://localhost:9443/client/v2/register#x'' = (0, u) \<and>
    request_init ''https://localhost:9443/client/v2/register#x'' u =
    Inr \<lparr>req_host = ''localhost'', req_port = 9443, req_path = ''/client/v2/register'',
      req_hostport = ''localhost:9443'', stream_id = -1, inflater = False\<rparr>"
  using parse_uri_roundtrip [of "''localhost''" "Some 9443" "''/client/v2/register''" "''#x''"]
  by (simp add: host_delim_def port_of_def tail_ok_def port_text_def dec.simps digit_char_def)

text \<open>
  C20. For an IPv6 literal the copied \<^verbatim>\<open>hostport\<close>, which becomes the \<^verbatim>\<open>:host\<close> header, always
  lacks its last character: the length is measured from the address inside the brackets
  while the text starts at the bracket.
\<close>

theorem parse_uri_ipv6_hostport_short:
  assumes "h \<noteq> []" and "\<forall>c \<in> set h. c \<noteq> CHR '']''"
    and "0 < port_of po" and "port_of po \<le> 65535" and "tail_ok pa fr"
    and "uri = ''https://'' @ CHR ''['' # h @ CHR '']'' # port_text po @ pa @ fr"
  shows "\<exists>u. parse_uri uri = (0, u) \<and> request_init uri u =
    Inr \<lparr>req_host = h, req_port = port_of po, req_path = (if pa = [] then ''/'' else pa),
      req_hostport = butlast (CHR ''['' # h @ CHR '']'' # port_text po),
      stream_id = -1, inflater = False\<rparr>"
proof -
  have h: "ref_host (drop 8 uri) = Some (h, port_text po @ pa @ fr)"
    using assms ref_host_bracket by simp
  have uri: "8 < length uri" "take 8 uri = ''https://''" "uri ! 8 = CHR ''[''"
    using assms by (simp_all add: nth_append)
  have "take (length uri - length (pa @ fr) - 9) (drop 8 uri) =
    butlast (CHR ''['' # h @ CHR '']'' # port_text po)"
    by (cases "port_text po" rule: rev_cases) (simp_all add: assms(6) butlast_append)
  then show ?thesis
    using parse_uri_accepts [OF uri(1,2) h ref_port_text [OF assms(5,3,4)]] uri(3) assms(5)
    by (simp only: ref_path_text if_True simp_thms)
qed

theorem parse_uri_ipv6_hostport_short_witness:
  "\<exists>u. parse_uri ''https://[::1]:9443/'' = (0, u) \<and>
    request_init ''https://[::1]:9443/'' u =
    Inr \<lparr>req_host = ''::1'', req_port = 9443, req_path = ''/'', req_hostport = ''[::1]:944'',
      stream_id = -1, inflater = False\<rparr>"
  using parse_uri_ipv6_hostport_short [of "''::1''" "Some 9443" "''/''" "[]"]
  by (simp add: port_of_def tail_ok_def port_text_def dec.simps digit_char_def)

end
