(* ===== verification/Spdycli_Client.thy ===== *)
theory Spdycli_Client
  imports Spdycli_Requests "HOL-Library.Signed_Division"
begin

text \<open>
  The state of one client thread of \<^verbatim>\<open>client/spdycli.c\<close> and the callbacks it registers with the
  Spdylay library. The library is not part of the repository: its session is the type \<open>'s\<close>, and
  the functions of its interface that the client calls are the fields of the record \<open>spdylay\<close>.
  The user data of a stream is either null or the one request of the thread, so
  \<^verbatim>\<open>spdylay_session_get_stream_user_data\<close> is a predicate.
\<close>

section \<open>State\<close>

text \<open>The global flags.\<close>

record options =
  localhost :: bool
  unitmode :: bool
  registermode :: bool
  listenmode :: bool
  fullmode :: bool
  refreshmode :: bool
  backoff :: int
  sequentialId :: bool
  unauthorizedlisten :: bool
  verbose :: bool

datatype io = IO_NONE | WANT_READ | WANT_WRITE

record ThreadUri =
  retries :: int
  pingFrames :: int
  req :: Request
  assoc_stream_id :: int
  uri :: URI
  url :: string
  clientId :: string
  pushId :: string
  pushData :: string

record 's client =
  th :: ThreadUri
  sess :: 's
  want_io :: io
  cur_stream_id :: int \<comment> \<open>the global \<^verbatim>\<open>stream_id\<close>\<close>

record 's spdylay =
  sl_get_stream_user_data :: "'s \<Rightarrow> int \<Rightarrow> bool"
  sl_submit_request :: "'s \<Rightarrow> submission \<Rightarrow> int \<times> 's"
  sl_submit_ping :: "'s \<Rightarrow> int \<times> 's"
  sl_close_stream :: "'s \<Rightarrow> int \<Rightarrow> 's"
  sl_want_read :: "'s \<Rightarrow> bool"
  sl_want_write :: "'s \<Rightarrow> bool"
  sl_gzip_inflate_new :: int

text \<open>
  A computation of the client may also end the process or its thread, or wait forever in a loop
  that repeats an interrupted system call.
\<close>

datatype stop = Fault fault | Exit int | Abort | Thread_exit | Hangs

type_synonym 'a act = "stop + 'a"

definition lift_fault :: "'a cres \<Rightarrow> 'a act" where
  "lift_fault m = (case m of Inl e \<Rightarrow> Inl (Fault e) | Inr x \<Rightarrow> Inr x)"

definition athen :: "'a act \<Rightarrow> ('a \<Rightarrow> 'b act) \<Rightarrow> 'b act" where
  "athen m f = (case m of Inl e \<Rightarrow> Inl e | Inr x \<Rightarrow> f x)"

lemma act_simps [simp]:
  "lift_fault (Inl e) = Inl (Fault e)" "lift_fault (Inr x) = Inr x"
  "athen (Inl s) f = Inl s" "athen (Inr x) f = f x"
  by (simp_all add: lift_fault_def athen_def)

lemma athen_eq_Inr: "athen m f = Inr y \<longleftrightarrow> (\<exists>x. m = Inr x \<and> f x = Inr y)"
  by (cases m) auto

lemma lift_eq_Inr: "lift_fault m = Inr y \<longleftrightarrow> m = Inr y"
  by (cases m) auto

section \<open>Back-off\<close>

text \<open>The result of an operation on \<^verbatim>\<open>int\<close>: 32 bits, and an overflow is undefined.\<close>

definition as_int :: "int \<Rightarrow> int cres" where
  "as_int x = (if - 2147483648 \<le> x \<and> x \<le> 2147483647 then Inr x else Inl IntOverflow)"

definition int_div :: "int \<Rightarrow> int \<Rightarrow> int cres" where \<comment> \<open>truncates towards zero\<close>
  "int_div x y = (if y = 0 then Inl DivByZero else as_int (x sdiv y))"

definition RAND_MAX :: int where \<comment> \<open>of the GNU C library\<close>
  "RAND_MAX = 2147483647"

text \<open>\<^verbatim>\<open>rand()/(RAND_MAX/max+1)\<close>, with the value of \<^verbatim>\<open>rand()\<close> as the argument \<open>r\<close>.\<close>

definition randSleep :: "int \<Rightarrow> int \<Rightarrow> int cres" where
  "randSleep r mx = cthen (int_div RAND_MAX mx) (\<lambda>q. cthen (as_int (q + 1)) (\<lambda>d. int_div r d))"

text \<open>\<^verbatim>\<open>retryBackoff\<close>: the seconds it sleeps, \<open>None\<close> when it returns at once.\<close>

definition retryBackoff :: "int \<Rightarrow> int \<Rightarrow> int \<Rightarrow> int \<Rightarrow> int option cres" where
  "retryBackoff bo r tries mx =
     cthen (if bo = 0 then
              cthen (as_int (tries + 1)) (\<lambda>t. cthen (as_int (t * tries)) (\<lambda>m. int_div m 2))
            else if bo = 1 then
              cthen (int_div RAND_MAX mx) (\<lambda>q. cthen (as_int (q + 1)) (\<lambda>d. int_div r d))
            else if bo = 2 then Inr 0
            else Inr bo)
       (\<lambda>sleeptm. if sleeptm = 0 then Inr None else cthen (as_int (sleeptm + 1)) (\<lambda>t. Inr (Some t)))"

section \<open>Requests of the thread\<close>

text \<open>A failed submission is only reported (\<^verbatim>\<open>diec\<close> does not exit).\<close>

definition submit :: "'s spdylay \<Rightarrow> submission \<Rightarrow> 's client \<Rightarrow> 's client" where
  "submit lib sub c = c\<lparr>sess := snd (sl_submit_request lib (sess c) sub)\<rparr>"

definition submitPingOrRefresh :: "'s spdylay \<Rightarrow> 's client \<Rightarrow> 's client act" where
  "submitPingOrRefresh lib c =
     athen (lift_fault (as_int (pingFrames (th c) + 1))) (\<lambda>n.
       Inr (c\<lparr>sess := snd (sl_submit_ping lib (sess c)), th := (th c)\<lparr>pingFrames := n\<rparr>\<rparr>))"

definition listenAfterObtainPuid :: "options \<Rightarrow> string \<Rightarrow> 's spdylay \<Rightarrow> 's client \<Rightarrow> 's client act" where
  "listenAfterObtainPuid opt ver lib c =
     athen (lift_fault (submit_request_listenV2 (unauthorizedlisten opt) ver (req (th c)) (clientId (th c)) (pushId (th c))))
       (\<lambda>sub. Inr (submit lib sub c))"

text \<open>The steps both modes of \<^verbatim>\<open>updateClientPushId\<close> share.\<close>

definition take_ids :: "options \<Rightarrow> string \<Rightarrow> 's spdylay \<Rightarrow> string \<Rightarrow> 's client \<Rightarrow> 's client act" where
  "take_ids opt ver lib data c =
     athen (lift_fault (getClientId data (clientId (th c)))) (\<lambda>cid.
     athen (lift_fault (getPushId data (pushId (th c)))) (\<lambda>pid.
       listenAfterObtainPuid opt ver lib (c\<lparr>th := (th c)\<lparr>clientId := cid, pushId := pid\<rparr>\<rparr>)))"

definition updateClientPushId :: "options \<Rightarrow> string \<Rightarrow> 's spdylay \<Rightarrow> string \<Rightarrow> 's client \<Rightarrow> 's client act" where
  "updateClientPushId opt ver lib data c =
     (if unitmode opt then Inl (Exit 0)
      else if fullmode opt then
        athen (lift_fault (strlen (clientId (th c)))) (\<lambda>n.
          if 0 < n then Inr c else take_ids opt ver lib data c)
      else if refreshmode opt then
        athen (lift_fault (strlen (pushId (th c)))) (\<lambda>n.
          if 0 < n then Inr c else take_ids opt ver lib data c)
      else Inr c)"

section \<open>Callbacks\<close>

text \<open>
  The first \<^verbatim>\<open>content-encoding\<close> decides. \<open>rv\<close> is the result of \<^verbatim>\<open>spdylay_gzip_inflate_new\<close>; when it
  fails the pointer, null before, stays null.
\<close>

definition check_gzip :: "int \<Rightarrow> (string \<times> string) list \<Rightarrow> Request \<Rightarrow> Request" where
  "check_gzip rv nv r =
     (if map_of nv ''content-encoding'' = Some ''gzip'' \<and> \<not> inflater r
      then r\<lparr>inflater := (rv = 0)\<rparr> else r)"

text \<open>
  The results of \<^verbatim>\<open>SSL_write\<close> and \<^verbatim>\<open>SSL_read\<close>, with what \<^verbatim>\<open>SSL_get_error\<close> says about a negative one;
  the results of the callbacks.
\<close>

datatype ssl_error = SSL_ERROR_WANT_READ | SSL_ERROR_WANT_WRITE | SSL_ERROR_OTHER

datatype cb_result = Bytes int | ERR_WOULDBLOCK | ERR_CALLBACK_FAILURE | ERR_EOF

definition send_callback :: "int \<Rightarrow> ssl_error \<Rightarrow> 's client \<Rightarrow> cb_result \<times> 's client" where
  "send_callback rv err c =
     (let c = c\<lparr>want_io := IO_NONE\<rparr> in
      if rv < 0 then
        (if err = SSL_ERROR_WANT_WRITE \<or> err = SSL_ERROR_WANT_READ
         then (ERR_WOULDBLOCK, c\<lparr>want_io := (if err = SSL_ERROR_WANT_READ then WANT_READ else WANT_WRITE)\<rparr>)
         else (ERR_CALLBACK_FAILURE, c))
      else (Bytes rv, c))"

definition recv_callback :: "int \<Rightarrow> ssl_error \<Rightarrow> 's client \<Rightarrow> cb_result \<times> 's client" where
  "recv_callback rv err c =
     (let c = c\<lparr>want_io := IO_NONE\<rparr> in
      if rv < 0 then
        (if err = SSL_ERROR_WANT_WRITE \<or> err = SSL_ERROR_WANT_READ
         then (ERR_WOULDBLOCK, c\<lparr>want_io := (if err = SSL_ERROR_WANT_READ then WANT_READ else WANT_WRITE)\<rparr>)
         else (ERR_CALLBACK_FAILURE, c))
      else if rv = 0 then (ERR_EOF, c)
      else (Bytes rv, c))"

text \<open>The control frames the callbacks distinguish; the header block of a frame is a list of pairs.\<close>

datatype frame =
    SYN_STREAM int int "(string \<times> string) list" \<comment> \<open>stream, associated stream, headers\<close>
  | SYN_REPLY int "(string \<times> string) list"
  | HEADERS int "(string \<times> string) list"
  | Other_frame int

fun before_ctrl_send_callback :: "'s spdylay \<Rightarrow> frame \<Rightarrow> 's client \<Rightarrow> 's client" where
  "before_ctrl_send_callback lib (SYN_STREAM sid assoc nv) c =
     (if sl_get_stream_user_data lib (sess c) sid \<and> stream_id (req (th c)) = -1
      then c\<lparr>th := (th c)\<lparr>req := (req (th c))\<lparr>stream_id := sid\<rparr>\<rparr>\<rparr> else c)"
| "before_ctrl_send_callback lib _ c = c"

definition gzip_of_stream :: "'s spdylay \<Rightarrow> (string \<times> string) list \<Rightarrow> 's client \<Rightarrow> 's client" where
  "gzip_of_stream lib nv c =
     (if sl_get_stream_user_data lib (sess c) (cur_stream_id c) \<or>
         sl_get_stream_user_data lib (sess c) (assoc_stream_id (th c))
      then c\<lparr>th := (th c)\<lparr>req := check_gzip (sl_gzip_inflate_new lib) nv (req (th c))\<rparr>\<rparr> else c)"

fun on_ctrl_recv_callback :: "'s spdylay \<Rightarrow> frame \<Rightarrow> 's client \<Rightarrow> 's client" where
  "on_ctrl_recv_callback lib (SYN_REPLY sid nv) c = gzip_of_stream lib nv (c\<lparr>cur_stream_id := sid\<rparr>)"
| "on_ctrl_recv_callback lib (HEADERS sid nv) c = gzip_of_stream lib nv (c\<lparr>cur_stream_id := sid\<rparr>)"
| "on_ctrl_recv_callback lib (SYN_STREAM sid assoc nv) c =
     gzip_of_stream lib nv (c\<lparr>cur_stream_id := sid, th := (th c)\<lparr>assoc_stream_id := assoc\<rparr>\<rparr>)"
| "on_ctrl_recv_callback lib (Other_frame t) c = c"

definition on_data_send_callback :: "'s spdylay \<Rightarrow> int \<Rightarrow> 's client \<Rightarrow> 's client" where
  "on_data_send_callback lib sid c =
     (if 3 \<le> sid then c\<lparr>sess := sl_close_stream lib (sess c) sid\<rparr> else c)"

text \<open>
  The chunk \<open>data\<close> of length \<open>len\<close>; \<open>data\<close> is the memory from its first byte on. The inflater
  branch is disabled in the code, and so is the reset after \<^verbatim>\<open>randSleep\<close>. For an empty chunk the
  code passes \<^verbatim>\<open>stdout\<close> to \<^verbatim>\<open>vbprintf\<close>, whose first argument is the format.
\<close>

definition on_data_chunk_recv_callback ::
  "options \<Rightarrow> string \<Rightarrow> 's spdylay \<Rightarrow> int \<Rightarrow> string \<Rightarrow> nat \<Rightarrow> 's client \<Rightarrow> 's client act" where
  "on_data_chunk_recv_callback opt ver lib sid data len c =
     (if sl_get_stream_user_data lib (sess c) sid then updateClientPushId opt ver lib data c
      else if 0 < len \<and> sl_get_stream_user_data lib (sess c) (assoc_stream_id (th c)) then
        athen (lift_fault (submit_request_pushack ver (req (th c)) (clientId (th c)) data len)) (\<lambda>(pd, sub).
          let c = c\<lparr>th := (th c)\<lparr>pushData := pd\<rparr>\<rparr> in
          case sub of None \<Rightarrow> Inl Thread_exit | Some sub \<Rightarrow> Inr (submit lib sub c))
      else if len = 0 \<and> verbose opt then Inl (Fault BadFormat)
      else Inr c)"

text \<open>
  The negotiated version is stored in 16 bits even when no version was negotiated (\<^verbatim>\<open>die\<close> does
  not exit).
\<close>

definition select_next_proto_cb :: "int \<Rightarrow> 16 word" where
  "select_next_proto_cb rv = word_of_int rv"

section \<open>What the library may do to a client\<close>

text \<open>
  \<^verbatim>\<open>spdylay_session_recv\<close> and \<^verbatim>\<open>spdylay_session_send\<close> change their own session and call the
  registered callbacks, in any order and with any arguments. The callbacks that only print
  (\<^verbatim>\<open>on_ctrl_send_callback\<close>, \<^verbatim>\<open>on_stream_close_callback\<close>) are steps without an effect.
\<close>

inductive callback_step :: "options \<Rightarrow> string \<Rightarrow> 's spdylay \<Rightarrow> 's client \<Rightarrow> 's client \<Rightarrow> bool"
  for opt ver lib where
  own: "callback_step opt ver lib c (c\<lparr>sess := s\<rparr>)"
| send: "callback_step opt ver lib c (snd (send_callback rv err c))"
| recv: "callback_step opt ver lib c (snd (recv_callback rv err c))"
| before: "callback_step opt ver lib c (before_ctrl_send_callback lib f c)"
| ctrl: "callback_step opt ver lib c (on_ctrl_recv_callback lib f c)"
| sent: "callback_step opt ver lib c (on_data_send_callback lib sid c)"
| chunk: "on_data_chunk_recv_callback opt ver lib sid data len c = Inr c' \<Longrightarrow> callback_step opt ver lib c c'"

lemma one_step: "callback_step opt ver lib c c' \<Longrightarrow> (callback_step opt ver lib)\<^sup>*\<^sup>* c c'"
  by (rule r_into_rtranclp)

section \<open>Effects of the callbacks\<close>

lemma send_th [simp]: "th (snd (send_callback rv err c)) = th c"
  by (simp add: send_callback_def Let_def)

lemma recv_th [simp]: "th (snd (recv_callback rv err c)) = th c"
  by (simp add: recv_callback_def Let_def)

lemma sent_th [simp]: "th (on_data_send_callback lib sid c) = th c"
  by (simp add: on_data_send_callback_def)

lemma submit_th [simp]: "th (submit lib sub c) = th c"
  by (simp add: submit_def)

text \<open>How the request of a thread may develop: its stream number is set once, its texts never change.\<close>

definition req_keeps :: "Request \<Rightarrow> Request \<Rightarrow> bool" where
  "req_keeps r r' \<longleftrightarrow> req_host r' = req_host r \<and> req_port r' = req_port r \<and> req_path r' = req_path r \<and>
     req_hostport r' = req_hostport r \<and> (stream_id r = stream_id r' \<or> stream_id r = -1) \<and>
     (inflater r' = inflater r \<or> inflater r')"

lemma req_self: "\<exists>r. req_keeps (req t) r \<and> t = t\<lparr>req := r\<rparr>"
  by (rule exI [of _ "req t"]) (simp add: req_keeps_def)

lemma before_th: "\<exists>r. req_keeps (req (th c)) r \<and> th (before_ctrl_send_callback lib f c) = (th c)\<lparr>req := r\<rparr>"
proof (cases f)
  case (SYN_STREAM sid a nv)
  have "req_keeps (req (th c)) ((req (th c))\<lparr>stream_id := sid\<rparr>)" if "stream_id (req (th c)) = -1"
    using that by (simp add: req_keeps_def)
  with SYN_STREAM req_self [of "th c"] show ?thesis by auto
qed (use req_self [of "th c"] in simp_all)

lemma gzip_th: "\<exists>r. req_keeps (req (th c)) r \<and> th (gzip_of_stream lib nv c) = (th c)\<lparr>req := r\<rparr>"
proof -
  have "req_keeps r (check_gzip rv nv r)" for rv r
    by (simp add: check_gzip_def req_keeps_def)
  with req_self [of "th c"] show ?thesis by (auto simp: gzip_of_stream_def)
qed

lemma ctrl_th:
  "\<exists>a r. req_keeps (req (th c)) r \<and> th (on_ctrl_recv_callback lib f c) = (th c)\<lparr>assoc_stream_id := a, req := r\<rparr>"
proof -
  obtain c1 a where c1: "th c1 = (th c)\<lparr>assoc_stream_id := a\<rparr>"
    "on_ctrl_recv_callback lib f c = c1 \<or> (\<exists>nv. on_ctrl_recv_callback lib f c = gzip_of_stream lib nv c1)"
  proof (cases f)
    case (SYN_STREAM sid a nv)
    then show thesis by (intro that [of "c\<lparr>cur_stream_id := sid, th := (th c)\<lparr>assoc_stream_id := a\<rparr>\<rparr>" a]) auto
  next
    case (SYN_REPLY sid nv)
    then show thesis by (intro that [of "c\<lparr>cur_stream_id := sid\<rparr>" "assoc_stream_id (th c)"]) auto
  next
    case (HEADERS sid nv)
    then show thesis by (intro that [of "c\<lparr>cur_stream_id := sid\<rparr>" "assoc_stream_id (th c)"]) auto
  next
    case (Other_frame t)
    then show thesis by (intro that [of c "assoc_stream_id (th c)"]) auto
  qed
  then obtain r where "req_keeps (req (th c1)) r" "th (on_ctrl_recv_callback lib f c) = (th c1)\<lparr>req := r\<rparr>"
    using gzip_th [of c1 lib] req_self [of "th c1"] by metis
  then show ?thesis using c1(1) by auto
qed

text \<open>In which situation \<^verbatim>\<open>updateClientPushId\<close> reads identifiers.\<close>

definition wants_ids :: "options \<Rightarrow> ThreadUri \<Rightarrow> bool" where
  "wants_ids opt t \<longleftrightarrow> \<not> unitmode opt \<and>
     (if fullmode opt then cstring (clientId t) = [] else refreshmode opt \<and> cstring (pushId t) = [])"

lemma strlen_Inr: "strlen m = Inr n \<longleftrightarrow> terminated m \<and> n = length (cstring m)"
  by (auto simp: strlen_def)

lemma take_ids_th:
  assumes "take_ids opt ver lib data c = Inr c'"
  obtains cid pid where "getClientId data (clientId (th c)) = Inr cid" "getPushId data (pushId (th c)) = Inr pid"
    "th c' = (th c)\<lparr>clientId := cid, pushId := pid\<rparr>"
  using assms by (auto simp: take_ids_def listenAfterObtainPuid_def athen_eq_Inr lift_eq_Inr)

lemma update_th:
  assumes "updateClientPushId opt ver lib data c = Inr c'"
  obtains "c' = c"
  | cid pid where "wants_ids opt (th c)" "getClientId data (clientId (th c)) = Inr cid"
      "getPushId data (pushId (th c)) = Inr pid" "th c' = (th c)\<lparr>clientId := cid, pushId := pid\<rparr>"
proof -
  have "c' = c \<or> wants_ids opt (th c) \<and> take_ids opt ver lib data c = Inr c'"
    using assms
    by (auto simp: updateClientPushId_def wants_ids_def athen_eq_Inr lift_eq_Inr strlen_Inr split: if_splits)
  then show thesis
  proof
    assume "wants_ids opt (th c) \<and> take_ids opt ver lib data c = Inr c'"
    then show thesis using that(2) take_ids_th [of opt ver lib data c c'] by metis
  qed (rule that(1))
qed

lemma pushack_len: "submit_request_pushack ver r cid data len = Inr (pd, sub) \<Longrightarrow> length pd = 1024"
  by (auto simp: submit_request_pushack_def strncpy_def Let_def cthen_eq_Inr split: if_splits dest!: mem_write_len)

lemma chunk_th:
  assumes "on_data_chunk_recv_callback opt ver lib sid data len c = Inr c'"
  obtains "th c' = th c"
  | cid pid where "wants_ids opt (th c)" "getClientId data (clientId (th c)) = Inr cid"
      "getPushId data (pushId (th c)) = Inr pid" "th c' = (th c)\<lparr>clientId := cid, pushId := pid\<rparr>"
  | pd where "length pd = 1024" "th c' = (th c)\<lparr>pushData := pd\<rparr>"
proof (cases "sl_get_stream_user_data lib (sess c) sid")
  case True
  with assms have "updateClientPushId opt ver lib data c = Inr c'" by (simp add: on_data_chunk_recv_callback_def)
  then show thesis
  proof (rule update_th)
    assume "c' = c"
    then show thesis by (intro that(1)) simp
  qed (rule that(2))
next
  case False
  have "c' = c \<or> (\<exists>pd sub. submit_request_pushack ver (req (th c)) (clientId (th c)) data len = Inr (pd, Some sub) \<and>
      c' = submit lib sub (c\<lparr>th := (th c)\<lparr>pushData := pd\<rparr>\<rparr>))"
  proof (cases "0 < len \<and> sl_get_stream_user_data lib (sess c) (assoc_stream_id (th c))")
    case push: True
    with False assms obtain pd sub where s:
      "submit_request_pushack ver (req (th c)) (clientId (th c)) data len = Inr (pd, sub)"
      "(case sub of None \<Rightarrow> Inl Thread_exit | Some sub \<Rightarrow> Inr (submit lib sub (c\<lparr>th := (th c)\<lparr>pushData := pd\<rparr>\<rparr>))) = Inr c'"
      unfolding on_data_chunk_recv_callback_def athen_eq_Inr lift_eq_Inr Let_def by (simp add: athen_eq_Inr lift_eq_Inr) blast
    then show ?thesis by (cases sub) auto
  next
    case nopush: False
    with False assms show ?thesis by (simp add: on_data_chunk_recv_callback_def split: if_splits)
  qed
  then show thesis
  proof (elim disjE exE conjE)
    assume "c' = c"
    then show thesis by (intro that(1)) simp
  next
    fix pd sub
    assume s: "submit_request_pushack ver (req (th c)) (clientId (th c)) data len = Inr (pd, Some sub)"
      "c' = submit lib sub (c\<lparr>th := (th c)\<lparr>pushData := pd\<rparr>\<rparr>)"
    show thesis by (rule that(3) [OF pushack_len [OF s(1)]]) (simp add: s(2))
  qed
qed

section \<open>Invariants of the thread\<close>

text \<open>
  A property of the thread's data that survives the four kinds of update survives every sequence
  of callbacks.
\<close>

locale thread_invariant =
  fixes opt :: options and Inv :: "ThreadUri \<Rightarrow> bool"
  assumes request: "\<lbrakk>Inv t; req_keeps (req t) r\<rbrakk> \<Longrightarrow> Inv (t\<lparr>req := r\<rparr>)"
    and assoc: "Inv t \<Longrightarrow> Inv (t\<lparr>assoc_stream_id := a\<rparr>)"
    and push: "\<lbrakk>Inv t; length pd = 1024\<rbrakk> \<Longrightarrow> Inv (t\<lparr>pushData := pd\<rparr>)"
    and ids: "\<lbrakk>Inv t; wants_ids opt t; getClientId data (clientId t) = Inr cid; getPushId data (pushId t) = Inr pid\<rbrakk>
      \<Longrightarrow> Inv (t\<lparr>clientId := cid, pushId := pid\<rparr>)"
begin

lemma step_keeps:
  assumes "callback_step opt ver lib c c'" "Inv (th c)"
  shows "Inv (th c')"
  using assms
proof (induction rule: callback_step.induct)
  case (before c f)
  with before_th [of c lib f] request show ?case by auto
next
  case (ctrl c f)
  obtain a r where ar: "req_keeps (req (th c)) r" "th (on_ctrl_recv_callback lib f c) = (th c)\<lparr>assoc_stream_id := a, req := r\<rparr>"
    using ctrl_th by blast
  with request [OF assoc [OF ctrl.prems], of a r] show ?case by simp
next
  case (chunk sid data len c c')
  then show ?case using ids push by (elim chunk_th) auto
qed simp_all

lemma steps_keep: "\<lbrakk>(callback_step opt ver lib)\<^sup>*\<^sup>* c c'; Inv (th c)\<rbrakk> \<Longrightarrow> Inv (th c')"
  by (induction rule: rtranclp_induct) (auto intro: step_keeps)

end

text \<open>The arrays have their sizes and both identifiers are terminated strings.\<close>

definition thread_ok :: "ThreadUri \<Rightarrow> bool" where
  "thread_ok t \<longleftrightarrow> length (clientId t) = 256 \<and> length (pushId t) = 256 \<and> length (pushData t) = 1024 \<and>
     terminated (clientId t) \<and> terminated (pushId t)"

lemma json_value_region:
  assumes "json_value pat skip data buf = Inr b"
  shows "length b = length buf" "terminated b"
proof -
  obtain j p where "snprintf_s buf (j + 1) p = Inr b"
    using assms by (auto simp: json_value_def Let_def cthen_eq_Inr split: option.splits)
  then obtain l where "mem_write buf 0 (take (min l j) p @ [NUL]) = Inr b" by (auto simp: snprintf_s_def)
  then show "length b = length buf" "terminated b"
    by (auto simp: mem_write_def terminated_def split: if_splits)
qed

lemma get_ids_region:
  "getClientId data buf = Inr b \<Longrightarrow> length b = length buf \<and> terminated b"
  "getPushId data buf = Inr b \<Longrightarrow> length b = length buf \<and> terminated b"
  by (auto simp: getClientId_def getPushId_def dest: json_value_region)

interpretation ok: thread_invariant opt thread_ok for opt
  by unfold_locales (auto simp: thread_ok_def dest: get_ids_region)

text \<open>In full mode, identifiers \<open>cid\<close>, \<open>pid\<close> that have been stored.\<close>

definition registered :: "options \<Rightarrow> string \<Rightarrow> string \<Rightarrow> ThreadUri \<Rightarrow> bool" where
  "registered opt cid pid t \<longleftrightarrow> fullmode opt \<and> cstring cid \<noteq> [] \<and> clientId t = cid \<and> pushId t = pid"

interpretation reg: thread_invariant opt "registered opt cid pid" for opt cid pid
  by unfold_locales (auto simp: registered_def wants_ids_def)

text \<open>The stream number \<open>n\<close> and the texts of the request \<open>r0\<close>.\<close>

definition bound_to :: "Request \<Rightarrow> ThreadUri \<Rightarrow> bool" where
  "bound_to r0 t \<longleftrightarrow> stream_id r0 \<noteq> -1 \<and> stream_id (req t) = stream_id r0 \<and> req_keeps r0 (req t)"

interpretation bnd: thread_invariant opt "bound_to r0" for opt r0
  by unfold_locales (auto simp: bound_to_def req_keeps_def)

section \<open>A sample client\<close>

text \<open>A library that records the submitted requests and knows the request on stream 1.\<close>

definition sample_lib :: "submission list spdylay" where
  "sample_lib = \<lparr>sl_get_stream_user_data = (\<lambda>s sid. sid = 1), sl_submit_request = (\<lambda>s sub. (0, s @ [sub])),
     sl_submit_ping = (\<lambda>s. (0, s)), sl_close_stream = (\<lambda>s sid. s), sl_want_read = (\<lambda>s. True),
     sl_want_write = (\<lambda>s. s \<noteq> []), sl_gzip_inflate_new = 0\<rparr>"

definition full_options :: options where
  "full_options = \<lparr>localhost = True, unitmode = False, registermode = False, listenmode = False, fullmode = True,
     refreshmode = False, backoff = -1, sequentialId = False, unauthorizedlisten = False, verbose = False\<rparr>"

definition sample_client :: "string \<Rightarrow> int \<Rightarrow> submission list client" where
  "sample_client cid sid =
     \<lparr>th = \<lparr>retries = 0, pingFrames = 0,
        req = \<lparr>req_host = ''h'', req_port = 443, req_path = ''/client/v2/register'', req_hostport = ''h'',
               stream_id = sid, inflater = False\<rparr>,
        assoc_stream_id = 0, uri = uri_zero, url = [], clientId = cid @ replicate (256 - length cid) NUL,
        pushId = replicate 256 NUL, pushData = replicate 1024 NUL\<rparr>,
      sess = [], want_io = IO_NONE, cur_stream_id = 0\<rparr>"

lemma sample_client_ok [simp]: "length cid < 256 \<Longrightarrow> thread_ok (th (sample_client cid sid))"
  by (auto simp: thread_ok_def sample_client_def terminated_def)

section \<open>Properties\<close>

text \<open>
  C28. Whatever the library calls, with whatever frames and data: as long as no callback commits
  undefined behaviour, the arrays of the thread keep their sizes and both identifiers stay
  terminated strings.
\<close>

theorem callbacks_keep_thread:
  assumes "(callback_step opt ver lib)\<^sup>*\<^sup>* c c'" "thread_ok (th c)"
  shows "thread_ok (th c')"
  using assms by (rule ok.steps_keep)

theorem callbacks_keep_thread_witness:
  "thread_ok (th (on_ctrl_recv_callback sample_lib (SYN_STREAM 2 1 [(''content-encoding'', ''gzip'')]) (sample_client [] 1)))"
  by (rule callbacks_keep_thread [where opt = full_options and ver = "''1''", OF one_step [OF callback_step.ctrl]]) simp

text \<open>
  C29. A client in full mode that has its identifiers keeps them: no later answer of the server
  changes the client id or the push id.
\<close>

theorem ids_never_change:
  assumes "(callback_step opt ver lib)\<^sup>*\<^sup>* c c'" "fullmode opt" "cstring (clientId (th c)) \<noteq> []"
  shows "clientId (th c') = clientId (th c) \<and> pushId (th c') = pushId (th c)"
proof -
  have "registered opt (clientId (th c)) (pushId (th c)) (th c)" using assms(2,3) by (simp add: registered_def)
  with reg.steps_keep [OF assms(1)] have "registered opt (clientId (th c)) (pushId (th c)) (th c')" by blast
  then show ?thesis unfolding registered_def by metis
qed

theorem ids_never_change_witness:
  \<open>let c = sample_client ''clid-1'' 1 in
   \<exists>c'. on_data_chunk_recv_callback full_options ''1'' sample_lib 1 (register_json ''clid-2'' ''puid-2'' @ [NUL]) 46 c = Inr c' \<and>
     clientId (th c') = clientId (th c) \<and> pushId (th c') = pushId (th c)\<close>
proof -
  let ?c = "sample_client ''clid-1'' 1" and ?data = "register_json ''clid-2'' ''puid-2'' @ [NUL]"
  have id: "cstring (clientId (th ?c)) = ''clid-1''" by (simp add: sample_client_def cstring_def)
  have "terminated (clientId (th ?c))" using sample_client_ok [of "''clid-1''" 1] by (simp add: thread_ok_def)
  with id have s: "on_data_chunk_recv_callback full_options ''1'' sample_lib 1 ?data 46 ?c = Inr ?c"
    by (simp add: on_data_chunk_recv_callback_def updateClientPushId_def strlen_def full_options_def sample_lib_def)
  show ?thesis
    using s ids_never_change [OF one_step [OF callback_step.chunk [OF s]]] id
    by (simp add: full_options_def)
qed

text \<open>
  C30. The request is bound to its first stream: once it has a stream number, further streams that
  are opened for it leave the number, the host, the port and the path as they are.
\<close>

theorem stream_id_set_once:
  assumes "(callback_step opt ver lib)\<^sup>*\<^sup>* c c'" "stream_id (req (th c)) \<noteq> -1"
  shows "stream_id (req (th c')) = stream_id (req (th c)) \<and> req_path (req (th c')) = req_path (req (th c)) \<and>
    req_host (req (th c')) = req_host (req (th c)) \<and> req_port (req (th c')) = req_port (req (th c))"
proof -
  have "bound_to (req (th c)) (th c)" using assms(2) by (simp add: bound_to_def req_keeps_def)
  with bnd.steps_keep [OF assms(1)] have "bound_to (req (th c)) (th c')" by blast
  then show ?thesis unfolding bound_to_def req_keeps_def by metis
qed

theorem stream_id_set_once_witness:
  "stream_id (req (th (before_ctrl_send_callback sample_lib (SYN_STREAM 1 0 []) (sample_client [] 3)))) = 3"
  using stream_id_set_once [where opt = full_options and ver = "''1''",
      OF one_step [OF callback_step.before], of "sample_client [] 3" sample_lib "SYN_STREAM 1 0 []"]
  by (simp add: sample_client_def)

lemma cstring_lit: "NUL \<notin> set s \<Longrightarrow> cstring (s @ NUL # rest) = s"
  by (rule cstring_terminated)

lemma id_text_NUL: "id_text s \<Longrightarrow> NUL \<notin> set s"
  by (simp add: id_text_def)

lemma answer_listens:
  assumes "fullmode opt" "\<not> unitmode opt" "thread_ok (th c)" "cstring (clientId (th c)) = []"
    and "sl_get_stream_user_data lib (sess c) sid"
    and "id_text cid" "id_text pid" "length cid < 249" "length pid < 220" "terminated slack"
  shows "\<exists>c'. on_data_chunk_recv_callback opt ver lib sid (register_json cid pid @ slack) len c = Inr c' \<and>
    cstring (clientId (th c')) = cid \<and> cstring (pushId (th c')) = pid \<and>
    sess c' = snd (sl_submit_request lib (sess c)
      \<lparr>sub_headers =
         [('':method'', ''GET''), ('':path'', ''/client/v2/'' @ pid @ ''?min_ping_interval_sec=30''),
          ('':version'', ''HTTP/1.1''), ('':scheme'', ''https''), ('':host'', req_hostport (req (th c))),
          (''accept'', ''application/json''), (''user-agent'', ''spdylay/'' @ ver),
          (''authorization'', if unauthorizedlisten opt then ''wrong-client-id'' else ''Basic  '' @ cid)],
       sub_provider = None\<rparr>)"
proof -
  define cbuf where "cbuf = cid @ NUL # drop (length cid + 1) (clientId (th c))"
  define pbuf where "pbuf = pid @ NUL # drop (length pid + 1) (pushId (th c))"
  have ids: "getClientId (register_json cid pid @ slack) (clientId (th c)) = Inr cbuf"
    "getPushId (register_json cid pid @ slack) (pushId (th c)) = Inr pbuf"
    using ids_stored [OF assms(6,7,10)] assms(3,8,9) by (simp_all add: thread_ok_def cbuf_def pbuf_def)
  have bufs: "terminated cbuf" "terminated pbuf" "cstring cbuf = cid" "cstring pbuf = pid"
    using assms(6,7) by (simp_all add: cbuf_def pbuf_def terminated_def cstring_lit id_text_NUL)
  have empty: "strlen (clientId (th c)) = Inr 0" using assms(3,4) by (simp add: strlen_def thread_ok_def)
  show ?thesis
    using assms(1,2,5,8,9) bufs
    by (simp add: on_data_chunk_recv_callback_def updateClientPushId_def empty take_ids_def ids
      listenAfterObtainPuid_def listenV2_eq submit_def)
qed

text \<open>
  C6. Registration leads to listening. When a client in full mode without identifiers receives
  the answer of the register interface on its own stream, it stores both identifiers and submits
  exactly one listen request, for the push id it was given and with the credentials of the
  client id it was given.
\<close>

theorem register_then_listen:
  assumes "fullmode opt" "\<not> unitmode opt" "thread_ok (th c)" "cstring (clientId (th c)) = []"
    and "sl_get_stream_user_data lib (sess c) sid"
    and "id_text cid" "id_text pid" "length cid < 249" "length pid < 220" "terminated slack"
  shows "\<exists>c'. on_data_chunk_recv_callback opt ver lib sid (register_json cid pid @ slack) len c = Inr c' \<and>
    cstring (clientId (th c')) = cid \<and> cstring (pushId (th c')) = pid \<and>
    sess c' = snd (sl_submit_request lib (sess c)
      \<lparr>sub_headers =
         [('':method'', ''GET''), ('':path'', ''/client/v2/'' @ pid @ ''?min_ping_interval_sec=30''),
          ('':version'', ''HTTP/1.1''), ('':scheme'', ''https''), ('':host'', req_hostport (req (th c))),
          (''accept'', ''application/json''), (''user-agent'', ''spdylay/'' @ ver),
          (''authorization'', if unauthorizedlisten opt then ''wrong-client-id'' else ''Basic  '' @ cid)],
       sub_provider = None\<rparr>)"
  using assms by (rule answer_listens)

theorem register_then_listen_witness:
  "\<exists>c'. on_data_chunk_recv_callback full_options ''1'' sample_lib 1 (register_json ''clid-3-1'' ''puid-3-1'' @ [NUL]) 46
      (sample_client [] 1) = Inr c' \<and>
    cstring (clientId (th c')) = ''clid-3-1'' \<and> cstring (pushId (th c')) = ''puid-3-1'' \<and> length (sess c') = 1"
  using register_then_listen [of full_options "sample_client [] 1" sample_lib 1 "''clid-3-1''" "''puid-3-1''" "[NUL]" "''1''" 46]
  by (auto simp: full_options_def sample_lib_def id_text_def terminated_def sample_client_def cstring_def thread_ok_def)


section \<open>Back-off times\<close>

lemma sdiv_pos: "\<lbrakk>0 \<le> x; 0 < y\<rbrakk> \<Longrightarrow> x sdiv y = x div y" for x y :: int
  by (simp add: signed_divide_int_def sgn_if)

lemma int_div_less_iff: "0 < d \<Longrightarrow> x div d < n \<longleftrightarrow> x < n * d" for x d n :: int
  using pos_imp_zdiv_neg_iff [of d "x - n * d"] div_mult_self1 [of d x "- n"] by simp

lemma rand_bound:
  assumes "0 \<le> r" "r \<le> RAND_MAX" "1 < mx" "mx \<le> RAND_MAX"
  shows "\<exists>t. randSleep r mx = Inr t \<and> 0 \<le> t \<and> t < mx"
proof -
  define d where "d = RAND_MAX div mx + 1"
  have le: "RAND_MAX div mx \<le> RAND_MAX div 2"
    using assms(3) by (intro zdiv_mono2) (simp_all add: RAND_MAX_def)
  have d: "0 < d" "d \<le> 1073741824"
    using assms le by (simp_all add: d_def RAND_MAX_def pos_imp_zdiv_nonneg_iff add_pos_nonneg add_nonneg_pos)
  have "mx * (RAND_MAX div mx) + RAND_MAX mod mx = RAND_MAX" by (rule mult_div_mod_eq)
  moreover have "RAND_MAX mod mx < mx" using assms(3) by simp
  moreover have "mx * d = mx * (RAND_MAX div mx) + mx" by (simp add: d_def algebra_simps)
  ultimately have "RAND_MAX < mx * d" by linarith
  with assms(2) have "r < mx * d" by simp
  then have t: "r div d < mx" using d(1) by (simp add: int_div_less_iff)
  moreover have "0 \<le> r div d" using assms(1) d(1) by (simp add: pos_imp_zdiv_nonneg_iff)
  ultimately have "as_int (r div d) = Inr (r div d)" using assms(4) by (simp add: as_int_def RAND_MAX_def)
  then have "randSleep r mx = Inr (r div d)"
    using assms d le by (simp add: randSleep_def int_div_def sdiv_pos as_int_def RAND_MAX_def d_def)
  with t \<open>0 \<le> r div d\<close> show ?thesis by blast
qed

text \<open>
  C32. How long the client waits before attempt number \<open>tries\<close>. The growing back-off waits one
  second more than the triangular number of the attempt and overflows \<^verbatim>\<open>int\<close> from attempt 46341 on;
  the random one waits at most \<open>mx\<close> seconds and never one; the value 2 means no waiting at all.
\<close>

theorem backoff_times:
  assumes "0 < tries" "tries < 2147483647" "0 \<le> r" "r \<le> RAND_MAX" "1 < mx" "mx \<le> RAND_MAX"
  shows "retryBackoff 0 r tries mx =
      (if tries \<le> 46340 then Inr (Some (tries * (tries + 1) div 2 + 1)) else Inl IntOverflow) \<and>
    (retryBackoff 1 r tries mx = Inr None \<or> (\<exists>n. retryBackoff 1 r tries mx = Inr (Some n) \<and> 2 \<le> n \<and> n \<le> mx)) \<and>
    retryBackoff 2 r tries mx = Inr None"
proof (intro conjI)
  have even: "(tries + 1) * tries = tries * (tries + 1)" by simp
  show "retryBackoff 0 r tries mx =
      (if tries \<le> 46340 then Inr (Some (tries * (tries + 1) div 2 + 1)) else Inl IntOverflow)"
  proof (cases "tries \<le> 46340")
    case True
    then have le: "(tries + 1) * tries \<le> 46341 * 46340" using assms(1) by (intro mult_mono) simp_all
    moreover have ge: "2 \<le> (tries + 1) * tries" using assms(1) mult_mono [of 2 "tries + 1" 1 tries] by simp
    ultimately have "1 \<le> (tries + 1) * tries div 2" "(tries + 1) * tries div 2 \<le> 1073720970" by linarith+
    with True le ge assms(1,2) show ?thesis
      by (simp add: retryBackoff_def as_int_def int_div_def sdiv_pos even)
  next
    case False
    then have "46342 * 46341 \<le> (tries + 1) * tries" by (intro mult_mono) simp_all
    with False assms(1,2) show ?thesis by (simp add: retryBackoff_def as_int_def)
  qed
  obtain t where t: "randSleep r mx = Inr t" "0 \<le> t" "t < mx" using rand_bound assms(3-6) by blast
  have "retryBackoff 1 r tries mx =
      cthen (randSleep r mx) (\<lambda>t. if t = 0 then Inr None else cthen (as_int (t + 1)) (\<lambda>t. Inr (Some t)))"
    by (simp add: retryBackoff_def randSleep_def)
  then have "retryBackoff 1 r tries mx = (if t = 0 then Inr None else Inr (Some (t + 1)))"
    using t assms(6) by (simp add: as_int_def RAND_MAX_def)
  with t show "retryBackoff 1 r tries mx = Inr None \<or> (\<exists>n. retryBackoff 1 r tries mx = Inr (Some n) \<and> 2 \<le> n \<and> n \<le> mx)"
    by auto
  show "retryBackoff 2 r tries mx = Inr None" by (simp add: retryBackoff_def)
qed

theorem backoff_times_witness:
  "retryBackoff 0 7 46340 10 = Inr (Some 1073720971) \<and> retryBackoff 0 7 46341 10 = Inl IntOverflow"
  using backoff_times [of 46340 7 10] backoff_times [of 46341 7 10] by (simp add: RAND_MAX_def)

end
