(* ===== verification/Spdycli_Session.thy ===== *)
theory Spdycli_Session
  imports Spdycli_Client
begin

text \<open>
  Connections and sessions of \<^verbatim>\<open>client/spdycli.c\<close>: \<^verbatim>\<open>connect_to\<close>, the handshake, the choice of the first
  request, the event loop, \<^verbatim>\<open>initSpdySession\<close> and the retry loop \<^verbatim>\<open>createSpdyClient\<close>. The results of
  system calls and of the OpenSSL functions are the fields of the record \<open>session_env\<close>. A ledger
  counts what the process has open, so that leaks are visible in the result.
\<close>

unbundle bit_operations_syntax

section \<open>System calls\<close>

text \<open>
  \<^verbatim>\<open>while((rv = call) == -1 && errno == EINTR);\<close> on the results of the calls, each with whether it
  was interrupted. A list without another result is a call that is never answered.
\<close>

fun retry_eintr :: "(int \<times> bool) list \<Rightarrow> int act" where
  "retry_eintr [] = Inl Hangs"
| "retry_eintr ((rv, eintr) # rs) = (if rv = -1 \<and> eintr then retry_eintr rs else Inr rv)"

text \<open>
  An address with the result of \<^verbatim>\<open>socket\<close> and those of \<^verbatim>\<open>connect\<close>; the list of open descriptors is
  passed along. After a failed \<^verbatim>\<open>getaddrinfo\<close> (\<open>None\<close>) the code goes on with the list pointer that
  was never set.
\<close>

type_synonym address = "int \<times> (int \<times> bool) list"

fun connect_loop :: "address list \<Rightarrow> int list \<Rightarrow> (int \<times> int list) act" where
  "connect_loop [] fds = Inr (-1, fds)"
| "connect_loop ((fd, results) # rps) fds =
     (if fd = -1 then connect_loop rps fds
      else athen (retry_eintr results) (\<lambda>rv.
        if rv = 0 then Inr (fd, fd # fds) else connect_loop rps (remove1 fd (fd # fds))))"

definition connect_to :: "address list option \<Rightarrow> int list \<Rightarrow> (int \<times> int list) act" where
  "connect_to res fds = (case res of None \<Rightarrow> Inl (Fault WildPointer) | Some rps \<Rightarrow> connect_loop rps fds)"

definition O_NONBLOCK :: int where
  "O_NONBLOCK = 2048"

text \<open>The argument of \<^verbatim>\<open>F_SETFL\<close>; a failed \<^verbatim>\<open>F_GETFL\<close> is only reported.\<close>

definition make_non_block :: "(int \<times> bool) list \<Rightarrow> (int \<times> bool) list \<Rightarrow> int act" where
  "make_non_block getfl setfl =
     athen (retry_eintr getfl) (\<lambda>flags. athen (retry_eintr setfl) (\<lambda>rv. Inr (flags OR O_NONBLOCK)))"

definition ssl_handshake :: "int \<Rightarrow> int \<Rightarrow> int" where
  "ssl_handshake set_fd ssl_connect = (if set_fd = 0 then -1 else ssl_connect)"

section \<open>The event loop\<close>

text \<open>The events \<^verbatim>\<open>POLLIN\<close> and \<^verbatim>\<open>POLLOUT\<close> to wait for.\<close>

definition ctl_poll :: "'s spdylay \<Rightarrow> 's client \<Rightarrow> bool \<times> bool" where
  "ctl_poll lib c =
     (sl_want_read lib (sess c) \<or> want_io c = WANT_READ, sl_want_write lib (sess c) \<or> want_io c = WANT_WRITE)"

type_synonym 's io_fun = "'s client \<Rightarrow> (int \<times> 's client) act"

definition exec_io :: "'s io_fun \<Rightarrow> 's io_fun \<Rightarrow> 's io_fun" where
  "exec_io session_recv session_send c =
     athen (session_recv c) (\<lambda>(rv, c). if rv \<noteq> 0 then Inr (rv, c) else session_send c)"

datatype loop_end = Idle | Died int | Waiting

text \<open>
  One function per call of \<^verbatim>\<open>poll\<close>, from the requested events to the return value and whether
  \<^verbatim>\<open>revents\<close> has \<^verbatim>\<open>POLLIN\<close> or \<^verbatim>\<open>POLLOUT\<close>. A failed call leaves \<^verbatim>\<open>revents\<close> (\<open>revs\<close>) as it was; the other
  bits are only reported. \<open>Waiting\<close> is the state in which \<^verbatim>\<open>poll\<close> has no further result.
\<close>

fun event_loop :: "'s spdylay \<Rightarrow> 's io_fun \<Rightarrow> 's io_fun \<Rightarrow> (bool \<times> bool \<Rightarrow> int \<times> bool) list \<Rightarrow> bool \<Rightarrow> bool \<times> bool
    \<Rightarrow> 's client \<Rightarrow> (loop_end \<times> 's client) act" where
  "event_loop lib rcv snt [] revs ev c =
     (if sl_want_read lib (sess c) \<or> sl_want_write lib (sess c) then Inr (Waiting, c) else Inr (Idle, c))"
| "event_loop lib rcv snt (poll # polls) revs ev c =
     (if sl_want_read lib (sess c) \<or> sl_want_write lib (sess c) then
        let (nfds, revents) = poll ev;
            revs = (if nfds = -1 then revs else revents)
        in athen (if revs then exec_io rcv snt c else Inr (0, c)) (\<lambda>(rv, c).
             if rv \<noteq> 0 then Inr (Died rv, c)
             else athen (if nfds = 0 then submitPingOrRefresh lib c else Inr c) (\<lambda>c.
               event_loop lib rcv snt polls revs (ctl_poll lib c) c))
      else Inr (Idle, c))"

section \<open>Sessions\<close>

text \<open>Which request a session starts with.\<close>

definition first_request :: "options \<Rightarrow> nat \<Rightarrow> string \<Rightarrow> ThreadUri \<Rightarrow> (ThreadUri \<times> submission) cres" where
  "first_request opt slack ver t =
     cthen (strlen (clientId t)) (\<lambda>n.
       if n \<noteq> 0 then
         cthen (strlen (pushId t)) (\<lambda>m.
           if m \<noteq> 0 then
             cthen (submit_request_listenV2 (unauthorizedlisten opt) ver (req t) (clientId t) (pushId t)) (\<lambda>sub. Inr (t, sub))
           else cthen (submit_request_refresh ver (req t) (clientId t) (pushId t)) (\<lambda>sub. Inr (t, sub)))
       else if find_sub ''register'' (req_path (req t)) \<noteq> None then
         cthen (submit_request_registrateV2 slack ver (req t)) (\<lambda>sub. Inr (t\<lparr>clientId := replicate 256 NUL\<rparr>, sub))
       else if find_sub ''puid'' (req_path (req t)) \<noteq> None then
         cthen (submit_request_listenV2 (unauthorizedlisten opt) ver (req t) (clientId t) (pushId t)) (\<lambda>sub. Inr (t, sub))
       else cthen (submit_request ver (req t)) (\<lambda>sub. Inr (t, sub)))"

record ledger =
  open_fds :: "int list"
  n_ctx :: nat
  n_ssl :: nat
  n_req :: nat

text \<open>The thread's data, what it has open, and the global \<^verbatim>\<open>stream_id\<close>.\<close>

record proc =
  p_th :: ThreadUri
  p_led :: ledger
  p_stream :: int

text \<open>
  What the surroundings of a session do: the addresses of a host and port, whether the two OpenSSL
  objects could be made, \<^verbatim>\<open>SSL_set_fd\<close> and \<^verbatim>\<open>SSL_connect\<close>, the result of the protocol selection
  (\<open>None\<close> when the server does not offer one, then the version is the uninitialised
  \<open>e_version0\<close>), the flag calls, \<^verbatim>\<open>spdylay_session_client_new\<close>, the library's receive and send
  functions, the results of \<^verbatim>\<open>poll\<close> and the initial \<^verbatim>\<open>revents\<close>.
\<close>

record 's session_env =
  e_addrs :: "string \<Rightarrow> nat \<Rightarrow> address list option"
  e_ctx :: bool
  e_ssl :: bool
  e_set_fd :: "int \<Rightarrow> int"
  e_connect :: int
  e_npn :: "int option"
  e_version0 :: "16 word"
  e_getfl :: "(int \<times> bool) list"
  e_setfl :: "(int \<times> bool) list"
  e_client_new :: "16 word \<Rightarrow> int \<times> 's"
  e_recv :: "'s io_fun"
  e_send :: "'s io_fun"
  e_polls :: "(bool \<times> bool \<Rightarrow> int \<times> bool) list"
  e_revents :: bool

datatype session_end = Handshake_failed | Ended loop_end

text \<open>
  \<open>murl\<close> is the text the pointers of the URI refer to. OpenSSL dereferences the two objects, so a
  null pointer is a fault; the session pointer is never set when the library cannot make a session.
\<close>

definition initSpdySession ::
  "options \<Rightarrow> nat \<Rightarrow> string \<Rightarrow> 's spdylay \<Rightarrow> string \<Rightarrow> 's session_env \<Rightarrow> proc \<Rightarrow> (session_end \<times> proc) act" where
  "initSpdySession opt slack ver lib murl env p =
     athen (lift_fault (request_init murl (uri (p_th p)))) (\<lambda>r.
     athen (connect_to (e_addrs env (req_host r) (req_port r)) (open_fds (p_led p))) (\<lambda>(fd, fds).
       if \<not> e_ctx env \<or> \<not> e_ssl env then Inl (Fault NullDeref)
       else
         let t = (p_th p)\<lparr>req := r\<rparr>;
             led = (p_led p)\<lparr>open_fds := fds, n_ctx := n_ctx (p_led p) + 1, n_ssl := n_ssl (p_led p) + 1,
                             n_req := n_req (p_led p) + 1\<rparr>
         in if ssl_handshake (e_set_fd env fd) (e_connect env) < 0
            then Inr (Handshake_failed, p\<lparr>p_th := t, p_led := led\<rparr>)
            else
              athen (make_non_block (e_getfl env) (e_setfl env)) (\<lambda>_.
              let version = (case e_npn env of None \<Rightarrow> e_version0 env | Some rv \<Rightarrow> select_next_proto_cb rv);
                  (rv, s) = e_client_new env version
              in if rv \<noteq> 0 then Inl (Fault WildPointer)
                 else
                   athen (lift_fault (first_request opt slack ver t)) (\<lambda>(t, sub).
                   let c = submit lib sub \<lparr>th = t, sess = s, want_io = IO_NONE, cur_stream_id = p_stream p\<rparr> in
                   athen (event_loop lib (e_recv env) (e_send env) (e_polls env) (e_revents env) (ctl_poll lib c) c)
                     (\<lambda>(e, c).
                        let p = p\<lparr>p_th := th c, p_stream := cur_stream_id c\<rparr> in
                        if e = Waiting then Inr (Ended e, p\<lparr>p_led := led\<rparr>)
                        else Inr (Ended e, p\<lparr>p_led := led\<lparr>open_fds := remove1 fd fds, n_ctx := n_ctx led - 1,
                               n_ssl := n_ssl led - 1, n_req := n_req led - 1\<rparr>\<rparr>))))))"

section \<open>The client thread\<close>

datatype client_end = Alive | Quit

text \<open>
  The endless loop of \<^verbatim>\<open>createSpdyClient\<close>, on one environment and one random number per session. The
  result has what \<^verbatim>\<open>retryBackoff\<close> slept after each session; \<open>Alive\<close> means the loop is still running
  when the list ends.
\<close>

fun createSpdyClient ::
  "options \<Rightarrow> nat \<Rightarrow> string \<Rightarrow> 's spdylay \<Rightarrow> string \<Rightarrow> ('s session_env \<times> int) list \<Rightarrow> proc
    \<Rightarrow> (client_end \<times> proc \<times> int option list) act" where
  "createSpdyClient opt slack ver lib murl [] p = Inr (Alive, p, [])"
| "createSpdyClient opt slack ver lib murl ((env, r) # es) p =
     athen (initSpdySession opt slack ver lib murl env p) (\<lambda>(e, p).
       if e = Ended Waiting then Inr (Alive, p, [])
       else
         athen (lift_fault (as_int (retries (p_th p) + 1))) (\<lambda>n.
           let p = p\<lparr>p_th := (p_th p)\<lparr>retries := n\<rparr>\<rparr> in
           if 0 \<le> backoff opt then
             athen (lift_fault (retryBackoff (backoff opt) r n 10)) (\<lambda>slept.
             athen (createSpdyClient opt slack ver lib murl es p) (\<lambda>(e, p, ss). Inr (e, p, slept # ss)))
           else Inr (Quit, p, [])))"

section \<open>Descriptors\<close>

lemma connect_loop_fds:
  "connect_loop rps fds = Inr (fd, fds') \<Longrightarrow>
    fd = -1 \<and> fds' = fds \<or> fd \<noteq> -1 \<and> fds' = fd # fds \<and> (\<exists>rs. (fd, rs) \<in> set rps \<and> retry_eintr rs = Inr 0)"
proof (induction rps fds rule: connect_loop.induct)
  case (2 fd0 results rps fds)
  show ?case
  proof (cases "fd0 = -1")
    case True
    with 2 show ?thesis by auto
  next
    case False
    with 2(3) obtain rv where rv: "retry_eintr results = Inr rv"
      "(if rv = 0 then Inr (fd0, fd0 # fds) else connect_loop rps (remove1 fd0 (fd0 # fds))) = Inr (fd, fds')"
      by (auto simp: athen_eq_Inr)
    show ?thesis
    proof (cases "rv = 0")
      case True
      with rv False show ?thesis by auto
    next
      case rv0: False
      with rv(2) have "connect_loop rps (remove1 fd0 (fd0 # fds)) = Inr (fd, fds')" by simp
      from 2(2) [OF False rv0 this] show ?thesis by auto
    qed
  qed
qed simp

lemma connect_fds:
  "connect_to res fds = Inr (fd, fds') \<Longrightarrow> fd = -1 \<and> fds' = fds \<or> fd \<noteq> -1 \<and> fds' = fd # fds"
  using connect_loop_fds [of _ fds fd fds'] by (auto simp: connect_to_def split: option.splits)

text \<open>
  C33. Connecting leaks no descriptor: when \<^verbatim>\<open>connect_to\<close> returns, either it failed with -1 and every
  socket it made is closed, or exactly the returned socket is open in addition, and it belongs to
  an address that accepted the connection.
\<close>

theorem connect_to_descriptors:
  assumes "connect_to res fds = Inr (fd, fds')"
  shows "fd = -1 \<and> fds' = fds \<or>
    fd \<noteq> -1 \<and> fds' = fd # fds \<and> (\<exists>rps rs. res = Some rps \<and> (fd, rs) \<in> set rps \<and> retry_eintr rs = Inr 0)"
  using assms connect_loop_fds [of _ fds fd fds'] by (auto simp: connect_to_def split: option.splits)

theorem connect_to_descriptors_witness:
  "connect_to (Some [(-1, []), (5, [(-1, True), (-1, False)]), (5, [(-1, True), (0, False)])]) [3] = Inr (5, [5, 3]) \<and>
   (5::int) \<noteq> -1"
  using connect_to_descriptors [of "Some [(-1, []), (5, [(-1, True), (-1, False)]), (5, [(-1, True), (0, False)])]" "[3]" 5 "[5, 3]"]
  by (simp add: connect_to_def)

lemma retry_eintr_returns: "rv \<noteq> -1 \<or> \<not> eintr \<Longrightarrow> retry_eintr (replicate n (-1, True) @ (rv, eintr) # rest) = Inr rv"
  by (induction n) auto



section \<open>Resources of a session\<close>

lemma session_Inr:
  assumes "initSpdySession opt slack ver lib murl env p = Inr (e, q)"
  obtains r fd fds where
    "request_init murl (uri (p_th p)) = Inr r"
    "connect_to (e_addrs env (req_host r) (req_port r)) (open_fds (p_led p)) = Inr (fd, fds)"
    "e = Handshake_failed" "ssl_handshake (e_set_fd env fd) (e_connect env) < 0"
    "q = p\<lparr>p_th := (p_th p)\<lparr>req := r\<rparr>, p_led := (p_led p)\<lparr>open_fds := fds, n_ctx := n_ctx (p_led p) + 1,
       n_ssl := n_ssl (p_led p) + 1, n_req := n_req (p_led p) + 1\<rparr>\<rparr>"
  | r fd fds s t sub c c' le where
    "request_init murl (uri (p_th p)) = Inr r"
    "connect_to (e_addrs env (req_host r) (req_port r)) (open_fds (p_led p)) = Inr (fd, fds)"
    "0 \<le> ssl_handshake (e_set_fd env fd) (e_connect env)"
    "first_request opt slack ver ((p_th p)\<lparr>req := r\<rparr>) = Inr (t, sub)"
    "c = submit lib sub \<lparr>th = t, sess = s, want_io = IO_NONE, cur_stream_id = p_stream p\<rparr>"
    "event_loop lib (e_recv env) (e_send env) (e_polls env) (e_revents env) (ctl_poll lib c) c = Inr (le, c')"
    "e = Ended le" "p_th q = th c'"
    "p_led q = (if le = Waiting then (p_led p)\<lparr>open_fds := fds, n_ctx := n_ctx (p_led p) + 1,
         n_ssl := n_ssl (p_led p) + 1, n_req := n_req (p_led p) + 1\<rparr>
       else (p_led p)\<lparr>open_fds := remove1 fd fds\<rparr>)"
proof -
  from assms obtain r fd fds where r: "request_init murl (uri (p_th p)) = Inr r"
    and fd: "connect_to (e_addrs env (req_host r) (req_port r)) (open_fds (p_led p)) = Inr (fd, fds)"
    and ok: "e_ctx env" "e_ssl env"
    unfolding initSpdySession_def by (auto simp: athen_eq_Inr lift_eq_Inr split: if_splits)
  note start = assms [unfolded initSpdySession_def, simplified r fd act_simps prod.case ok not_True_eq_False simp_thms if_False Let_def]
  show thesis
  proof (cases "ssl_handshake (e_set_fd env fd) (e_connect env) < 0")
    case True
    then show thesis using start by (intro that(1) [OF r fd]) auto
  next
    case False
    obtain rv s where new: "e_client_new env (case e_npn env of None \<Rightarrow> e_version0 env | Some rv \<Rightarrow> select_next_proto_cb rv) = (rv, s)"
      by fastforce
    from start False obtain t sub where fr: "first_request opt slack ver ((p_th p)\<lparr>req := r\<rparr>) = Inr (t, sub)"
      by (auto simp: athen_eq_Inr lift_eq_Inr new split: if_splits)
    define c where "c = submit lib sub \<lparr>th = t, sess = s, want_io = IO_NONE, cur_stream_id = p_stream p\<rparr>"
    from start False obtain le c' where
      l: "event_loop lib (e_recv env) (e_send env) (e_polls env) (e_revents env) (ctl_poll lib c) c = Inr (le, c')"
      by (auto simp: athen_eq_Inr lift_eq_Inr new fr c_def [symmetric] split: if_splits)
    from start False have "e = Ended le" "p_th q = th c'"
      "p_led q = (if le = Waiting then (p_led p)\<lparr>open_fds := fds, n_ctx := n_ctx (p_led p) + 1,
         n_ssl := n_ssl (p_led p) + 1, n_req := n_req (p_led p) + 1\<rparr>
       else (p_led p)\<lparr>open_fds := remove1 fd fds\<rparr>)"
      by (auto simp: athen_eq_Inr lift_eq_Inr new fr c_def [symmetric] l split: if_splits)
    with False l show thesis by (intro that(2) [OF r fd _ fr c_def l]) auto
  qed
qed


text \<open>The sample client's URI, and surroundings in which every handshake fails after a connection.\<close>

definition sample_url :: string where
  "sample_url = ''https://h/client/v2/register''"

definition sample_proc :: "string \<Rightarrow> proc" where
  "sample_proc cid = \<lparr>p_th = (th (sample_client cid (-1)))\<lparr>uri := snd (parse_uri sample_url)\<rparr>,
     p_led = \<lparr>open_fds = [], n_ctx = 0, n_ssl = 0, n_req = 0\<rparr>, p_stream = 0\<rparr>"

definition refusing_env :: "submission list session_env" where
  "refusing_env = \<lparr>e_addrs = (\<lambda>h p. Some [(5, [(0, False)])]), e_ctx = True, e_ssl = True, e_set_fd = (\<lambda>_. 1),
     e_connect = -1, e_npn = None, e_version0 = 0, e_getfl = [(0, False)], e_setfl = [(0, False)],
     e_client_new = (\<lambda>_. (0, [])), e_recv = (\<lambda>c. Inr (0, c)), e_send = (\<lambda>c. Inr (0, c)), e_polls = [], e_revents = False\<rparr>"

lemma sample_uri:
  "request_init sample_url (snd (parse_uri sample_url)) =
    Inr \<lparr>req_host = ''h'', req_port = 443, req_path = ''/client/v2/register'', req_hostport = ''h'', stream_id = -1, inflater = False\<rparr>"
proof -
  have h: "ref_host (drop 8 sample_url) = Some (''h'', ''/client/v2/register'')"
    using ref_host_plain [of "''h''" "''/client/v2/register''"] by (simp add: sample_url_def host_delim_def)
  have p: "ref_port ''/client/v2/register'' = Some (443, ''/client/v2/register'')"
    using ref_port_text [of "''/client/v2/register''" "[]" None] by (simp add: tail_ok_def port_text_def port_of_def)
  from parse_uri_accepts [OF _ _ h p] obtain u where "parse_uri sample_url = (0, u)" "request_init sample_url u =
    Inr \<lparr>req_host = ''h'', req_port = 443, req_path = ref_path ''/client/v2/register'', req_hostport = ''h'', stream_id = -1, inflater = False\<rparr>"
    by (auto simp: sample_url_def)
  then show ?thesis using ref_path_text [of "''/client/v2/register''" "[]"] by (simp add: tail_ok_def)
qed

lemma sample_proc_uri: "uri (p_th (sample_proc cid)) = snd (parse_uri sample_url)"
  by (simp add: sample_proc_def)

section \<open>Invariants of the thread over sessions\<close>

text \<open>The contract of the library's receive and send functions: they act through the callbacks.\<close>

definition by_callbacks :: "options \<Rightarrow> string \<Rightarrow> 's spdylay \<Rightarrow> 's io_fun \<Rightarrow> bool" where
  "by_callbacks opt ver lib f \<longleftrightarrow> (\<forall>c rv c'. f c = Inr (rv, c') \<longrightarrow> (callback_step opt ver lib)\<^sup>*\<^sup>* c c')"

definition env_ok :: "options \<Rightarrow> string \<Rightarrow> 's spdylay \<Rightarrow> 's session_env \<Rightarrow> bool" where
  "env_ok opt ver lib env \<longleftrightarrow> by_callbacks opt ver lib (e_recv env) \<and> by_callbacks opt ver lib (e_send env)"

lemma event_loop_turn:
  assumes "sl_want_read lib (sess c) \<or> sl_want_write lib (sess c)" "poll ev = (nfds, revents)"
    "revs' = (if nfds = -1 then revs else revents)"
  shows "event_loop lib rcv snt (poll # polls) revs ev c =
    athen (if revs' then exec_io rcv snt c else Inr (0, c)) (\<lambda>(rv, c).
      if rv \<noteq> 0 then Inr (Died rv, c)
      else athen (if nfds = 0 then submitPingOrRefresh lib c else Inr c)
        (\<lambda>c. event_loop lib rcv snt polls revs' (ctl_poll lib c) c))"
  unfolding assms(3) event_loop.simps(2) assms(2) Let_def prod.case if_P [OF assms(1)] by (rule refl)

locale session_invariant = thread_invariant +
  assumes ping: "Inv t \<Longrightarrow> Inv (t\<lparr>pingFrames := n\<rparr>)"
    and retry: "Inv t \<Longrightarrow> Inv (t\<lparr>retries := n\<rparr>)"
    and fresh: "Inv t \<Longrightarrow> Inv (t\<lparr>req := r\<rparr>)"
    and cleared: "\<lbrakk>Inv t; strlen (clientId t) = Inr 0\<rbrakk> \<Longrightarrow> Inv (t\<lparr>clientId := replicate 256 NUL\<rparr>)"
begin

lemma io_keeps: "\<lbrakk>by_callbacks opt ver lib f; f c = Inr (rv, c'); Inv (th c)\<rbrakk> \<Longrightarrow> Inv (th c')"
  unfolding by_callbacks_def by (blast intro: steps_keep)

lemma exec_io_keeps:
  assumes "by_callbacks opt ver lib rcv" "by_callbacks opt ver lib snt" "exec_io rcv snt c = Inr (rv, c')" "Inv (th c)"
  shows "Inv (th c')"
proof -
  obtain rv1 c1 where c1: "rcv c = Inr (rv1, c1)" "(if rv1 \<noteq> 0 then Inr (rv1, c1) else snt c1) = Inr (rv, c')"
    using assms(3) by (auto simp: exec_io_def athen_eq_Inr)
  have "Inv (th c1)" by (rule io_keeps [OF assms(1) c1(1) assms(4)])
  with c1(2) io_keeps [OF assms(2), of c1 rv c'] show ?thesis by (auto split: if_splits)
qed

lemma ping_keeps: "\<lbrakk>submitPingOrRefresh lib c = Inr c'; Inv (th c)\<rbrakk> \<Longrightarrow> Inv (th c')"
  by (auto simp: submitPingOrRefresh_def athen_eq_Inr lift_eq_Inr intro: ping)

lemma loop_keeps:
  assumes "by_callbacks opt ver lib rcv" "by_callbacks opt ver lib snt"
  shows "\<lbrakk>event_loop lib rcv snt polls revs ev c = Inr (e, c'); Inv (th c)\<rbrakk> \<Longrightarrow> Inv (th c')"
proof (induction polls arbitrary: revs ev c)
  case Nil
  then show ?case by (auto split: if_splits)
next
  case (Cons poll polls)
  obtain nfds revents where poll: "poll ev = (nfds, revents)" by fastforce
  define revs' where "revs' = (if nfds = -1 then revs else revents)"
  show ?case
  proof (cases "sl_want_read lib (sess c) \<or> sl_want_write lib (sess c)")
    case True
    with Cons.prems(1) obtain rv c1 where c1: "(if revs' then exec_io rcv snt c else Inr (0, c)) = Inr (rv, c1)"
      and rest: "(if rv \<noteq> 0 then Inr (Died rv, c1)
        else athen (if nfds = 0 then submitPingOrRefresh lib c1 else Inr c1)
          (\<lambda>c. event_loop lib rcv snt polls revs' (ctl_poll lib c) c)) = Inr (e, c')"
      unfolding event_loop_turn [of lib c poll ev, OF True poll revs'_def] by (auto simp: athen_eq_Inr)
    have I1: "Inv (th c1)" using c1 Cons.prems(2) exec_io_keeps [OF assms] by (auto split: if_splits)
    show ?thesis
    proof (cases "rv = 0")
      case rv: True
      with rest obtain c2 where c2: "(if nfds = 0 then submitPingOrRefresh lib c1 else Inr c1) = Inr c2"
        "event_loop lib rcv snt polls revs' (ctl_poll lib c2) c2 = Inr (e, c')" by (auto simp: athen_eq_Inr)
      with I1 ping_keeps [of lib c1 c2] have "Inv (th c2)" by (auto split: if_splits)
      with Cons.IH [OF c2(2)] show ?thesis .
    next
      case False
      with rest I1 show ?thesis by simp
    qed
  next
    case False
    with Cons.prems show ?thesis by simp
  qed
qed

lemma first_keeps: "\<lbrakk>first_request opt slack ver t = Inr (t', sub); Inv t\<rbrakk> \<Longrightarrow> Inv t'"
  by (auto simp: first_request_def cthen_eq_Inr split: if_splits intro: cleared)

lemma session_keeps:
  assumes "initSpdySession opt slack ver lib murl env p = Inr (e, q)" "env_ok opt ver lib env" "Inv (p_th p)"
  shows "Inv (p_th q)"
  using assms(1)
proof (rule session_Inr)
  fix r fd fds s t sub c c' le
  assume t: "first_request opt slack ver ((p_th p)\<lparr>req := r\<rparr>) = Inr (t, sub)"
    and c: "c = submit lib sub \<lparr>th = t, sess = s, want_io = IO_NONE, cur_stream_id = p_stream p\<rparr>"
    and l: "event_loop lib (e_recv env) (e_send env) (e_polls env) (e_revents env) (ctl_poll lib c) c = Inr (le, c')"
    and q: "p_th q = th c'"
  have "Inv (th c)" using first_keeps [OF t fresh [OF assms(3)]] by (simp add: c)
  moreover have "by_callbacks opt ver lib (e_recv env)" "by_callbacks opt ver lib (e_send env)"
    using assms(2) by (simp_all add: env_ok_def)
  ultimately show ?thesis using loop_keeps l q by metis
qed (simp add: fresh [OF assms(3)])

lemma client_keeps:
  "\<lbrakk>createSpdyClient opt slack ver lib murl es p = Inr (e, q, ss); \<forall>(env, r) \<in> set es. env_ok opt ver lib env; Inv (p_th p)\<rbrakk>
    \<Longrightarrow> Inv (p_th q)"
proof (induction es arbitrary: p ss)
  case (Cons er es)
  obtain env r where er: "er = (env, r)" by (cases er)
  from Cons.prems(1) obtain e1 p1 where s: "initSpdySession opt slack ver lib murl env p = Inr (e1, p1)"
    by (auto simp: er athen_eq_Inr)
  have I1: "Inv (p_th p1)" using session_keeps [OF s] Cons.prems(2,3) by (simp add: er)
  show ?case
  proof (cases "e1 = Ended Waiting")
    case True
    with Cons.prems(1) s I1 show ?thesis by (simp add: er)
  next
    case False
    with Cons.prems(1) s obtain n where n: "(if 0 \<le> backoff opt then
             athen (lift_fault (retryBackoff (backoff opt) r n 10)) (\<lambda>slept.
             athen (createSpdyClient opt slack ver lib murl es (p1\<lparr>p_th := (p_th p1)\<lparr>retries := n\<rparr>\<rparr>)) (\<lambda>(e, p, ss). Inr (e, p, slept # ss)))
           else Inr (Quit, p1\<lparr>p_th := (p_th p1)\<lparr>retries := n\<rparr>\<rparr>, [])) = Inr (e, q, ss)"
      by (auto simp: er athen_eq_Inr lift_eq_Inr Let_def)
    have I2: "Inv (p_th (p1\<lparr>p_th := (p_th p1)\<lparr>retries := n\<rparr>\<rparr>))" using retry [OF I1] by simp
    show ?thesis
    proof (cases "0 \<le> backoff opt")
      case True
      with n obtain ss' where "createSpdyClient opt slack ver lib murl es (p1\<lparr>p_th := (p_th p1)\<lparr>retries := n\<rparr>\<rparr>) = Inr (e, q, ss')"
        by (auto simp: athen_eq_Inr)
      from Cons.IH [OF this] Cons.prems(2) I2 show ?thesis by simp
    next
      case False
      with n I2 show ?thesis by auto
    qed
  qed
qed simp

end

interpretation oks: session_invariant opt thread_ok for opt
  by unfold_locales (auto simp: thread_ok_def)

interpretation regs: session_invariant opt "registered opt cid pid" for opt cid pid
  by unfold_locales (auto simp: registered_def strlen_Inr)

section \<open>Properties of sessions\<close>

lemma sample_refused:
  "initSpdySession opt slack ver lib sample_url refusing_env (sample_proc cid) = Inr (Handshake_failed, q) \<longleftrightarrow>
    q = (sample_proc cid)\<lparr>p_th := (p_th (sample_proc cid))\<lparr>req := \<lparr>req_host = ''h'', req_port = 443,
        req_path = ''/client/v2/register'', req_hostport = ''h'', stream_id = -1, inflater = False\<rparr>\<rparr>,
      p_led := \<lparr>open_fds = [5], n_ctx = 1, n_ssl = 1, n_req = 1\<rparr>\<rparr>"
  by (auto simp: initSpdySession_def sample_uri refusing_env_def connect_to_def ssl_handshake_def sample_proc_def Let_def)


text \<open>
  C9. Over all sessions and reconnections of a client thread, whatever the network does and with a
  library that acts through the callbacks, the arrays of the thread stay well-formed.
\<close>

theorem client_keeps_thread:
  assumes "createSpdyClient opt slack ver lib murl es p = Inr (e, q, ss)"
    and "\<forall>(env, r) \<in> set es. env_ok opt ver lib env" "thread_ok (p_th p)"
  shows "thread_ok (p_th q)"
  using assms by (rule oks.client_keeps)

lemma refusing_env_ok: "env_ok opt ver lib refusing_env"
  by (auto simp: env_ok_def by_callbacks_def refusing_env_def)

lemma sample_proc_ok: "length cid < 256 \<Longrightarrow> thread_ok (p_th (sample_proc cid))"
  using sample_client_ok [of cid "-1"] by (simp add: sample_proc_def thread_ok_def)

lemma refused_client:
  "\<exists>q. createSpdyClient full_options 0 ''1'' sample_lib sample_url [(refusing_env, 0)] (sample_proc cid) = Inr (Quit, q, [])"
proof -
  obtain q where "initSpdySession full_options 0 ''1'' sample_lib sample_url refusing_env (sample_proc cid) = Inr (Handshake_failed, q)"
      "retries (p_th q) = 0"
    using sample_refused by (fastforce simp: sample_proc_def sample_client_def)
  then show ?thesis by (simp add: as_int_def full_options_def Let_def)
qed

theorem client_keeps_thread_witness:
  "\<exists>q. createSpdyClient full_options 0 ''1'' sample_lib sample_url [(refusing_env, 0)] (sample_proc []) = Inr (Quit, q, []) \<and>
    thread_ok (p_th q)"
  using refused_client [of "[]"] client_keeps_thread [of full_options 0 "''1''" sample_lib sample_url "[(refusing_env, 0)]" "sample_proc []"]
    refusing_env_ok sample_proc_ok [of "[]"] by fastforce

lemma first_listens:
  assumes "thread_ok t" "cstring (clientId t) \<noteq> []" "cstring (pushId t) \<noteq> []"
  shows "first_request opt slack ver t =
    cthen (submit_request_listenV2 (unauthorizedlisten opt) ver (req t) (clientId t) (pushId t)) (\<lambda>sub. Inr (t, sub))"
  using assms by (simp add: first_request_def strlen_def thread_ok_def)

text \<open>
  C8. A client in full mode that has registered stays the same client: reconnecting, with any
  number of sessions that fail or end, never changes its identifiers, and every further session
  would start with the listen request for them.
\<close>

theorem reconnecting_keeps_listening:
  assumes "createSpdyClient opt slack ver lib murl es p = Inr (e, q, ss)"
    and "\<forall>(env, r) \<in> set es. env_ok opt ver lib env" "thread_ok (p_th p)" "fullmode opt"
    and "cstring (clientId (p_th p)) \<noteq> []" "cstring (pushId (p_th p)) \<noteq> []"
  shows "clientId (p_th q) = clientId (p_th p) \<and> pushId (p_th q) = pushId (p_th p) \<and>
    first_request opt slack ver (p_th q) =
      cthen (submit_request_listenV2 (unauthorizedlisten opt) ver (req (p_th q)) (clientId (p_th p)) (pushId (p_th p)))
        (\<lambda>sub. Inr (p_th q, sub))"
proof -
  have "registered opt (clientId (p_th p)) (pushId (p_th p)) (p_th p)" using assms(4,5) by (simp add: registered_def)
  with regs.client_keeps [OF assms(1,2)] have "registered opt (clientId (p_th p)) (pushId (p_th p)) (p_th q)" by blast
  then have ids: "clientId (p_th q) = clientId (p_th p)" "pushId (p_th q) = pushId (p_th p)" by (auto simp: registered_def)
  have "thread_ok (p_th q)" by (rule oks.client_keeps [OF assms(1-3)])
  with first_listens [of "p_th q" opt slack ver] assms(5,6) ids show ?thesis by simp
qed

definition listening_proc :: proc where
  "listening_proc = (sample_proc ''c'')\<lparr>p_th := (p_th (sample_proc ''c''))\<lparr>pushId := CHR ''p'' # replicate 255 NUL\<rparr>\<rparr>"

lemma listening_refused:
  "\<exists>q. createSpdyClient full_options 0 ''1'' sample_lib sample_url [(refusing_env, 0)] listening_proc = Inr (Quit, q, [])"
proof -
  obtain q where "initSpdySession full_options 0 ''1'' sample_lib sample_url refusing_env listening_proc = Inr (Handshake_failed, q)"
      "retries (p_th q) = 0"
    by (simp add: initSpdySession_def sample_uri refusing_env_def connect_to_def ssl_handshake_def Let_def
      listening_proc_def sample_proc_def sample_client_def)
  then show ?thesis by (simp add: as_int_def full_options_def Let_def)
qed

theorem reconnecting_keeps_listening_witness:
  "\<exists>q. createSpdyClient full_options 0 ''1'' sample_lib sample_url [(refusing_env, 0)] listening_proc = Inr (Quit, q, []) \<and>
    clientId (p_th q) = clientId (p_th listening_proc)"
proof -
  obtain q where q: "createSpdyClient full_options 0 ''1'' sample_lib sample_url [(refusing_env, 0)] listening_proc = Inr (Quit, q, [])"
    using listening_refused by blast
  have "thread_ok (p_th listening_proc)"
    using sample_proc_ok [of "''c''"] by (auto simp: listening_proc_def thread_ok_def terminated_def)
  moreover have "cstring (clientId (p_th listening_proc)) \<noteq> []" "cstring (pushId (p_th listening_proc)) \<noteq> []"
    by (simp_all add: listening_proc_def sample_proc_def sample_client_def cstring_def)
  ultimately show ?thesis
    using reconnecting_keeps_listening [OF q] refusing_env_ok q by (auto simp: full_options_def)
qed





end
