(* ===== verification/Spdycli_Main.thy ===== *)
theory Spdycli_Main
  imports Spdycli_Session
begin

text \<open>
  \<^verbatim>\<open>main\<close> of \<^verbatim>\<open>client/spdycli.c\<close>: the command line, the URL, and the data each client thread is started
  with. The loop over \<^verbatim>\<open>getopt\<close> runs over the list of options it delivers, each with its argument.
\<close>

section \<open>The command line\<close>

text \<open>\<^verbatim>\<open>atoi\<close>: blanks, a sign, digits; a value outside \<^verbatim>\<open>int\<close> is undefined.\<close>

definition is_space :: "byte \<Rightarrow> bool" where
  "is_space c \<longleftrightarrow> code c = 32 \<or> 9 \<le> code c \<and> code c \<le> 13"

definition atoi :: "string \<Rightarrow> int cres" where
  "atoi s =
     (let s = dropWhile is_space s;
          neg = (s \<noteq> [] \<and> hd s = CHR ''-'');
          ds = (if s \<noteq> [] \<and> (hd s = CHR ''-'' \<or> hd s = CHR ''+'') then tl s else s);
          v = int (read_dec 0 (takeWhile is_digit ds))
      in as_int (if neg then - v else v))"

record main_state =
  m_opt :: options
  numclients :: int
  apiurl :: string

definition no_options :: options where
  "no_options = \<lparr>localhost = False, unitmode = False, registermode = False, listenmode = False, fullmode = False,
     refreshmode = False, backoff = -1, sequentialId = False, unauthorizedlisten = False, verbose = False\<rparr>"

definition set_api :: "string \<Rightarrow> main_state \<Rightarrow> main_state act" where
  "set_api s m = athen (lift_fault (sprintf (apiurl m) 0 s)) (\<lambda>a. Inr (m\<lparr>apiurl := a\<rparr>))"

text \<open>The \<^verbatim>\<open>switch\<close> over an option.\<close>

definition main_option :: "char \<Rightarrow> string \<Rightarrow> main_state \<Rightarrow> main_state act" where
  "main_option c optarg m =
     (let opt = m_opt m in
      if c = CHR ''v'' then Inr (m\<lparr>m_opt := opt\<lparr>verbose := True\<rparr>\<rparr>)
      else if c = CHR ''l'' then Inr (m\<lparr>m_opt := opt\<lparr>localhost := True\<rparr>\<rparr>)
      else if c = CHR ''n'' then athen (lift_fault (atoi optarg)) (\<lambda>n. Inr (m\<lparr>numclients := n\<rparr>))
      else if c = CHR ''r'' then set_api ''/client/v2/register'' (m\<lparr>m_opt := opt\<lparr>registermode := True\<rparr>\<rparr>)
      else if c = CHR ''p'' then set_api ''/client/v1/puid-0'' (m\<lparr>m_opt := opt\<lparr>listenmode := True\<rparr>\<rparr>)
      else if c = CHR ''m'' then set_api ''/profile'' m
      else if c = CHR ''f'' then set_api ''/client/v2/register'' (m\<lparr>m_opt := opt\<lparr>fullmode := True\<rparr>\<rparr>)
      else if c = CHR ''s'' then set_api ''/client/v1/refresh'' (m\<lparr>m_opt := opt\<lparr>refreshmode := True\<rparr>\<rparr>)
      else if c = CHR ''u'' then Inr (m\<lparr>m_opt := opt\<lparr>unitmode := True, localhost := True\<rparr>\<rparr>)
      else if c = CHR ''a'' then Inr (m\<lparr>m_opt := opt\<lparr>unauthorizedlisten := True\<rparr>\<rparr>)
      else if c = CHR ''b'' then athen (lift_fault (atoi optarg)) (\<lambda>n. Inr (m\<lparr>m_opt := opt\<lparr>backoff := n\<rparr>\<rparr>))
      else if c = CHR ''i'' then Inr (m\<lparr>m_opt := opt\<lparr>sequentialId := True\<rparr>\<rparr>)
      else Inl Abort)"

fun main_options :: "(char \<times> string) list \<Rightarrow> main_state \<Rightarrow> main_state act" where
  "main_options [] m = Inr m"
| "main_options ((c, optarg) # os) m = athen (main_option c optarg m) (main_options os)"

section \<open>Starting the clients\<close>

definition ele_url :: string where
  "ele_url = ''https://elephant-cte1:9443''"

definition local_url :: string where
  "local_url = ''https://localhost.colorcloud.com:9443''"

text \<open>\<open>url0\<close> is the uninitialised array \<^verbatim>\<open>url\<close>.\<close>

definition main_url :: "options \<Rightarrow> string \<Rightarrow> string \<Rightarrow> string cres" where
  "main_url opt url0 api =
     cthen (strcpy url0 (lit (if localhost opt then local_url else ele_url))) (\<lambda>u. strcat u api)"

text \<open>
  The data of client \<open>i\<close>: zeros, the parsed URL, a copy of the URL, and the identifiers of the listen
  and refresh modes. A failed \<^verbatim>\<open>parse_uri\<close> is only reported. The client id that is used as a format
  has digits and hyphens only.
\<close>

definition start_thread :: "options \<Rightarrow> string \<Rightarrow> int \<Rightarrow> int \<Rightarrow> int \<Rightarrow> int \<Rightarrow> ThreadUri cres" where
  "start_thread opt mainurl i pid sec usec =
     cthen (strcpy (replicate 256 NUL) mainurl) (\<lambda>urlcopy.
     cthen (if listenmode opt then
              sprintf (replicate 256 NUL) 0 (decint i @ ''-'' @ decint pid @ ''-'' @ decint sec @ ''-'' @ decint usec)
            else Inr (replicate 256 NUL)) (\<lambda>cid.
     cthen (if listenmode opt then sprintf (replicate 256 NUL) 0 (cstring cid) else Inr (replicate 256 NUL)) (\<lambda>pid.
     cthen (if refreshmode opt then sprintf cid 0 ''refresh-test-client-1'' else Inr cid) (\<lambda>cid.
       Inr \<lparr>retries = 0, pingFrames = 0,
         req = \<lparr>req_host = [], req_port = 0, req_path = [], req_hostport = [], stream_id = 0, inflater = False\<rparr>,
         assoc_stream_id = 0, uri = snd (parse_uri (cstring mainurl)), url = urlcopy, clientId = cid, pushId = pid,
         pushData = replicate 1024 NUL\<rparr>))))"

text \<open>\<open>clock i\<close> is the time of day when client \<open>i\<close> is started.\<close>

fun start_threads :: "options \<Rightarrow> string \<Rightarrow> int \<Rightarrow> (nat \<Rightarrow> int \<times> int) \<Rightarrow> nat \<Rightarrow> nat \<Rightarrow> ThreadUri list cres" where
  "start_threads opt mainurl pid clock i 0 = Inr []"
| "start_threads opt mainurl pid clock i (Suc n) =
     cthen (start_thread opt mainurl (int i) pid (fst (clock i)) (snd (clock i))) (\<lambda>t.
     cthen (start_threads opt mainurl pid clock (Suc i) n) (\<lambda>ts. Inr (t # ts)))"

text \<open>
  \<^verbatim>\<open>main\<close> up to the joins: the options, the URL and the threads it starts. \<open>api0\<close> and \<open>url0\<close> are the
  uninitialised arrays. The banner prints \<^verbatim>\<open>apiurl\<close> before the number of arguments is looked at. A
  negative number of clients asks for an enormous block, which is not granted.
\<close>

definition main :: "nat \<Rightarrow> (char \<times> string) list \<Rightarrow> string \<Rightarrow> string \<Rightarrow> int \<Rightarrow> (nat \<Rightarrow> int \<times> int)
    \<Rightarrow> (options \<times> string \<times> ThreadUri list) act" where
  "main argc os api0 url0 pid clock =
     athen (main_options os \<lparr>m_opt = no_options, numclients = 1, apiurl = api0\<rparr>) (\<lambda>m.
     athen (lift_fault (strlen (apiurl m))) (\<lambda>_.
       if argc < 2 then Inl (Exit 0)
       else
         athen (lift_fault (main_url (m_opt m) url0 (apiurl m))) (\<lambda>u.
           if numclients m < 0 then Inl (Fault NullDeref)
           else
             athen (lift_fault (start_threads (m_opt m) u pid clock 0 (nat (numclients m)))) (\<lambda>ts.
               Inr (m_opt m, u, ts)))))"

section \<open>What the options select\<close>

text \<open>The interface path an option stands for, and the one of the last option that has one.\<close>

definition api_of :: "char \<Rightarrow> string option" where
  "api_of c =
     (if c = CHR ''r'' \<or> c = CHR ''f'' then Some ''/client/v2/register''
      else if c = CHR ''p'' then Some ''/client/v1/puid-0''
      else if c = CHR ''m'' then Some ''/profile''
      else if c = CHR ''s'' then Some ''/client/v1/refresh'' else None)"

fun last_api :: "string option \<Rightarrow> (char \<times> string) list \<Rightarrow> string option" where
  "last_api acc [] = acc"
| "last_api acc ((c, a) # os) = last_api (case api_of c of None \<Rightarrow> acc | Some p \<Rightarrow> Some p) os"

definition is_local :: "(char \<times> string) list \<Rightarrow> bool" where
  "is_local os \<longleftrightarrow> CHR ''l'' \<in> fst ` set os \<or> CHR ''u'' \<in> fst ` set os"

definition plain_options :: "(char \<times> string) list \<Rightarrow> bool" where \<comment> \<open>options without an argument\<close>
  "plain_options os \<longleftrightarrow> fst ` set os \<subseteq> set ''vlrpmfsuai''"

definition api_holds :: "string option \<Rightarrow> string \<Rightarrow> bool" where
  "api_holds acc mem \<longleftrightarrow> length mem = 256 \<and> (\<forall>a. acc = Some a \<longrightarrow> terminated mem \<and> cstring mem = a)"

lemma set_api_ok:
  assumes "NUL \<notin> set s" "length s < 256" "length (apiurl m) = 256"
  shows "\<exists>mem. set_api s m = Inr (m\<lparr>apiurl := mem\<rparr>) \<and> api_holds (Some s) mem"
  using assms
  by (intro exI [of _ "s @ NUL # drop (length s + 1) (apiurl m)"])
    (simp add: set_api_def sprintf_def mem_write_def api_holds_def terminated_def cstring_lit)

lemma main_option_effect:
  assumes "c \<in> set ''vlrpmfsuai''" "api_holds acc (apiurl m)"
  shows "\<exists>m'. main_option c a m = Inr m' \<and> numclients m' = numclients m \<and>
    localhost (m_opt m') = (localhost (m_opt m) \<or> c = CHR ''l'' \<or> c = CHR ''u'') \<and>
    api_holds (case api_of c of None \<Rightarrow> acc | Some p \<Rightarrow> Some p) (apiurl m')"
proof -
  have len: "length (apiurl m) = 256" using assms(2) by (simp add: api_holds_def)
  have api: "\<exists>mem. set_api s (m\<lparr>m_opt := opt\<rparr>) = Inr (m\<lparr>m_opt := opt, apiurl := mem\<rparr>) \<and> api_holds (Some s) mem"
    if "NUL \<notin> set s" "length s < 256" for s opt
    using set_api_ok [of s "m\<lparr>m_opt := opt\<rparr>"] that len by simp
  have m: "m = m\<lparr>m_opt := m_opt m\<rparr>" by simp
  from assms(1) consider "c = CHR ''r''" | "c = CHR ''f''" | "c = CHR ''p''" | "c = CHR ''m''" | "c = CHR ''s''"
    | "c \<in> set ''vluai''" by auto
  then show ?thesis
  proof cases
    case 1
    then show ?thesis
      using api [of "''/client/v2/register''" "(m_opt m)\<lparr>registermode := True\<rparr>"] by (auto simp: main_option_def api_of_def Let_def)
  next
    case 2
    then show ?thesis
      using api [of "''/client/v2/register''" "(m_opt m)\<lparr>fullmode := True\<rparr>"] by (auto simp: main_option_def api_of_def Let_def)
  next
    case 3
    then show ?thesis
      using api [of "''/client/v1/puid-0''" "(m_opt m)\<lparr>listenmode := True\<rparr>"] by (auto simp: main_option_def api_of_def Let_def)
  next
    case 4
    then show ?thesis using set_api_ok [of "''/profile''" m] len by (auto simp: main_option_def api_of_def Let_def)
  next
    case 5
    then show ?thesis
      using api [of "''/client/v1/refresh''" "(m_opt m)\<lparr>refreshmode := True\<rparr>"] by (auto simp: main_option_def api_of_def Let_def)
  next
    case 6
    then show ?thesis using assms(2) by (auto simp: main_option_def api_of_def Let_def)
  qed
qed

lemma main_options_effect:
  "\<lbrakk>plain_options os; api_holds acc (apiurl m)\<rbrakk> \<Longrightarrow>
    \<exists>m'. main_options os m = Inr m' \<and> numclients m' = numclients m \<and>
      localhost (m_opt m') = (localhost (m_opt m) \<or> is_local os) \<and> api_holds (last_api acc os) (apiurl m')"
proof (induction os arbitrary: m acc)
  case Nil
  then show ?case by (simp add: is_local_def)
next
  case (Cons co os)
  obtain c a where co: "co = (c, a)" by (cases co)
  from Cons.prems have c: "c \<in> set ''vlrpmfsuai''" and os: "plain_options os" by (simp_all add: plain_options_def co)
  from main_option_effect [OF c Cons.prems(2)] obtain m1 where m1: "main_option c a m = Inr m1" "numclients m1 = numclients m"
    "localhost (m_opt m1) = (localhost (m_opt m) \<or> c = CHR ''l'' \<or> c = CHR ''u'')"
    "api_holds (case api_of c of None \<Rightarrow> acc | Some p \<Rightarrow> Some p) (apiurl m1)" by blast
  from Cons.IH [OF os m1(4)] m1 show ?case by (auto simp: co is_local_def)
qed

section \<open>The identifiers of the listen mode\<close>

lemma dec_length: "\<lbrakk>n < 10 ^ k; 0 < k\<rbrakk> \<Longrightarrow> length (dec n) \<le> k"
proof (induction n arbitrary: k rule: dec.induct)
  case (1 n)
  show ?case
  proof (cases "n < 10")
    case True
    with 1(3) show ?thesis by (simp add: dec.simps [of n])
  next
    case False
    with 1(2) have k: "1 < k" by (cases k; cases "k - 1") auto
    with 1(2) have "n div 10 < 10 ^ (k - 1)" by (cases k) (simp_all add: div_less_iff_less_mult mult.commute)
    with 1(1) [OF False this] k False show ?thesis by (simp add: dec.simps [of n])
  qed
qed

lemma decint_length: "\<lbrakk>\<bar>i\<bar> < 10 ^ k; 0 < k\<rbrakk> \<Longrightarrow> length (decint i) \<le> Suc k"
proof -
  assume a: "\<bar>i\<bar> < 10 ^ k" "0 < k"
  then have "nat \<bar>i\<bar> < 10 ^ k" by (simp add: nat_less_iff)
  with dec_length [OF this a(2)] show ?thesis by (cases "i < 0") (simp_all add: decint_def)
qed

lemma decint_NUL: "NUL \<notin> set (decint i)"
  using NUL_notin_dec by (auto simp: decint_def)

text \<open>The values of \<^verbatim>\<open>int\<close> and \<^verbatim>\<open>long\<close> that the time and process functions deliver.\<close>

definition clock_ok :: "int \<Rightarrow> (nat \<Rightarrow> int \<times> int) \<Rightarrow> bool" where
  "clock_ok pid clock \<longleftrightarrow> \<bar>pid\<bar> < 10 ^ 10 \<and> (\<forall>i. \<bar>fst (clock i)\<bar> < 10 ^ 19 \<and> \<bar>snd (clock i)\<bar> < 10 ^ 19)"

lemma start_thread_ok:
  assumes "terminated mainurl" "length (cstring mainurl) < 256" "clock_ok pid clock" "i < 10 ^ 10"
  shows "\<exists>t. start_thread opt mainurl (int i) pid (fst (clock i)) (snd (clock i)) = Inr t \<and> thread_ok t \<and>
    uri t = snd (parse_uri (cstring mainurl)) \<and> (\<not> listenmode opt \<and> \<not> refreshmode opt \<longrightarrow> clientId t = replicate 256 NUL)"
proof -
  let ?id = "decint (int i) @ ''-'' @ decint pid @ ''-'' @ decint (fst (clock i)) @ ''-'' @ decint (snd (clock i))"
  have "length (decint (int i)) \<le> 11" using assms(4) by (intro decint_length [where k = 10, simplified]) simp
  moreover have "length (decint pid) \<le> 11" "length (decint (fst (clock i))) \<le> 20" "length (decint (snd (clock i))) \<le> 20"
    using assms(3) decint_length [of pid 10] decint_length [of "fst (clock i)" 19] decint_length [of "snd (clock i)" 19]
    by (simp_all add: clock_ok_def)
  ultimately have id: "length ?id < 256" "NUL \<notin> set ?id" using decint_NUL by simp_all
  have w: "\<exists>b. sprintf (replicate 256 NUL) 0 s = Inr b \<and> length b = 256 \<and> terminated b \<and> cstring b = s"
    if "length s < 256" "NUL \<notin> set s" for s
    using that by (simp add: sprintf_def mem_write_def terminated_def cstring_lit)
  obtain cb where cb: "sprintf (replicate 256 NUL) 0 ?id = Inr cb" "length cb = 256" "terminated cb" "cstring cb = ?id"
    using w [OF id] by blast
  obtain pb where pb: "sprintf (replicate 256 NUL) 0 ?id = Inr pb" "length pb = 256" "terminated pb" using w [OF id] by blast
  have ref: "\<exists>b. sprintf c 0 ''refresh-test-client-1'' = Inr b \<and> length b = 256 \<and> terminated b" if "length c = 256" for c
    using that by (simp add: sprintf_def mem_write_def terminated_def)
  obtain ub where ub: "strcpy (replicate 256 NUL) mainurl = Inr ub" using strcpy_at [OF assms(1)] assms(2) by simp
  have "terminated (replicate 256 NUL)" by simp
  with ref [of cb] ref [of "replicate 256 NUL"] cb pb show ?thesis
    by (cases "listenmode opt"; cases "refreshmode opt") (auto simp: start_thread_def ub thread_ok_def)
qed

section \<open>The URL\<close>

definition server :: "bool \<Rightarrow> string" where
  "server loc = (if loc then ''localhost.colorcloud.com'' else ''elephant-cte1'')"

lemma dec_9443: "dec 9443 = ''9443''"
  by (simp add: dec.simps digit_char_def)

lemma main_url_text:
  assumes "api_holds (Some a) api" "length url0 = 256" "NUL \<notin> set a" "length a < 100"
  shows "\<exists>u. main_url opt url0 api = Inr u \<and> terminated u \<and>
    cstring u = ''https://'' @ server (localhost opt) @ '':9443'' @ a"
proof -
  let ?b = "if localhost opt then local_url else ele_url"
  have b: "NUL \<notin> set ?b" "length ?b < 100" "?b = ''https://'' @ server (localhost opt) @ '':9443''"
    by (simp_all add: local_url_def ele_url_def server_def)
  let ?u = "?b @ NUL # drop (length ?b + 1) url0"
  have s: "strcpy url0 (lit ?b) = Inr ?u" by (rule strcpy_lit) (use b assms(2) in simp_all)
  have u: "terminated ?u" "cstring ?u = ?b" using b(1) by (simp_all add: terminated_def cstring_lit)
  have api: "terminated api" "cstring api = a" using assms(1) by (simp_all add: api_holds_def)
  have len: "length ?u = 256" using assms(2) b(2) by simp
  have "strcat ?u api = arr.appends ?u [a]" using strcat_region [OF api(1), of ?u] api(2) by simp
  moreover obtain v where "arr.appends ?u [a] = Inr v" "terminated v" "cstring v = ?b @ a"
    using arr.appends_fit [of ?u "[a]"] u len b(2) assms(3,4) by auto
  ultimately have "main_url opt url0 api = Inr v" unfolding main_url_def s by simp
  moreover have "cstring v = (''https://'' @ server (localhost opt) @ '':9443'') @ a"
    unfolding b(3) [symmetric] by fact
  ultimately show ?thesis using \<open>terminated v\<close> by simp
qed

lemma main_url_parsed:
  assumes "tail_ok a []" "a \<noteq> []"
  shows "\<exists>w. parse_uri (''https://'' @ server loc @ '':9443'' @ a) = (0, w) \<and>
    request_init (''https://'' @ server loc @ '':9443'' @ a) w =
      Inr \<lparr>req_host = server loc, req_port = 9443, req_path = a, req_hostport = server loc @ '':9443'', stream_id = -1, inflater = False\<rparr>"
  using parse_printed [of "server loc" "Some 9443" a "[]" "''https://'' @ server loc @ '':9443'' @ a"] assms
  by (auto simp: server_def host_delim_def port_of_def port_text_def dec_9443)

lemma api_paths:
  assumes "last_api acc os = Some a" "acc = None \<or> (\<exists>c. api_of c = acc)"
  shows "tail_ok a [] \<and> a \<noteq> [] \<and> NUL \<notin> set a \<and> length a < 100"
  using assms
proof (induction os arbitrary: acc)
  case Nil
  then show ?case by (auto simp: api_of_def tail_ok_def split: if_splits)
next
  case (Cons co os)
  then show ?case by (cases co; cases "api_of (fst co)") (auto 4 4)
qed

section \<open>Properties\<close>

lemma main_starts:
  assumes "plain_options os" "last_api None os = Some a" "length api0 = 256" "length url0 = 256" "2 \<le> argc" "clock_ok pid clock"
  shows "\<exists>opt u t. main argc os api0 url0 pid clock = Inr (opt, u, [t]) \<and> thread_ok t \<and>
    (\<not> listenmode opt \<and> \<not> refreshmode opt \<longrightarrow> clientId t = replicate 256 NUL) \<and>
    request_init (cstring u) (uri t) =
      Inr \<lparr>req_host = server (is_local os), req_port = 9443, req_path = a,
        req_hostport = server (is_local os) @ '':9443'', stream_id = -1, inflater = False\<rparr>"
proof -
  let ?m0 = "\<lparr>m_opt = no_options, numclients = 1, apiurl = api0\<rparr>"
  have "api_holds None (apiurl ?m0)" using assms(3) by (simp add: api_holds_def)
  from main_options_effect [OF assms(1) this] obtain m where m: "main_options os ?m0 = Inr m" "numclients m = 1"
    "localhost (m_opt m) = is_local os" "api_holds (Some a) (apiurl m)"
    using assms(2) by (auto simp: no_options_def)
  have a: "tail_ok a []" "a \<noteq> []" "NUL \<notin> set a" "length a < 100" using api_paths [OF assms(2)] by simp_all
  obtain u where u: "main_url (m_opt m) url0 (apiurl m) = Inr u" "terminated u"
    "cstring u = ''https://'' @ server (is_local os) @ '':9443'' @ a"
    using main_url_text [OF m(4) assms(4) a(3,4), of "m_opt m"] m(3) by auto
  have "length (cstring u) < 256" using a(4) by (simp add: u(3) server_def)
  from start_thread_ok [OF u(2) this assms(6), of 0 "m_opt m"] obtain t where t:
    "start_thread (m_opt m) u 0 pid (fst (clock 0)) (snd (clock 0)) = Inr t" "thread_ok t" "uri t = snd (parse_uri (cstring u))"
    "\<not> listenmode (m_opt m) \<and> \<not> refreshmode (m_opt m) \<longrightarrow> clientId t = replicate 256 NUL"
    by auto
  have "strlen (apiurl m) = Inr (length a)" using m(4) by (simp add: strlen_def api_holds_def)
  then have "main argc os api0 url0 pid clock = Inr (m_opt m, u, [t])" using assms(5) m u(1) t(1) by (simp add: main_def)
  moreover have "request_init (cstring u) (uri t) =
      Inr \<lparr>req_host = server (is_local os), req_port = 9443, req_path = a,
        req_hostport = server (is_local os) @ '':9443'', stream_id = -1, inflater = False\<rparr>"
    using main_url_parsed [OF a(1,2), of "is_local os"] t(3) u(3) by auto
  ultimately show ?thesis using t(2,4) by blast
qed

text \<open>
  C37. What the program does with its options. With options that take no argument, at least one of
  them naming an interface, it starts exactly one client, whose arrays are well-formed and whose
  URI leads to port 9443 of the local or the remote server (local exactly with \<^verbatim>\<open>-l\<close> or \<^verbatim>\<open>-u\<close>)
  and to the path of the last option that names an interface.
\<close>

theorem main_starts_client:
  assumes "plain_options os" "last_api None os = Some a" "length api0 = 256" "length url0 = 256" "2 \<le> argc" "clock_ok pid clock"
  shows "\<exists>opt u t. main argc os api0 url0 pid clock = Inr (opt, u, [t]) \<and> thread_ok t \<and>
    request_init (cstring u) (uri t) =
      Inr \<lparr>req_host = server (is_local os), req_port = 9443, req_path = a,
        req_hostport = server (is_local os) @ '':9443'', stream_id = -1, inflater = False\<rparr>"
  using main_starts [OF assms] by blast

theorem main_starts_client_witness:
  "\<exists>opt u t. main 3 [(CHR ''u'', []), (CHR ''p'', []), (CHR ''f'', [])] (replicate 256 CHR ''?'') (replicate 256 CHR ''?'') 77 (\<lambda>i. (1, 2)) =
      Inr (opt, u, [t]) \<and> thread_ok t \<and>
    request_init (cstring u) (uri t) =
      Inr \<lparr>req_host = ''localhost.colorcloud.com'', req_port = 9443, req_path = ''/client/v2/register'',
        req_hostport = ''localhost.colorcloud.com:9443'', stream_id = -1, inflater = False\<rparr>"
proof -
  let ?os = "[(CHR ''u'', []), (CHR ''p'', []), (CHR ''f'', [])] :: (char \<times> string) list"
  have os: "plain_options ?os" "last_api None ?os = Some ''/client/v2/register''" "is_local ?os"
    by (simp_all add: plain_options_def api_of_def is_local_def)
  have clock: "clock_ok 77 (\<lambda>i. (1, 2))" by (simp add: clock_ok_def)
  have s: "server (is_local ?os) = ''localhost.colorcloud.com''"
    "server (is_local ?os) @ '':9443'' = ''localhost.colorcloud.com:9443''" using os(3) by (simp_all add: server_def)
  show ?thesis
    using main_starts_client [OF os(1,2) length_replicate length_replicate _ clock, of 3 "CHR ''?''" "CHR ''?''"]
    unfolding s by simp
qed

lemma flag_keeps_api: "c \<in> set ''vluai'' \<Longrightarrow> \<exists>m'. main_option c a m = Inr m' \<and> apiurl m' = apiurl m"
  by (auto simp: main_option_def Let_def)

text \<open>
  C38. Without an option that names an interface the program works on memory it never wrote. If
  the uninitialised array has no zero byte the banner already reads past it, even when the
  program was only called to print its usage.
\<close>

theorem no_interface_reads_uninitialised:
  assumes "fst ` set os \<subseteq> set ''vluai''" "\<not> terminated api0"
  shows "main argc os api0 url0 pid clock = Inl (Fault OutOfBounds)"
proof -
  have "\<exists>m'. main_options os m = Inr m' \<and> apiurl m' = apiurl m" for m
    using assms(1)
  proof (induction os arbitrary: m)
    case (Cons co os)
    obtain c a where co: "co = (c, a)" by (cases co)
    with Cons.prems have c: "c \<in> set ''vluai''" by simp
    obtain m1 where m1: "main_option c a m = Inr m1" "apiurl m1 = apiurl m" using flag_keeps_api [OF c] by blast
    from Cons.IH [of m1] Cons.prems m1 show ?case by (simp add: co)
  qed simp
  from this [of "\<lparr>m_opt = no_options, numclients = 1, apiurl = api0\<rparr>"] assms(2) show ?thesis
    by (auto simp: main_def strlen_def)
qed

theorem no_interface_reads_uninitialised_witness:
  "main 1 [] (replicate 256 CHR ''?'') (replicate 256 CHR ''?'') 77 (\<lambda>i. (1, 2)) = Inl (Fault OutOfBounds)"
  using no_interface_reads_uninitialised [of "[]" "replicate 256 CHR ''?''"] by (simp add: terminated_def)

end
