(* ===== verification/Htparse_Types.thy ===== *)
theory Htparse_Types
  imports Prelude
begin

text \<open>
  The data of the HTTP parser \<^verbatim>\<open>client/htparse/htparse.c\<close>: its enumerations, the parser
  structure, the hook table, the lookup tables, and the helper functions in front of
  \<^verbatim>\<open>htparser_run\<close>.

  The \<^verbatim>\<open>void *userdata\<close> is a type parameter. A hook is code of the application: it sees the
  parser, returns an \<^verbatim>\<open>int\<close> and may replace the user data. A pointer into \<^verbatim>\<open>p->buf\<close> is an
  offset; the buffer is a function from indices to bytes, of which \<^verbatim>\<open>0..8191\<close> belong to
  the array.
\<close>

unbundle bit_operations_syntax

section \<open>Enumerations\<close>

datatype htp_type = htp_type_request | htp_type_response

datatype htp_scheme =
    htp_scheme_none | htp_scheme_ftp | htp_scheme_http | htp_scheme_https | htp_scheme_nfs
  | htp_scheme_unknown

datatype htp_method =
    htp_method_GET | htp_method_HEAD | htp_method_POST | htp_method_PUT | htp_method_DELETE
  | htp_method_MKCOL | htp_method_COPY | htp_method_MOVE | htp_method_OPTIONS
  | htp_method_PROPFIND | htp_method_PROPPATCH | htp_method_LOCK | htp_method_UNLOCK
  | htp_method_TRACE | htp_method_CONNECT | htp_method_UNKNOWN

datatype htpparse_error =
    htparse_error_none | htparse_error_too_big | htparse_error_inval_method
  | htparse_error_inval_reqline | htparse_error_inval_schema | htparse_error_inval_proto
  | htparse_error_inval_ver | htparse_error_inval_hdr | htparse_error_inval_chunk_sz
  | htparse_error_inval_chunk | htparse_error_inval_state | htparse_error_user
  | htparse_error_status | htparse_error_generic

datatype eval_hdr_val =
    eval_hdr_val_none | eval_hdr_val_connection | eval_hdr_val_proxy_connection
  | eval_hdr_val_content_length | eval_hdr_val_transfer_encoding | eval_hdr_val_hostname
  | eval_hdr_val_content_type

text \<open>The flag word is the set of the bits that are on.\<close>

datatype parser_flags =
    parser_flag_chunked | parser_flag_connection_keep_alive | parser_flag_connection_close
  | parser_flag_trailing | parser_flag_content_length

datatype parser_state =
    s_start | s_method | s_spaces_before_uri | s_schema | s_schema_slash | s_schema_slash_slash
  | s_host | s_port | s_after_slash_in_uri | s_check_uri | s_uri | s_http_09 | s_http_H
  | s_http_HT | s_http_HTT | s_http_HTTP | s_first_major_digit | s_major_digit
  | s_first_minor_digit | s_minor_digit | s_spaces_after_digit | s_almost_done | s_done
  | s_hdrline_start | s_hdrline_hdr_almost_done | s_hdrline_hdr_done | s_hdrline_hdr_key
  | s_hdrline_hdr_space_before_val | s_hdrline_hdr_val | s_hdrline_almost_done
  | s_hdrline_done | s_body_read | s_chunk_size_start | s_chunk_size
  | s_chunk_size_almost_done | s_chunk_data | s_chunk_data_almost_done | s_chunk_data_done
  | s_status | s_space_after_status | s_status_text

section \<open>The parser structure\<close>

record 'u htparser =
  p_error :: htpparse_error
  p_state :: parser_state
  p_flags :: "parser_flags set"
  p_heval :: eval_hdr_val
  p_type :: htp_type
  p_scheme :: htp_scheme
  p_method :: htp_method
  p_multipart :: "8 word"
  p_major :: "8 word"
  p_minor :: "8 word"
  p_content_len :: "64 word"
  p_bytes_read :: "64 word"
  p_total_bytes_read :: "64 word"
  p_status :: "32 word"
  p_status_count :: "32 word"
  p_buf :: "nat \<Rightarrow> byte"
  p_buf_idx :: nat
  p_scheme_offset :: "nat option"
  p_host_offset :: "nat option"
  p_port_offset :: "nat option"
  p_path_offset :: "nat option"
  p_args_offset :: "nat option"
  p_userdata :: 'u

definition PARSER_STACK_MAX :: nat where
  "PARSER_STACK_MAX = 8192"

text \<open>
  The bytes a data hook is given: a pointer into the parser's buffer or into the input,
  and a \<^verbatim>\<open>size_t\<close>.
\<close>

datatype hook_ptr = NullPtr | BufPtr nat | DataPtr "byte list"

type_synonym 'u htparse_hook = "'u htparser \<Rightarrow> int \<times> 'u"
type_synonym 'u htparse_data_hook = "'u htparser \<Rightarrow> hook_ptr \<Rightarrow> 64 word \<Rightarrow> int \<times> 'u"

record 'u htparse_hooks =
  hk_msg_begin :: "'u htparse_hook option"
  hk_method :: "'u htparse_data_hook option"
  hk_scheme :: "'u htparse_data_hook option"
  hk_host :: "'u htparse_data_hook option"
  hk_port :: "'u htparse_data_hook option"
  hk_path :: "'u htparse_data_hook option"
  hk_args :: "'u htparse_data_hook option"
  hk_uri :: "'u htparse_data_hook option"
  hk_hdrs_begin :: "'u htparse_hook option"
  hk_hdr_key :: "'u htparse_data_hook option"
  hk_hdr_val :: "'u htparse_data_hook option"
  hk_hostname :: "'u htparse_data_hook option"
  hk_hdrs_complete :: "'u htparse_hook option"
  hk_new_chunk :: "'u htparse_hook option"
  hk_chunk_complete :: "'u htparse_hook option"
  hk_chunks_complete :: "'u htparse_hook option"
  hk_body :: "'u htparse_data_hook option"
  hk_msg_complete :: "'u htparse_hook option"

definition run_hook :: "'u htparse_hook option \<Rightarrow> 'u htparser \<Rightarrow> int \<times> 'u htparser" where
  "run_hook hk p =
     (case hk of None \<Rightarrow> (0, p) | Some f \<Rightarrow> (let (res, u) = f p in (res, p\<lparr>p_userdata := u\<rparr>)))"

definition run_data_hook ::
  "'u htparse_data_hook option \<Rightarrow> 'u htparser \<Rightarrow> hook_ptr \<Rightarrow> 64 word \<Rightarrow> int \<times> 'u htparser" where
  "run_data_hook hk p s l =
     (case hk of None \<Rightarrow> (0, p) | Some f \<Rightarrow> (let (res, u) = f p s l in (res, p\<lparr>p_userdata := u\<rparr>)))"

section \<open>Tables\<close>

definition usual :: "nat list" where
  "usual = [0xffffdbfe, 0x7fff37d6, 0xffffffff, 0xffffffff, 0xffffffff, 0xffffffff, 0xffffffff,
     0xffffffff]"

definition is_usual :: "byte \<Rightarrow> bool" where
  "is_usual ch = ((usual ! drop_bit 5 (code ch)) AND push_bit (code ch AND 0x1f) 1 \<noteq> 0)"

text \<open>
  The table is declared with 256 elements and initialised with 128; C sets the rest to 0.
\<close>

definition unhex :: "int list" where
  "unhex = [
    -1, -1, -1, -1, -1, -1, -1, -1, -1, -1, -1, -1, -1, -1, -1, -1,
    -1, -1, -1, -1, -1, -1, -1, -1, -1, -1, -1, -1, -1, -1, -1, -1,
    -1, -1, -1, -1, -1, -1, -1, -1, -1, -1, -1, -1, -1, -1, -1, -1,
    0,  1,  2,  3,  4,  5,  6,  7,  8,  9,  -1, -1, -1, -1, -1, -1,
    -1, 10, 11, 12, 13, 14, 15, -1, -1, -1, -1, -1, -1, -1, -1, -1,
    -1, -1, -1, -1, -1, -1, -1, -1, -1, -1, -1, -1, -1, -1, -1, -1,
    -1, 10, 11, 12, 13, 14, 15, -1, -1, -1, -1, -1, -1, -1, -1, -1,
    -1, -1, -1, -1, -1, -1, -1, -1, -1, -1, -1, -1, -1, -1, -1, -1] @ replicate 128 0"

definition errstr_map :: "string list" where
  "errstr_map = [''htparse_error_none'', ''htparse_error_too_big'',
     ''htparse_error_invalid_method'', ''htparse_error_invalid_requestline'',
     ''htparse_error_invalid_schema'', ''htparse_error_invalid_protocol'',
     ''htparse_error_invalid_version'', ''htparse_error_invalid_header'',
     ''htparse_error_invalid_chunk_size'', ''htparse_error_invalid_chunk'',
     ''htparse_error_invalid_state'', ''htparse_error_user'', ''htparse_error_unknown'']"

definition method_strmap :: "string list" where
  "method_strmap = [''GET'', ''HEAD'', ''POST'', ''PUT'', ''DELETE'', ''MKCOL'', ''COPY'',
     ''MOVE'', ''OPTIONS'', ''PROPFIND'', ''PROPATCH'', ''LOCK'', ''UNLOCK'', ''TRACE'']"

text \<open>The values the compiler gives the enumerators.\<close>

fun error_num :: "htpparse_error \<Rightarrow> nat" where
  "error_num htparse_error_none = 0"
| "error_num htparse_error_too_big = 1"
| "error_num htparse_error_inval_method = 2"
| "error_num htparse_error_inval_reqline = 3"
| "error_num htparse_error_inval_schema = 4"
| "error_num htparse_error_inval_proto = 5"
| "error_num htparse_error_inval_ver = 6"
| "error_num htparse_error_inval_hdr = 7"
| "error_num htparse_error_inval_chunk_sz = 8"
| "error_num htparse_error_inval_chunk = 9"
| "error_num htparse_error_inval_state = 10"
| "error_num htparse_error_user = 11"
| "error_num htparse_error_status = 12"
| "error_num htparse_error_generic = 13"

fun method_num :: "htp_method \<Rightarrow> nat" where
  "method_num htp_method_GET = 0"
| "method_num htp_method_HEAD = 1"
| "method_num htp_method_POST = 2"
| "method_num htp_method_PUT = 3"
| "method_num htp_method_DELETE = 4"
| "method_num htp_method_MKCOL = 5"
| "method_num htp_method_COPY = 6"
| "method_num htp_method_MOVE = 7"
| "method_num htp_method_OPTIONS = 8"
| "method_num htp_method_PROPFIND = 9"
| "method_num htp_method_PROPPATCH = 10"
| "method_num htp_method_LOCK = 11"
| "method_num htp_method_UNLOCK = 12"
| "method_num htp_method_TRACE = 13"
| "method_num htp_method_CONNECT = 14"
| "method_num htp_method_UNKNOWN = 15"

section \<open>Word comparisons\<close>

text \<open>
  \<^verbatim>\<open>to_uint32(m)\<close> combines four \<^verbatim>\<open>char\<close>s, which are signed and promoted to \<^verbatim>\<open>int\<close> before the
  shifts, so a byte above 127 spreads into the higher positions.
\<close>

definition schar :: "byte \<Rightarrow> int" where
  "schar c = signed_take_bit 7 (of_char c)"

definition pack32 :: "byte \<Rightarrow> byte \<Rightarrow> byte \<Rightarrow> byte \<Rightarrow> 32 word" where
  "pack32 c3 c2 c1 c0 =
     word_of_int (push_bit 24 (schar c3) OR push_bit 16 (schar c2) OR push_bit 8 (schar c1) OR schar c0)"

definition to_uint32 :: "(nat \<Rightarrow> byte) \<Rightarrow> nat \<Rightarrow> 32 word" where
  "to_uint32 m i = pack32 (m (i + 3)) (m (i + 2)) (m (i + 1)) (m i)"

definition str4cmp :: "(nat \<Rightarrow> byte) \<Rightarrow> nat \<Rightarrow> byte \<Rightarrow> byte \<Rightarrow> byte \<Rightarrow> byte \<Rightarrow> bool" where
  "str4cmp m i c0 c1 c2 c3 = (to_uint32 m i = pack32 c3 c2 c1 c0)"

definition str5cmp ::
  "(nat \<Rightarrow> byte) \<Rightarrow> nat \<Rightarrow> byte \<Rightarrow> byte \<Rightarrow> byte \<Rightarrow> byte \<Rightarrow> byte \<Rightarrow> bool" where
  "str5cmp m i c0 c1 c2 c3 c4 = (to_uint32 m i = pack32 c3 c2 c1 c0 \<and> m (i + 4) = c4)"

definition str6cmp ::
  "(nat \<Rightarrow> byte) \<Rightarrow> nat \<Rightarrow> byte \<Rightarrow> byte \<Rightarrow> byte \<Rightarrow> byte \<Rightarrow> byte \<Rightarrow> byte \<Rightarrow> bool" where
  "str6cmp m i c0 c1 c2 c3 c4 c5 =
     (to_uint32 m i = pack32 c3 c2 c1 c0 \<and>
      to_uint32 m (i + 4) AND 0xffff = word_of_int (push_bit 8 (schar c5) OR schar c4))"

definition str8cmp ::
  "(nat \<Rightarrow> byte) \<Rightarrow> nat \<Rightarrow> byte \<Rightarrow> byte \<Rightarrow> byte \<Rightarrow> byte \<Rightarrow> byte \<Rightarrow> byte \<Rightarrow> byte \<Rightarrow> byte \<Rightarrow> bool" where
  "str8cmp m i c0 c1 c2 c3 c4 c5 c6 c7 =
     (to_uint32 m i = pack32 c3 c2 c1 c0 \<and> to_uint32 m (i + 4) = pack32 c7 c6 c5 c4)"

definition str9cmp ::
  "(nat \<Rightarrow> byte) \<Rightarrow> nat \<Rightarrow> byte \<Rightarrow> byte \<Rightarrow> byte \<Rightarrow> byte \<Rightarrow> byte \<Rightarrow> byte \<Rightarrow> byte \<Rightarrow> byte \<Rightarrow> byte \<Rightarrow> bool" where
  "str9cmp m i c0 c1 c2 c3 c4 c5 c6 c7 c8 =
     (to_uint32 m i = pack32 c3 c2 c1 c0 \<and> to_uint32 m (i + 4) = pack32 c7 c6 c5 c4 \<and>
      m (i + 8) = c8)"

text \<open>\<^verbatim>\<open>!strcasecmp(p, lit)\<close>: equality up to ASCII case, terminator included.\<close>

definition tolower :: "byte \<Rightarrow> byte" where
  "tolower c = (if 65 \<le> code c \<and> code c \<le> 90 then ''abcdefghijklmnopqrstuvwxyz'' ! (code c - 65) else c)"

fun strcaseeq :: "(nat \<Rightarrow> byte) \<Rightarrow> nat \<Rightarrow> string \<Rightarrow> bool" where
  "strcaseeq m i [] = (m i = NUL)"
| "strcaseeq m i (c # cs) = (tolower (m i) = tolower c \<and> strcaseeq m (Suc i) cs)"

declare strcaseeq.simps [simp del]

section \<open>Numbers\<close>

text \<open>
  \<^verbatim>\<open>str_to_uint64\<close>: the value and whether \<^verbatim>\<open>*err\<close> was set. \<^verbatim>\<open>check > UINT64_MAX\<close> is never true
  of a 64-bit value.
\<close>

fun uint64_loop :: "64 word \<Rightarrow> string \<Rightarrow> 64 word \<times> bool" where
  "uint64_loop value [] = (value, False)"
| "uint64_loop value (c # cs) =
     (if \<not> is_digit c then (0, True)
      else
        let check = value * 10 + of_nat (digit_val c)
        in if value \<noteq> 0 \<and> check \<le> value then (0, True) else uint64_loop check cs)"

definition str_to_uint64 :: "string \<Rightarrow> 64 word \<times> bool" where
  "str_to_uint64 s = (if 20 < length s then (0, True) else uint64_loop 0 s)"

section \<open>Accessors and initialisation\<close>

definition htparser_get_error :: "'u htparser \<Rightarrow> htpparse_error" where
  "htparser_get_error p = p_error p"

definition htparser_get_status :: "'u htparser \<Rightarrow> 32 word" where
  "htparser_get_status p = p_status p"

definition htparser_get_scheme :: "'u htparser \<Rightarrow> htp_scheme" where
  "htparser_get_scheme p = p_scheme p"

definition htparser_get_method :: "'u htparser \<Rightarrow> htp_method" where
  "htparser_get_method p = p_method p"

definition htparser_get_major :: "'u htparser \<Rightarrow> 8 word" where
  "htparser_get_major p = p_major p"

definition htparser_get_minor :: "'u htparser \<Rightarrow> 8 word" where
  "htparser_get_minor p = p_minor p"

definition htparser_get_multipart :: "'u htparser \<Rightarrow> 8 word" where
  "htparser_get_multipart p = p_multipart p"

definition htparser_get_userdata :: "'u htparser \<Rightarrow> 'u" where
  "htparser_get_userdata p = p_userdata p"

definition htparser_get_content_length :: "'u htparser \<Rightarrow> 64 word" where
  "htparser_get_content_length p = p_content_len p"

definition htparser_get_bytes_read :: "'u htparser \<Rightarrow> 64 word" where
  "htparser_get_bytes_read p = p_bytes_read p"

definition htparser_get_total_bytes_read :: "'u htparser \<Rightarrow> 64 word" where
  "htparser_get_total_bytes_read p = p_total_bytes_read p"

definition htparser_get_strerror :: "'u htparser \<Rightarrow> string cres" where
  "htparser_get_strerror p =
     (let e = error_num (htparser_get_error p) in
      if error_num htparse_error_generic < e then Inr ''htparse_no_such_error''
      else if e < length errstr_map then Inr (errstr_map ! e) else Inl OutOfBounds)"

definition htparser_should_keep_alive :: "'u htparser \<Rightarrow> bool" where
  "htparser_should_keep_alive p =
     (if 0 < p_major p \<and> 0 < p_minor p then parser_flag_connection_close \<notin> p_flags p
      else parser_flag_connection_keep_alive \<in> p_flags p)"

text \<open>\<open>Inr None\<close> is the \<^verbatim>\<open>NULL\<close> the function returns.\<close>

definition htparser_get_methodstr :: "'u htparser \<Rightarrow> string option cres" where
  "htparser_get_methodstr p =
     (let m = method_num (p_method p) in
      if method_num htp_method_UNKNOWN \<le> m then Inr None
      else if m < length method_strmap then Inr (Some (method_strmap ! m)) else Inl OutOfBounds)"

definition htparser_set_major :: "'u htparser \<Rightarrow> 8 word \<Rightarrow> 'u htparser" where
  "htparser_set_major p v = p\<lparr>p_major := v\<rparr>"

definition htparser_set_minor :: "'u htparser \<Rightarrow> 8 word \<Rightarrow> 'u htparser" where
  "htparser_set_minor p v = p\<lparr>p_minor := v\<rparr>"

definition htparser_set_userdata :: "'u htparser \<Rightarrow> 'u \<Rightarrow> 'u htparser" where
  "htparser_set_userdata p ud = p\<lparr>p_userdata := ud\<rparr>"

text \<open>
  \<^verbatim>\<open>memset\<close> clears the structure: state 0 is \<^const>\<open>s_start\<close>, method 0 is \<^const>\<open>htp_method_GET\<close>,
  every pointer is null. The cleared user data is the argument \<open>null\<close>.
\<close>

definition htparser_init :: "'u \<Rightarrow> htp_type \<Rightarrow> 'u htparser" where
  "htparser_init null t =
     \<lparr>p_error = htparse_error_none, p_state = s_start, p_flags = {}, p_heval = eval_hdr_val_none,
      p_type = t, p_scheme = htp_scheme_none, p_method = htp_method_GET, p_multipart = 0,
      p_major = 0, p_minor = 0, p_content_len = 0, p_bytes_read = 0, p_total_bytes_read = 0,
      p_status = 0, p_status_count = 0, p_buf = (\<lambda>_. NUL), p_buf_idx = 0,
      p_scheme_offset = None, p_host_offset = None, p_port_offset = None,
      p_path_offset = None, p_args_offset = None, p_userdata = null\<rparr>"

section \<open>Word comparisons compare bytes\<close>

lemma bit_code_8: "bit (code c) n \<Longrightarrow> n < 8"
proof -
  have "take_bit 8 (code c) = code c"
    using code_less_256 [of c] by (simp add: take_bit_eq_mod)
  then show "bit (code c) n \<Longrightarrow> n < 8"
    by (metis bit_take_bit_iff)
qed

lemma bit_schar: "bit (schar c) n \<longleftrightarrow> bit (code c) (min n 7)"
proof -
  have "bit (of_char c :: int) k = bit (code c) k" for k
    unfolding of_nat_of_char [where 'a = int, symmetric] by (rule bit_of_nat_iff_bit)
  then show ?thesis by (simp add: schar_def bit_signed_take_bit_iff min.commute)
qed

lemma bit_pack32:
  assumes "n < 32"
  shows "bit (pack32 c3 c2 c1 c0) n \<longleftrightarrow>
    24 \<le> n \<and> bit (schar c3) (n - 24) \<or> 16 \<le> n \<and> bit (schar c2) (n - 16) \<or>
    8 \<le> n \<and> bit (schar c1) (n - 8) \<or> bit (schar c0) n"
  using assms by (auto simp: pack32_def bit_word_of_int_iff bit_or_iff bit_push_bit_iff)

lemma char_eq_bits:
  assumes "\<And>n. n < 8 \<Longrightarrow> bit (code b) n = bit (code c) n"
  shows "b = c"
proof -
  have "code b = code c"
    using assms bit_code_8 by (intro bit_eqI) blast
  then show ?thesis by simp
qed

lemma ascii_bit7: "code c < 128 \<Longrightarrow> \<not> bit (code c) 7"
  by (simp add: bit_iff_odd)

lemma pack32_eq:
  assumes ascii: "code c3 < 128" "code c2 < 128" "code c1 < 128" "code c0 < 128"
  shows "pack32 b3 b2 b1 b0 = pack32 c3 c2 c1 c0 \<longleftrightarrow> b3 = c3 \<and> b2 = c2 \<and> b1 = c1 \<and> b0 = c0"
proof
  assume eq: "pack32 b3 b2 b1 b0 = pack32 c3 c2 c1 c0"
  note bits = bit_pack32 bit_schar ascii [THEN ascii_bit7]
  have at: "bit (pack32 b3 b2 b1 b0) n = bit (pack32 c3 c2 c1 c0) n" for n by (simp add: eq)
  from at [of 31] have sgn: "\<not> bit (code b3) 7" "\<not> bit (code b2) 7" "\<not> bit (code b1) 7" "\<not> bit (code b0) 7"
    by (simp_all add: bits min_def)
  have "bit (code b3) k = bit (code c3) k" if "k < 8" for k
    using at [of "24 + k"] that sgn by (simp add: bits min_def)
  moreover have "bit (code b2) k = bit (code c2) k" if "k < 8" for k
    using at [of "16 + k"] that sgn by (simp add: bits min_def)
  moreover have "bit (code b1) k = bit (code c1) k" if "k < 8" for k
    using at [of "8 + k"] that sgn by (simp add: bits min_def)
  moreover have "bit (code b0) k = bit (code c0) k" if "k < 8" for k
    using at [of k] that sgn by (simp add: bits min_def)
  ultimately show "b3 = c3 \<and> b2 = c2 \<and> b1 = c1 \<and> b0 = c0"
    by (simp add: char_eq_bits)
qed simp

lemma pack16_eq:
  assumes ascii: "code c1 < 128" "code c0 < 128"
  shows "pack32 b3 b2 b1 b0 AND 0xffff = word_of_int (push_bit 8 (schar c1) OR schar c0) \<longleftrightarrow>
    b1 = c1 \<and> b0 = c0"
    (is "?l = ?r \<longleftrightarrow> _")
proof -
  note bits = bit_pack32 bit_schar ascii [THEN ascii_bit7]
  have r: "bit ?r n \<longleftrightarrow> n < 32 \<and> (8 \<le> n \<and> bit (code c1) (min (n - 8) 7) \<or> bit (code c0) (min n 7))" for n
    by (auto simp: bit_word_of_int_iff bit_or_iff bit_push_bit_iff bit_schar)
  have mask: "(0xffff :: 32 word) = mask 16" by (simp add: mask_eq_exp_minus_1)
  have l: "bit ?l n \<longleftrightarrow> n < 16 \<and> (8 \<le> n \<and> bit (code b1) (min (n - 8) 7) \<or> bit (code b0) (min n 7))" for n
    unfolding mask by (auto simp: bit_and_iff bit_mask_iff bit_pack32 bit_schar)
  show ?thesis
  proof
    assume eq: "?l = ?r"
    have at: "bit ?l n = bit ?r n" for n by (simp add: eq)
    from at [of 15] have sgn: "\<not> bit (code b1) 7" "\<not> bit (code b0) 7"
      by (simp_all add: l r bits min_def)
    have "bit (code b1) k = bit (code c1) k" if "k < 8" for k
      using at [of "8 + k"] that sgn by (simp add: l r bits min_def)
    moreover have "bit (code b0) k = bit (code c0) k" if "k < 8" for k
      using at [of k] that sgn by (simp add: l r bits min_def)
    ultimately show "b1 = c1 \<and> b0 = c0" by (simp add: char_eq_bits)
  next
    assume b: "b1 = c1 \<and> b0 = c0"
    show "?l = ?r"
    proof (rule bit_word_eqI)
      fix n assume "n < LENGTH(32)"
      show "bit ?l n = bit ?r n"
        unfolding l r using b by (cases "n < 16") (auto simp: bits min_def)
    qed
  qed
qed

lemma str4cmp_bytes [simp]:
  assumes "code c3 < 128" "code c2 < 128" "code c1 < 128" "code c0 < 128"
  shows "str4cmp m i c0 c1 c2 c3 \<longleftrightarrow> m i = c0 \<and> m (i + 1) = c1 \<and> m (i + 2) = c2 \<and> m (i + 3) = c3"
  using assms by (auto simp: str4cmp_def to_uint32_def pack32_eq)

lemma str5cmp_bytes [simp]:
  assumes "code c3 < 128" "code c2 < 128" "code c1 < 128" "code c0 < 128"
  shows "str5cmp m i c0 c1 c2 c3 c4 \<longleftrightarrow>
    m i = c0 \<and> m (i + 1) = c1 \<and> m (i + 2) = c2 \<and> m (i + 3) = c3 \<and> m (i + 4) = c4"
  using assms by (auto simp: str5cmp_def to_uint32_def pack32_eq)

lemma str6cmp_bytes [simp]:
  assumes "code c3 < 128" "code c2 < 128" "code c1 < 128" "code c0 < 128" "code c4 < 128" "code c5 < 128"
  shows "str6cmp m i c0 c1 c2 c3 c4 c5 \<longleftrightarrow>
    m i = c0 \<and> m (i + 1) = c1 \<and> m (i + 2) = c2 \<and> m (i + 3) = c3 \<and> m (i + 4) = c4 \<and> m (i + 5) = c5"
  using assms pack16_eq [of c5 c4]
  by (auto simp: str6cmp_def to_uint32_def pack32_eq add.assoc add.commute add.left_commute)

lemma str8cmp_bytes [simp]:
  assumes "code c3 < 128" "code c2 < 128" "code c1 < 128" "code c0 < 128"
    and "code c7 < 128" "code c6 < 128" "code c5 < 128" "code c4 < 128"
  shows "str8cmp m i c0 c1 c2 c3 c4 c5 c6 c7 \<longleftrightarrow>
    m i = c0 \<and> m (i + 1) = c1 \<and> m (i + 2) = c2 \<and> m (i + 3) = c3 \<and>
    m (i + 4) = c4 \<and> m (i + 5) = c5 \<and> m (i + 6) = c6 \<and> m (i + 7) = c7"
  using assms by (auto simp: str8cmp_def to_uint32_def pack32_eq add.assoc add.commute add.left_commute)

lemma str9cmp_bytes [simp]:
  assumes "code c3 < 128" "code c2 < 128" "code c1 < 128" "code c0 < 128"
    and "code c7 < 128" "code c6 < 128" "code c5 < 128" "code c4 < 128"
  shows "str9cmp m i c0 c1 c2 c3 c4 c5 c6 c7 c8 \<longleftrightarrow>
    m i = c0 \<and> m (i + 1) = c1 \<and> m (i + 2) = c2 \<and> m (i + 3) = c3 \<and>
    m (i + 4) = c4 \<and> m (i + 5) = c5 \<and> m (i + 6) = c6 \<and> m (i + 7) = c7 \<and> m (i + 8) = c8"
  using assms by (auto simp: str9cmp_def to_uint32_def pack32_eq add.assoc add.commute add.left_commute)

end
