(* ===== verification/Htparse.thy ===== *)
theory Htparse
  imports Htparse_Types
begin

text \<open>
  \<^verbatim>\<open>htparser_run\<close> of \<^verbatim>\<open>client/htparse/htparse.c\<close>: one definition per \<^verbatim>\<open>case\<close> of the switch over
  \<^verbatim>\<open>p->state\<close>, the switch, the loop, and the function.

  A turn of the loop ends with \<^verbatim>\<open>break\<close> or with \<^verbatim>\<open>return i + 1\<close>, possibly after it changed \<^verbatim>\<open>i\<close>.
  Both are recorded with the number of input bytes the turn consumed: \<open>Next 1\<close> is a plain
  \<^verbatim>\<open>break\<close>, \<open>Next 0\<close> is \<^verbatim>\<open>i--; break\<close>, and the body states consume \<^verbatim>\<open>to_read\<close> bytes.
\<close>

unbundle bit_operations_syntax

named_theorems htp_defs \<comment> \<open>the cases of the switch\<close>

datatype 'u outcome = Next nat "'u htparser" | Ret nat "'u htparser"

section \<open>Shared steps\<close>

definition fail :: "htpparse_error \<Rightarrow> 'u htparser \<Rightarrow> 'u outcome" where
  "fail e p = Ret 1 (p\<lparr>p_error := e\<rparr>)"

text \<open>\<^verbatim>\<open>if (res) { p->error = htparse_error_user; return i + 1; } break;\<close>\<close>

definition check_res :: "int \<Rightarrow> nat \<Rightarrow> 'u htparser \<Rightarrow> 'u outcome" where
  "check_res res n p =
     (if res \<noteq> 0 then Ret n (p\<lparr>p_error := htparse_error_user\<rparr>) else Next n p)"

text \<open>
  A store at index \<open>i\<close> of \<^verbatim>\<open>p->buf\<close>. The array has 8192 elements and the field behind it, with
  no padding, is \<^verbatim>\<open>buf_idx\<close>: a store at index 8192 replaces its first byte (the least
  significant one on the little-endian machines the client runs on).
\<close>

definition buf_store :: "nat \<Rightarrow> byte \<Rightarrow> 'u htparser \<Rightarrow> 'u htparser" where
  "buf_store i ch p =
     (if i < PARSER_STACK_MAX then p\<lparr>p_buf := (p_buf p)(i := ch)\<rparr>
      else p\<lparr>p_buf_idx := p_buf_idx p - p_buf_idx p mod 256 + code ch\<rparr>)"

text \<open>\<^verbatim>\<open>p->buf[p->buf_idx++] = ch; p->buf[p->buf_idx] = '\0';\<close>\<close>

definition buf_put :: "byte \<Rightarrow> 'u htparser \<Rightarrow> 'u htparser" where
  "buf_put ch p =
     (let p = (buf_store (p_buf_idx p) ch p)\<lparr>p_buf_idx := p_buf_idx p + 1\<rparr>
      in buf_store (p_buf_idx p) NUL p)"

definition goto :: "parser_state \<Rightarrow> 'u htparser \<Rightarrow> 'u outcome" where
  "goto st p = Next 1 (p\<lparr>p_state := st\<rparr>)"

definition upper_or_underscore :: "byte \<Rightarrow> bool" where
  "upper_or_underscore ch = (\<not> ((code ch < 65 \<or> 90 < code ch) \<and> ch \<noteq> CHR ''_''))"

text \<open>\<^verbatim>\<open>c = (unsigned char)(ch | 0x20); if (c >= 'a' && c <= 'z')\<close>\<close>

definition letter :: "byte \<Rightarrow> bool" where
  "letter ch = (97 \<le> code ch OR 0x20 \<and> code ch OR 0x20 \<le> 122)"

definition off_ptr :: "nat option \<Rightarrow> hook_ptr" where
  "off_ptr off = (case off of None \<Rightarrow> NullPtr | Some i \<Rightarrow> BufPtr i)"

definition off_num :: "nat option \<Rightarrow> nat" where
  "off_num off = (case off of None \<Rightarrow> 0 | Some i \<Rightarrow> i)"

text \<open>\<^verbatim>\<open>&p->buf[p->buf_idx] - p->x_offset\<close>, passed as a \<^verbatim>\<open>size_t\<close>.\<close>

definition len_from :: "'u htparser \<Rightarrow> nat option \<Rightarrow> 64 word" where
  "len_from p off = of_int (int (p_buf_idx p) - int (off_num off))"

abbreviation idx64 :: "'u htparser \<Rightarrow> 64 word" where
  "idx64 p \<equiv> of_nat (p_buf_idx p)"

section \<open>Request line\<close>

definition st_start :: "'u htparse_hooks \<Rightarrow> byte \<Rightarrow> 'u htparser \<Rightarrow> 'u outcome" where
  "st_start hooks ch p =
     (let p = p\<lparr>p_flags := {}\<rparr> in
      if ch = CR \<or> ch = LF then Next 1 p
      else if \<not> upper_or_underscore ch then fail htparse_error_inval_reqline p
      else
        let (res, p) = run_hook (hk_msg_begin hooks) p;
            p = buf_put ch p
        in if p_type p = htp_type_request then check_res res 1 (p\<lparr>p_state := s_method\<rparr>)
           else if p_type p = htp_type_response \<and> ch = CHR ''H''
             then check_res res 1 (p\<lparr>p_state := s_http_H\<rparr>)
           else fail htparse_error_inval_reqline p)"

text \<open>The switch over \<^verbatim>\<open>p->buf_idx\<close> that recognises the method; \<open>m\<close> is \<^verbatim>\<open>p->buf\<close>.\<close>

definition method_of :: "(nat \<Rightarrow> byte) \<Rightarrow> nat \<Rightarrow> htp_method \<Rightarrow> htp_method" where
  "method_of m n old =
     (if n = 3 then
        (if str4cmp m 0 (CHR ''G'') (CHR ''E'') (CHR ''T'') NUL then htp_method_GET
         else if str4cmp m 0 (CHR ''P'') (CHR ''U'') (CHR ''T'') NUL then htp_method_PUT
         else old)
      else if n = 4 then
        (if m 1 = CHR ''O'' then
           (if str4cmp m 0 (CHR ''P'') (CHR ''O'') (CHR ''S'') (CHR ''T'') then htp_method_POST
            else if str4cmp m 0 (CHR ''C'') (CHR ''O'') (CHR ''P'') (CHR ''Y'') then htp_method_COPY
            else if str4cmp m 0 (CHR ''M'') (CHR ''O'') (CHR ''V'') (CHR ''E'') then htp_method_MOVE
            else if str4cmp m 0 (CHR ''L'') (CHR ''O'') (CHR ''C'') (CHR ''K'') then htp_method_LOCK
            else old)
         else if str4cmp m 0 (CHR ''H'') (CHR ''E'') (CHR ''A'') (CHR ''D'') then htp_method_HEAD
         else old)
      else if n = 5 then
        (if str5cmp m 0 (CHR ''M'') (CHR ''K'') (CHR ''C'') (CHR ''O'') (CHR ''L'')
           then htp_method_MKCOL
         else if str5cmp m 0 (CHR ''T'') (CHR ''R'') (CHR ''A'') (CHR ''C'') (CHR ''E'')
           then htp_method_TRACE
         else old)
      else if n = 6 then
        (if str6cmp m 0 (CHR ''D'') (CHR ''E'') (CHR ''L'') (CHR ''E'') (CHR ''T'') (CHR ''E'')
           then htp_method_DELETE
         else if str6cmp m 0 (CHR ''U'') (CHR ''N'') (CHR ''L'') (CHR ''O'') (CHR ''C'') (CHR ''K'')
           then htp_method_UNLOCK
         else old)
      else if n = 7 then
        (let old = (if str8cmp m 0 (CHR ''O'') (CHR ''P'') (CHR ''T'') (CHR ''I'') (CHR ''O'')
                         (CHR ''N'') (CHR ''S'') NUL then htp_method_OPTIONS else old)
         in if str8cmp m 0 (CHR ''C'') (CHR ''O'') (CHR ''N'') (CHR ''N'') (CHR ''E'') (CHR ''C'')
              (CHR ''T'') NUL then htp_method_CONNECT else old)
      else if n = 8 then
        (if str8cmp m 0 (CHR ''P'') (CHR ''R'') (CHR ''O'') (CHR ''P'') (CHR ''F'') (CHR ''I'')
              (CHR ''N'') (CHR ''D'') then htp_method_PROPFIND else old)
      else if n = 9 then
        (if str9cmp m 0 (CHR ''P'') (CHR ''R'') (CHR ''O'') (CHR ''P'') (CHR ''P'') (CHR ''A'')
              (CHR ''T'') (CHR ''C'') (CHR ''H'') then htp_method_PROPPATCH else old)
      else old)"

definition st_method :: "'u htparse_hooks \<Rightarrow> byte \<Rightarrow> 'u htparser \<Rightarrow> 'u outcome" where
  "st_method hooks ch p =
     (if ch = CHR '' '' then
        let p = p\<lparr>p_method := method_of (p_buf p) (p_buf_idx p) (p_method p)\<rparr>;
            (res, p) = run_data_hook (hk_method hooks) p (BufPtr 0) (idx64 p);
            p = p\<lparr>p_buf_idx := 0, p_state := s_spaces_before_uri\<rparr>
        in check_res res 1 p
      else if \<not> upper_or_underscore ch then fail htparse_error_inval_method p
      else Next 1 (buf_put ch p))"

definition st_spaces_before_uri :: "byte \<Rightarrow> 'u htparser \<Rightarrow> 'u outcome" where
  "st_spaces_before_uri ch p =
     (if ch = CHR '' '' then Next 1 p
      else if ch = CHR ''/'' then
        goto s_after_slash_in_uri (buf_put ch (p\<lparr>p_path_offset := Some (p_buf_idx p)\<rparr>))
      else if letter ch then
        (if p_method p = htp_method_CONNECT then
           goto s_after_slash_in_uri (buf_put ch (p\<lparr>p_path_offset := Some (p_buf_idx p)\<rparr>))
         else goto s_schema (buf_put ch (p\<lparr>p_scheme_offset := Some (p_buf_idx p)\<rparr>)))
      else fail htparse_error_inval_reqline p)"

definition scheme_of :: "(nat \<Rightarrow> byte) \<Rightarrow> nat \<Rightarrow> nat \<Rightarrow> htp_scheme" where
  "scheme_of m off n =
     (if n = 3 then
        (if str4cmp m off (CHR ''f'') (CHR ''t'') (CHR ''p'') (CHR '' '') then htp_scheme_ftp
         else if str4cmp m off (CHR ''n'') (CHR ''f'') (CHR ''s'') (CHR '' '') then htp_scheme_nfs
         else htp_scheme_unknown)
      else if n = 4 then
        (if str4cmp m off (CHR ''h'') (CHR ''t'') (CHR ''t'') (CHR ''p'') then htp_scheme_http
         else htp_scheme_unknown)
      else if n = 5 then
        (if str5cmp m off (CHR ''h'') (CHR ''t'') (CHR ''t'') (CHR ''p'') (CHR ''s'')
           then htp_scheme_https
         else htp_scheme_unknown)
      else htp_scheme_unknown)"

definition st_schema :: "'u htparse_hooks \<Rightarrow> byte \<Rightarrow> 'u htparser \<Rightarrow> 'u outcome" where
  "st_schema hooks ch p =
     (if letter ch then Next 1 (buf_put ch p)
      else if ch = CHR '':'' then
        let p = p\<lparr>p_scheme := scheme_of (p_buf p) (off_num (p_scheme_offset p)) (p_buf_idx p)\<rparr>;
            (res, p) = run_data_hook (hk_scheme hooks) p (off_ptr (p_scheme_offset p)) (idx64 p);
            p = (buf_put ch p)\<lparr>p_state := s_schema_slash\<rparr>
        in check_res res 1 p
      else fail htparse_error_inval_schema p)"

definition st_schema_slash :: "byte \<Rightarrow> 'u htparser \<Rightarrow> 'u outcome" where
  "st_schema_slash ch p =
     (if ch = CHR ''/'' then goto s_schema_slash_slash (buf_put ch p)
      else fail htparse_error_inval_schema p)"

definition st_schema_slash_slash :: "byte \<Rightarrow> 'u htparser \<Rightarrow> 'u outcome" where
  "st_schema_slash_slash ch p =
     (if ch = CHR ''/'' then
        let p = buf_put ch p in goto s_host (p\<lparr>p_host_offset := Some (p_buf_idx p)\<rparr>)
      else fail htparse_error_inval_schema p)"

definition st_host :: "'u htparse_hooks \<Rightarrow> byte \<Rightarrow> 'u htparser \<Rightarrow> 'u outcome" where
  "st_host hooks ch p =
     (if letter ch then Next 1 (buf_put ch p)
      else if is_digit ch \<or> ch = CHR ''.'' \<or> ch = CHR ''-'' then Next 1 (buf_put ch p)
      else
        let (res, p) = run_data_hook (hk_host hooks) p (off_ptr (p_host_offset p))
                         (len_from p (p_host_offset p))
        in if ch = CHR '':'' then
             let p = buf_put ch p
             in check_res res 1 (p\<lparr>p_port_offset := Some (p_buf_idx p), p_state := s_port\<rparr>)
           else if ch = CHR ''/'' then
             let p = buf_put ch (p\<lparr>p_path_offset := Some (p_buf_idx p)\<rparr>)
             in check_res res 1 (p\<lparr>p_state := s_after_slash_in_uri\<rparr>)
           else if ch = CHR '' '' then check_res res 1 (p\<lparr>p_state := s_http_09\<rparr>)
           else fail htparse_error_inval_schema p)"

definition st_port :: "'u htparse_hooks \<Rightarrow> byte \<Rightarrow> 'u htparser \<Rightarrow> 'u outcome" where
  "st_port hooks ch p =
     (if is_digit ch then Next 1 (buf_put ch p)
      else
        let (res, p) = run_data_hook (hk_port hooks) p (BufPtr 0) (idx64 p)
        in if ch = CHR ''/'' then
             let p = buf_put ch p
             in check_res res 1 (p\<lparr>p_path_offset := Some (p_buf_idx p - 1),
                  p_state := s_after_slash_in_uri\<rparr>)
           else if ch = CHR '' '' then
             check_res res 1 (p\<lparr>p_state := s_http_09, p_buf_idx := 0\<rparr>)
           else fail htparse_error_inval_reqline p)"

text \<open>
  The end of the URI at a space: the hook for the arguments or the path with its pointer
  and length, then the hook for the whole URI.
\<close>

definition end_uri ::
  "'u htparse_hooks \<Rightarrow> 'u htparse_data_hook option \<Rightarrow> hook_ptr \<Rightarrow> 64 word \<Rightarrow> 'u htparser \<Rightarrow> 'u outcome" where
  "end_uri hooks hk s l p =
     (let (r1, p) = run_data_hook hk p s l;
          (r2, p) = run_data_hook (hk_uri hooks) p (BufPtr 0) (idx64 p)
      in check_res (if r1 \<noteq> 0 \<or> r2 \<noteq> 0 then 1 else 0) 1 (p\<lparr>p_buf_idx := 0, p_state := s_http_09\<rparr>))"

definition st_after_slash_in_uri :: "'u htparse_hooks \<Rightarrow> byte \<Rightarrow> 'u htparser \<Rightarrow> 'u outcome" where
  "st_after_slash_in_uri hooks ch p =
     (if is_usual ch then goto s_check_uri (buf_put ch p)
      else if ch = CHR '' '' then
        end_uri hooks (hk_path hooks) (off_ptr (p_path_offset p)) (idx64 p) p
      else if ch = CR then goto s_almost_done (p\<lparr>p_minor := 9\<rparr>)
      else if ch = LF then goto s_hdrline_start (p\<lparr>p_minor := 9\<rparr>)
      else if ch \<in> set ''.%/#'' then goto s_uri (buf_put ch p)
      else if ch = CHR ''?'' then
        let (res, p) = run_data_hook (hk_path hooks) p (BufPtr 0) (idx64 p);
            p = buf_put ch p
        in check_res res 1 (p\<lparr>p_args_offset := Some (p_buf_idx p), p_state := s_uri\<rparr>)
      else goto s_check_uri (buf_put ch p))"

definition st_check_uri :: "'u htparse_hooks \<Rightarrow> byte \<Rightarrow> 'u htparser \<Rightarrow> 'u outcome" where
  "st_check_uri hooks ch p =
     (if is_usual ch then Next 1 (buf_put ch p)
      else if ch = CHR '' '' then
        (if p_args_offset p \<noteq> None
         then end_uri hooks (hk_args hooks) (off_ptr (p_args_offset p)) (idx64 p) p
         else end_uri hooks (hk_path hooks) (BufPtr 0) (idx64 p) p)
      else if ch = CHR ''/'' then goto s_after_slash_in_uri (buf_put ch p)
      else if ch = CR then goto s_almost_done (p\<lparr>p_minor := 9, p_buf_idx := 0\<rparr>)
      else if ch = LF then goto s_hdrline_start (p\<lparr>p_minor := 9, p_buf_idx := 0\<rparr>)
      else
        let (res, p) =
              (if ch = CHR ''?'' then
                 let (res, p) = run_data_hook (hk_path hooks) p (off_ptr (p_path_offset p))
                                  (len_from p (p_path_offset p))
                 in (res, p\<lparr>p_args_offset := Some (p_buf_idx p)\<rparr>)
               else (0, p))
        in check_res res 1 ((buf_put ch p)\<lparr>p_state := s_uri\<rparr>))"

definition st_uri :: "'u htparse_hooks \<Rightarrow> byte \<Rightarrow> 'u htparser \<Rightarrow> 'u outcome" where
  "st_uri hooks ch p =
     (if is_usual ch then Next 1 (buf_put ch p)
      else if ch = CHR '' '' then
        (if p_args_offset p \<noteq> None
         then end_uri hooks (hk_args hooks) (off_ptr (p_args_offset p)) (len_from p (p_args_offset p)) p
         else end_uri hooks (hk_path hooks) (off_ptr (p_path_offset p)) (len_from p (p_path_offset p)) p)
      else if ch = CR then goto s_almost_done (p\<lparr>p_minor := 9, p_buf_idx := 0\<rparr>)
      else if ch = LF then goto s_hdrline_start (p\<lparr>p_minor := 9, p_buf_idx := 0\<rparr>)
      else Next 1 (buf_put ch p))"

section \<open>Version and status line\<close>

definition st_http_09 :: "byte \<Rightarrow> 'u htparser \<Rightarrow> 'u outcome" where
  "st_http_09 ch p =
     (if ch = CHR '' '' then Next 1 p
      else if ch = CR then goto s_almost_done (p\<lparr>p_minor := 9, p_buf_idx := 0\<rparr>)
      else if ch = LF then goto s_hdrline_start (p\<lparr>p_minor := 9, p_buf_idx := 0\<rparr>)
      else if ch = CHR ''H'' then goto s_http_H (p\<lparr>p_buf_idx := 0\<rparr>)
      else fail htparse_error_inval_proto p)"

definition st_http_H :: "byte \<Rightarrow> 'u htparser \<Rightarrow> 'u outcome" where
  "st_http_H ch p =
     (if ch = CHR ''T'' then goto s_http_HT p else fail htparse_error_inval_proto p)"

definition st_http_HT :: "byte \<Rightarrow> 'u htparser \<Rightarrow> 'u outcome" where
  "st_http_HT ch p =
     (if ch = CHR ''T'' then goto s_http_HTT p else fail htparse_error_inval_proto p)"

definition st_http_HTT :: "byte \<Rightarrow> 'u htparser \<Rightarrow> 'u outcome" where
  "st_http_HTT ch p =
     (if ch = CHR ''P'' then goto s_http_HTTP p else fail htparse_error_inval_proto p)"

definition st_http_HTTP :: "byte \<Rightarrow> 'u htparser \<Rightarrow> 'u outcome" where
  "st_http_HTTP ch p =
     (if ch = CHR ''/'' then goto s_first_major_digit p else fail htparse_error_inval_proto p)"

text \<open>\<^verbatim>\<open>ch - '0'\<close> in the width of the field it is added to.\<close>

abbreviation digit_word :: "byte \<Rightarrow> 'a::len word" where
  "digit_word ch \<equiv> of_nat (digit_val ch)"

definition st_first_major_digit :: "byte \<Rightarrow> 'u htparser \<Rightarrow> 'u outcome" where
  "st_first_major_digit ch p =
     (if code ch < 49 \<or> 57 < code ch then fail htparse_error_inval_ver p
      else goto s_major_digit (p\<lparr>p_major := digit_word ch\<rparr>))"

definition st_major_digit :: "byte \<Rightarrow> 'u htparser \<Rightarrow> 'u outcome" where
  "st_major_digit ch p =
     (if ch = CHR ''.'' then goto s_first_minor_digit p
      else if \<not> is_digit ch then fail htparse_error_inval_ver p
      else Next 1 (p\<lparr>p_major := p_major p * 10 + digit_word ch\<rparr>))"

definition st_first_minor_digit :: "byte \<Rightarrow> 'u htparser \<Rightarrow> 'u outcome" where
  "st_first_minor_digit ch p =
     (if \<not> is_digit ch then fail htparse_error_inval_ver p
      else goto s_minor_digit (p\<lparr>p_minor := digit_word ch\<rparr>))"

definition st_minor_digit :: "byte \<Rightarrow> 'u htparser \<Rightarrow> 'u outcome" where
  "st_minor_digit ch p =
     (if ch = CHR '' '' then
        (case p_type p of
           htp_type_request \<Rightarrow> goto s_spaces_after_digit p
         | htp_type_response \<Rightarrow> goto s_status (p\<lparr>p_status := 0\<rparr>))
      else if ch = CR then goto s_almost_done p
      else if ch = LF then goto s_hdrline_start p
      else if \<not> is_digit ch then fail htparse_error_inval_ver p
      else Next 1 (p\<lparr>p_minor := p_minor p * 10 + digit_word ch\<rparr>))"

definition st_status :: "byte \<Rightarrow> 'u htparser \<Rightarrow> 'u outcome" where
  "st_status ch p =
     (if ch = CHR '' '' then (if p_status p \<noteq> 0 then goto s_status_text p else Next 1 p)
      else if \<not> is_digit ch then fail htparse_error_status p
      else
        let p = p\<lparr>p_status := p_status p * 10 + digit_word ch,
                  p_status_count := p_status_count p + 1\<rparr>
        in if p_status_count p = 3 then goto s_space_after_status p else Next 1 p)"

definition st_space_after_status :: "byte \<Rightarrow> 'u htparser \<Rightarrow> 'u outcome" where
  "st_space_after_status ch p =
     (if ch = CHR '' '' then goto s_status_text p
      else if ch = CR then goto s_almost_done p
      else if ch = LF then goto s_hdrline_start p
      else fail htparse_error_generic p)"

definition st_status_text :: "byte \<Rightarrow> 'u htparser \<Rightarrow> 'u outcome" where
  "st_status_text ch p =
     (if ch = CR then goto s_almost_done p
      else if ch = LF then goto s_hdrline_start p
      else Next 1 p)"

definition st_spaces_after_digit :: "byte \<Rightarrow> 'u htparser \<Rightarrow> 'u outcome" where
  "st_spaces_after_digit ch p =
     (if ch = CHR '' '' then Next 1 p
      else if ch = CR then goto s_almost_done p
      else if ch = LF then goto s_hdrline_start p
      else fail htparse_error_inval_ver p)"

text \<open>The result of \<^verbatim>\<open>on_hdrs_begin\<close> is stored and not tested.\<close>

definition st_almost_done :: "'u htparse_hooks \<Rightarrow> byte \<Rightarrow> 'u htparser \<Rightarrow> 'u outcome" where
  "st_almost_done hooks ch p =
     (if ch = LF then
        (if p_type p = htp_type_response \<and> 100 \<le> p_status p \<and> p_status p < 200
         then goto s_start (p\<lparr>p_status := 0, p_status_count := 0\<rparr>)
         else Next 1 (snd (run_hook (hk_hdrs_begin hooks) (p\<lparr>p_state := s_done\<rparr>))))
      else fail htparse_error_inval_reqline p)"

section \<open>Header lines\<close>

definition st_hdrline_start :: "byte \<Rightarrow> 'u htparser \<Rightarrow> 'u outcome" where
  "st_hdrline_start ch p =
     (let p = p\<lparr>p_buf_idx := 0\<rparr> in
      if ch = CR then goto s_hdrline_hdr_almost_done p
      else if ch = LF then goto s_hdrline_hdr_done p
      else goto s_hdrline_hdr_key (buf_put ch p))"

definition st_done :: "'u htparse_hooks \<Rightarrow> byte \<Rightarrow> 'u htparser \<Rightarrow> 'u outcome" where
  "st_done hooks ch p =
     (if ch = CR then
        let (res, p) = run_hook (hk_hdrs_complete hooks) (p\<lparr>p_state := s_hdrline_almost_done\<rparr>)
        in check_res res 1 p
      else if ch = LF then Ret 1 p
      else st_hdrline_start ch p)"

text \<open>The switch over \<^verbatim>\<open>p->buf_idx + 1\<close> that classifies the header name.\<close>

definition heval_of :: "(nat \<Rightarrow> byte) \<Rightarrow> nat \<Rightarrow> eval_hdr_val" where
  "heval_of m n =
     (if n + 1 = 5 \<and> strcaseeq m 0 ''host'' then eval_hdr_val_hostname
      else if n + 1 = 11 \<and> strcaseeq m 0 ''connection'' then eval_hdr_val_connection
      else if n + 1 = 13 \<and> strcaseeq m 0 ''content-type'' then eval_hdr_val_content_type
      else if n + 1 = 15 \<and> strcaseeq m 0 ''content-length'' then eval_hdr_val_content_length
      else if n + 1 = 17 \<and> strcaseeq m 0 ''proxy-connection'' then eval_hdr_val_proxy_connection
      else if n + 1 = 18 \<and> strcaseeq m 0 ''transfer-encoding'' then eval_hdr_val_transfer_encoding
      else eval_hdr_val_none)"

definition st_hdrline_hdr_key :: "'u htparse_hooks \<Rightarrow> byte \<Rightarrow> 'u htparser \<Rightarrow> 'u outcome" where
  "st_hdrline_hdr_key hooks ch p =
     (if ch = CHR '':'' then
        let (res, p) = run_data_hook (hk_hdr_key hooks) p (BufPtr 0) (idx64 p);
            p = p\<lparr>p_heval := heval_of (p_buf p) (p_buf_idx p)\<rparr>
        in check_res res 1 (p\<lparr>p_buf_idx := 0, p_state := s_hdrline_hdr_space_before_val\<rparr>)
      else if ch = CR then goto s_hdrline_hdr_almost_done p
      else if ch = LF then goto s_hdrline_hdr_done p
      else Next 1 (buf_put ch p))"

text \<open>An empty value: the result of the hook is stored and not tested.\<close>

definition st_hdrline_hdr_space_before_val :: "'u htparse_hooks \<Rightarrow> byte \<Rightarrow> 'u htparser \<Rightarrow> 'u outcome" where
  "st_hdrline_hdr_space_before_val hooks ch p =
     (if ch = CHR '' '' then Next 1 p
      else if ch = CR \<or> ch = LF then
        let p = snd (run_data_hook (hk_hdr_val hooks) p (BufPtr 0) (idx64 p))
        in goto (if ch = CR then s_hdrline_hdr_almost_done else s_hdrline_hdr_done) (p\<lparr>p_buf_idx := 0\<rparr>)
      else goto s_hdrline_hdr_val (buf_put ch p))"

definition buf_text :: "'u htparser \<Rightarrow> string" where
  "buf_text p = map (p_buf p) [0..<p_buf_idx p]"

text \<open>
  The switch over \<^verbatim>\<open>p->heval\<close> at the end of a value, on the result \<^verbatim>\<open>res\<close> of the value hook:
  \<open>Inl\<close> is the early return, \<open>Inr\<close> the result and the parser behind the switch.
\<close>

definition eval_hdr :: "'u htparse_hooks \<Rightarrow> int \<Rightarrow> 'u htparser \<Rightarrow> 'u htparser + (int \<times> 'u htparser)" where
  "eval_hdr hooks res p =
     (case p_heval p of
        eval_hdr_val_hostname \<Rightarrow> Inr (run_data_hook (hk_hostname hooks) p (BufPtr 0) (idx64 p))
      | eval_hdr_val_content_length \<Rightarrow>
          (let (v, err) = str_to_uint64 (buf_text p);
               p = p\<lparr>p_content_len := v\<rparr>
           in if err then Inl (p\<lparr>p_error := htparse_error_too_big\<rparr>)
              else Inr (res, p\<lparr>p_flags := insert parser_flag_content_length (p_flags p)\<rparr>))
      | eval_hdr_val_connection \<Rightarrow>
          Inr (res,
            if p_buf p 0 = CHR ''K'' \<or> p_buf p 0 = CHR ''k'' then
              (if strcaseeq (p_buf p) 0 ''keep-alive''
               then p\<lparr>p_flags := insert parser_flag_connection_keep_alive (p_flags p)\<rparr> else p)
            else if p_buf p 0 = CHR ''c'' then
              (if strcaseeq (p_buf p) 0 ''close''
               then p\<lparr>p_flags := insert parser_flag_connection_close (p_flags p)\<rparr> else p)
            else p)
      | eval_hdr_val_transfer_encoding \<Rightarrow>
          Inr (res, if strcaseeq (p_buf p) 0 ''chunked''
                    then p\<lparr>p_flags := insert parser_flag_chunked (p_flags p)\<rparr> else p)
      | eval_hdr_val_content_type \<Rightarrow>
          Inr (res, if (p_buf p 0 = CHR ''m'' \<or> p_buf p 0 = CHR ''M'') \<and>
                       str8cmp (p_buf p) 1 (CHR ''u'') (CHR ''l'') (CHR ''t'') (CHR ''i'')
                         (CHR ''p'') (CHR ''a'') (CHR ''r'') (CHR ''t'')
                    then p\<lparr>p_multipart := 1\<rparr> else p)
      | _ \<Rightarrow> Inr (res, p))"

definition st_hdrline_hdr_val :: "'u htparse_hooks \<Rightarrow> byte \<Rightarrow> 'u htparser \<Rightarrow> 'u outcome" where
  "st_hdrline_hdr_val hooks ch p =
     (if ch = CR \<or> ch = LF then
        let (res, p) = run_data_hook (hk_hdr_val hooks) p (BufPtr 0) (idx64 p)
        in case eval_hdr hooks res p of
             Inl p \<Rightarrow> Ret 1 p
           | Inr (res, p) \<Rightarrow>
               check_res res 1 (p\<lparr>p_state := (if ch = CR then s_hdrline_hdr_almost_done
                                             else s_hdrline_hdr_done), p_buf_idx := 0\<rparr>)
      else Next 1 (buf_put ch p))"

definition st_hdrline_hdr_almost_done :: "'u htparse_hooks \<Rightarrow> byte \<Rightarrow> 'u htparser \<Rightarrow> 'u outcome" where
  "st_hdrline_hdr_almost_done hooks ch p =
     (if ch = LF then
        (if parser_flag_trailing \<in> p_flags p then
           let (res, p) = run_hook (hk_msg_complete hooks) p
           in check_res res 1 (p\<lparr>p_state := s_start\<rparr>)
         else goto s_hdrline_hdr_done p)
      else fail htparse_error_inval_hdr p)"

definition st_hdrline_hdr_done :: "'u htparse_hooks \<Rightarrow> byte \<Rightarrow> 'u htparser \<Rightarrow> 'u outcome" where
  "st_hdrline_hdr_done hooks ch p =
     (if ch = CR then
        let (res, p) = run_hook (hk_hdrs_complete hooks) (p\<lparr>p_state := s_hdrline_almost_done\<rparr>)
        in check_res res 1 p
      else if ch = LF then Ret 1 p
      else goto s_hdrline_hdr_key (buf_put ch (p\<lparr>p_buf_idx := 0\<rparr>)))"

definition st_hdrline_almost_done :: "'u htparse_hooks \<Rightarrow> byte \<Rightarrow> 'u htparser \<Rightarrow> 'u outcome" where
  "st_hdrline_almost_done hooks ch p =
     (if ch = LF then
        let p = p\<lparr>p_buf_idx := 0\<rparr>
        in if parser_flag_trailing \<in> p_flags p then
             let (res, p) = run_hook (hk_msg_complete hooks) p in check_res res 1 (p\<lparr>p_state := s_start\<rparr>)
           else if parser_flag_chunked \<in> p_flags p then goto s_chunk_size_start p
           else if 0 < p_content_len p then goto s_body_read p
           else if parser_flag_content_length \<notin> p_flags p \<and>
                   (p_type p = htp_type_response \<and> \<not> htparser_should_keep_alive p \<or>
                    p_type p = htp_type_request \<and> p_method p = htp_method_CONNECT)
             then goto s_body_read p
           else if p_content_len p = 0 then
             let (res, p) = run_hook (hk_msg_complete hooks) p in check_res res 1 (p\<lparr>p_state := s_start\<rparr>)
           else goto s_hdrline_done p
      else fail htparse_error_inval_hdr p)"

text \<open>In the first branch the \<^verbatim>\<open>break\<close> skips the test of \<^verbatim>\<open>res\<close>.\<close>

definition st_hdrline_done :: "'u htparse_hooks \<Rightarrow> 'u htparser \<Rightarrow> 'u outcome" where
  "st_hdrline_done hooks p =
     (if parser_flag_trailing \<in> p_flags p then
        goto s_start (snd (run_hook (hk_msg_complete hooks) p))
      else if parser_flag_chunked \<in> p_flags p then Next 0 (p\<lparr>p_state := s_chunk_size_start\<rparr>)
      else if 0 < p_content_len p then Next 0 (p\<lparr>p_state := s_body_read\<rparr>)
      else if p_content_len p = 0 then
        let (res, p) = run_hook (hk_msg_complete hooks) p in check_res res 1 (p\<lparr>p_state := s_start\<rparr>)
      else Next 1 p)"

section \<open>Bodies\<close>

definition st_chunk_size_start :: "byte \<Rightarrow> 'u htparser \<Rightarrow> 'u outcome" where
  "st_chunk_size_start ch p =
     (let c = unhex ! code ch in
      if c = -1 then fail htparse_error_inval_chunk_sz p
      else goto s_chunk_size (p\<lparr>p_content_len := of_int c\<rparr>))"

definition st_chunk_size :: "byte \<Rightarrow> 'u htparser \<Rightarrow> 'u outcome" where
  "st_chunk_size ch p =
     (if ch = CR then goto s_chunk_size_almost_done p
      else
        let c = unhex ! code ch
        in if c = -1 then fail htparse_error_inval_chunk_sz p
           else Next 1 (p\<lparr>p_content_len := p_content_len p * 16 + of_int c\<rparr>))"

definition st_chunk_size_almost_done :: "'u htparse_hooks \<Rightarrow> byte \<Rightarrow> 'u htparser \<Rightarrow> 'u outcome" where
  "st_chunk_size_almost_done hooks ch p =
     (if ch \<noteq> LF then fail htparse_error_inval_chunk_sz p
      else if p_content_len p = 0 then
        let (res, p) = run_hook (hk_chunks_complete hooks) p
        in check_res res 1 (p\<lparr>p_flags := insert parser_flag_trailing (p_flags p),
             p_state := s_hdrline_start\<rparr>)
      else
        let (res, p) = run_hook (hk_new_chunk hooks) p
        in check_res res 1 (p\<lparr>p_state := s_chunk_data\<rparr>))"

text \<open>
  \<open>rest\<close> is the input from \<^verbatim>\<open>data[i]\<close> on. When \<^verbatim>\<open>to_read\<close> is 0 the loop still steps over one
  byte.
\<close>

definition st_chunk_data :: "'u htparse_hooks \<Rightarrow> byte list \<Rightarrow> 'u htparser \<Rightarrow> 'u outcome" where
  "st_chunk_data hooks rest p =
     (let to_read = min (length rest) (unat (p_content_len p));
          (res, p) = (if 0 < to_read then run_data_hook (hk_body hooks) p (DataPtr rest) (of_nat to_read)
                      else (0, p));
          p = (if of_nat to_read = p_content_len p then p\<lparr>p_state := s_chunk_data_almost_done\<rparr> else p);
          p = p\<lparr>p_content_len := p_content_len p - of_nat to_read\<rparr>
      in check_res res (max 1 to_read) p)"

definition st_chunk_data_almost_done :: "byte \<Rightarrow> 'u htparser \<Rightarrow> 'u outcome" where
  "st_chunk_data_almost_done ch p =
     (if ch \<noteq> CR then fail htparse_error_inval_chunk p else goto s_chunk_data_done p)"

definition st_chunk_data_done :: "'u htparse_hooks \<Rightarrow> byte \<Rightarrow> 'u htparser \<Rightarrow> 'u outcome" where
  "st_chunk_data_done hooks ch p =
     (if ch \<noteq> LF then fail htparse_error_inval_chunk p
      else
        let (res, p) = run_hook (hk_chunk_complete hooks) (p\<lparr>p_state := s_chunk_size_start\<rparr>)
        in check_res res 1 p)"

definition st_body_read :: "'u htparse_hooks \<Rightarrow> byte list \<Rightarrow> 'u htparser \<Rightarrow> 'u outcome" where
  "st_body_read hooks rest p =
     (let has_len = parser_flag_content_length \<in> p_flags p;
          to_read = (if has_len then min (length rest) (unat (p_content_len p)) else length rest)
      in if 0 < to_read then
           let (res, p) = run_data_hook (hk_body hooks) p (DataPtr rest) (of_nat to_read);
               p = p\<lparr>p_content_len := p_content_len p - of_nat to_read\<rparr>
           in if has_len \<and> p_content_len p = 0 then
                let (res, p) = run_hook (hk_msg_complete hooks) p
                in check_res res to_read (p\<lparr>p_state := s_start\<rparr>)
              else check_res res to_read p
         else
           let (res, p) = run_hook (hk_msg_complete hooks) p
           in check_res res 1 (p\<lparr>p_state := s_start\<rparr>))"

section \<open>The switch and the loop\<close>

fun htp_switch :: "'u htparse_hooks \<Rightarrow> parser_state \<Rightarrow> byte \<Rightarrow> byte list \<Rightarrow> 'u htparser \<Rightarrow> 'u outcome" where
  "htp_switch hooks s_start ch cs p = st_start hooks ch p"
| "htp_switch hooks s_method ch cs p = st_method hooks ch p"
| "htp_switch hooks s_spaces_before_uri ch cs p = st_spaces_before_uri ch p"
| "htp_switch hooks s_schema ch cs p = st_schema hooks ch p"
| "htp_switch hooks s_schema_slash ch cs p = st_schema_slash ch p"
| "htp_switch hooks s_schema_slash_slash ch cs p = st_schema_slash_slash ch p"
| "htp_switch hooks s_host ch cs p = st_host hooks ch p"
| "htp_switch hooks s_port ch cs p = st_port hooks ch p"
| "htp_switch hooks s_after_slash_in_uri ch cs p = st_after_slash_in_uri hooks ch p"
| "htp_switch hooks s_check_uri ch cs p = st_check_uri hooks ch p"
| "htp_switch hooks s_uri ch cs p = st_uri hooks ch p"
| "htp_switch hooks s_http_09 ch cs p = st_http_09 ch p"
| "htp_switch hooks s_http_H ch cs p = st_http_H ch p"
| "htp_switch hooks s_http_HT ch cs p = st_http_HT ch p"
| "htp_switch hooks s_http_HTT ch cs p = st_http_HTT ch p"
| "htp_switch hooks s_http_HTTP ch cs p = st_http_HTTP ch p"
| "htp_switch hooks s_first_major_digit ch cs p = st_first_major_digit ch p"
| "htp_switch hooks s_major_digit ch cs p = st_major_digit ch p"
| "htp_switch hooks s_first_minor_digit ch cs p = st_first_minor_digit ch p"
| "htp_switch hooks s_minor_digit ch cs p = st_minor_digit ch p"
| "htp_switch hooks s_status ch cs p = st_status ch p"
| "htp_switch hooks s_space_after_status ch cs p = st_space_after_status ch p"
| "htp_switch hooks s_status_text ch cs p = st_status_text ch p"
| "htp_switch hooks s_spaces_after_digit ch cs p = st_spaces_after_digit ch p"
| "htp_switch hooks s_almost_done ch cs p = st_almost_done hooks ch p"
| "htp_switch hooks s_done ch cs p = st_done hooks ch p"
| "htp_switch hooks s_hdrline_start ch cs p = st_hdrline_start ch p"
| "htp_switch hooks s_hdrline_hdr_key ch cs p = st_hdrline_hdr_key hooks ch p"
| "htp_switch hooks s_hdrline_hdr_space_before_val ch cs p = st_hdrline_hdr_space_before_val hooks ch p"
| "htp_switch hooks s_hdrline_hdr_val ch cs p = st_hdrline_hdr_val hooks ch p"
| "htp_switch hooks s_hdrline_hdr_almost_done ch cs p = st_hdrline_hdr_almost_done hooks ch p"
| "htp_switch hooks s_hdrline_hdr_done ch cs p = st_hdrline_hdr_done hooks ch p"
| "htp_switch hooks s_hdrline_almost_done ch cs p = st_hdrline_almost_done hooks ch p"
| "htp_switch hooks s_hdrline_done ch cs p = st_hdrline_done hooks p"
| "htp_switch hooks s_chunk_size_start ch cs p = st_chunk_size_start ch p"
| "htp_switch hooks s_chunk_size ch cs p = st_chunk_size ch p"
| "htp_switch hooks s_chunk_size_almost_done ch cs p = st_chunk_size_almost_done hooks ch p"
| "htp_switch hooks s_chunk_data ch cs p = st_chunk_data hooks (ch # cs) p"
| "htp_switch hooks s_chunk_data_almost_done ch cs p = st_chunk_data_almost_done ch p"
| "htp_switch hooks s_chunk_data_done ch cs p = st_chunk_data_done hooks ch p"
| "htp_switch hooks s_body_read ch cs p = st_body_read hooks (ch # cs) p"

lemmas st_defs [htp_defs] =
  st_start_def st_method_def st_spaces_before_uri_def
  st_schema_def st_schema_slash_def st_schema_slash_slash_def
  st_host_def st_port_def st_after_slash_in_uri_def
  st_check_uri_def st_uri_def st_http_09_def
  st_http_H_def st_http_HT_def st_http_HTT_def
  st_http_HTTP_def st_first_major_digit_def st_major_digit_def
  st_first_minor_digit_def st_minor_digit_def st_status_def
  st_space_after_status_def st_status_text_def st_spaces_after_digit_def
  st_almost_done_def st_hdrline_start_def st_done_def
  st_hdrline_hdr_key_def st_hdrline_hdr_space_before_val_def st_hdrline_hdr_val_def
  st_hdrline_hdr_almost_done_def st_hdrline_hdr_done_def st_hdrline_almost_done_def
  st_hdrline_done_def st_chunk_size_start_def st_chunk_size_def
  st_chunk_size_almost_done_def st_chunk_data_def st_chunk_data_almost_done_def
  st_chunk_data_done_def st_body_read_def

text \<open>How many bytes a turn of the loop consumes.\<close>

fun consumed :: "'u outcome \<Rightarrow> nat" where
  "consumed (Next n p) = n"
| "consumed (Ret n p) = n"

lemma consumed_simps [simp]:
  "consumed (fail e p) = 1"
  "consumed (goto st p) = 1"
  "consumed (check_res res n p) = n"
  by (simp_all add: fail_def goto_def check_res_def)

lemma consumed_end_uri [simp]: "consumed (end_uri hooks hk s l p) = 1"
  by (simp add: end_uri_def split: prod.splits)

lemma consumed_one:
  assumes "st \<noteq> s_hdrline_done" "st \<noteq> s_chunk_data" "st \<noteq> s_body_read"
  shows "consumed (htp_switch hooks st ch cs p) = 1"
  using assms
  by (cases st)
    (simp_all add: htp_defs Let_def split: prod.splits sum.splits htp_type.splits)

lemma consumed_body:
  "0 < consumed (st_chunk_data hooks (ch # cs) p)"
  "0 < consumed (st_body_read hooks (ch # cs) p)"
  by (simp_all add: st_chunk_data_def st_body_read_def Let_def split: prod.splits)

lemma hdrline_done_leaves:
  "st_hdrline_done hooks p = Next 0 p' \<Longrightarrow> p_state p' \<noteq> s_hdrline_done"
  by (auto simp: st_hdrline_done_def goto_def check_res_def split: if_splits prod.splits)

definition count_byte :: "'u htparser \<Rightarrow> 'u htparser" where
  "count_byte p = p\<lparr>p_total_bytes_read := p_total_bytes_read p + 1,
     p_bytes_read := p_bytes_read p + 1\<rparr>"

text \<open>
  The loop over the input, with the number of bytes it is behind when it returns. A turn
  that consumes nothing leaves \<^const>\<open>s_hdrline_done\<close>, so the loop ends.
\<close>

function (sequential) htp_loop :: "'u htparse_hooks \<Rightarrow> byte list \<Rightarrow> 'u htparser \<Rightarrow> nat \<times> 'u htparser" where
  "htp_loop hooks [] p = (0, p)"
| "htp_loop hooks (ch # cs) p =
     (if PARSER_STACK_MAX \<le> p_buf_idx p then (1, p\<lparr>p_error := htparse_error_too_big\<rparr>)
      else case htp_switch hooks (p_state p) ch cs (count_byte p) of
             Ret n q \<Rightarrow> (n, q)
           | Next n q \<Rightarrow> (let (m, r) = htp_loop hooks (drop n (ch # cs)) q in (n + m, r)))"
  by pat_completeness auto

lemma turn_progress:
  assumes "htp_switch hooks (p_state p) ch cs p' = Next n q"
  shows "0 < n \<or> p_state p = s_hdrline_done \<and> p_state q \<noteq> s_hdrline_done"
proof -
  have n: "consumed (htp_switch hooks (p_state p) ch cs p') = n" using assms by simp
  consider "p_state p = s_hdrline_done" | "p_state p = s_chunk_data" | "p_state p = s_body_read"
    | "consumed (htp_switch hooks (p_state p) ch cs p') = 1"
    using consumed_one [of "p_state p"] by blast
  then show ?thesis
  proof cases
    case 1
    with assms show ?thesis by (cases n) (auto dest: hdrline_done_leaves)
  next
    case 2
    with n show ?thesis using consumed_body(1) [of hooks ch cs p'] by simp
  next
    case 3
    with n show ?thesis using consumed_body(2) [of hooks ch cs p'] by simp
  qed (use n in simp)
qed

termination htp_loop
proof (relation "measure (\<lambda>(hooks, data, p). 2 * length data + (if p_state p = s_hdrline_done then 1 else 0))")
  fix hooks :: "'u htparse_hooks" and ch cs p n q
  assume "htp_switch hooks (p_state p) ch cs (count_byte p) = Next n q"
  from turn_progress [OF this]
  show "((hooks, drop n (ch # cs), q), hooks, ch # cs, p) \<in>
    measure (\<lambda>(hooks, data, p). 2 * length data + (if p_state p = s_hdrline_done then 1 else 0))"
    by (cases n) auto
qed simp

declare htp_loop.simps [simp del]

definition htparser_run :: "'u htparser \<Rightarrow> 'u htparse_hooks \<Rightarrow> byte list \<Rightarrow> nat \<times> 'u htparser" where
  "htparser_run p hooks data =
     htp_loop hooks data (p\<lparr>p_error := htparse_error_none, p_bytes_read := 0\<rparr>)"

text \<open>A hook table without hooks, and the definitions that evaluate a run on given input.\<close>

definition no_hooks :: "'u htparse_hooks" where
  "no_hooks = \<lparr>hk_msg_begin = None, hk_method = None, hk_scheme = None, hk_host = None,
    hk_port = None, hk_path = None, hk_args = None, hk_uri = None, hk_hdrs_begin = None,
    hk_hdr_key = None, hk_hdr_val = None, hk_hostname = None, hk_hdrs_complete = None,
    hk_new_chunk = None, hk_chunk_complete = None, hk_chunks_complete = None, hk_body = None,
    hk_msg_complete = None\<rparr>"

lemmas htp_eval = htparser_run_def htparser_init_def htp_loop.simps htp_defs count_byte_def
  PARSER_STACK_MAX_def buf_put_def buf_store_def Let_def goto_def check_res_def run_hook_def
  run_data_hook_def upper_or_underscore_def method_of_def is_usual_def usual_def
  letter_def is_digit_def digit_val_def heval_of_def strcaseeq.simps tolower_def end_uri_def
  eval_hdr_def str_to_uint64_def buf_text_def

end
