(* ===== verification/Htparse_Inv.thy ===== *)
theory Htparse_Inv
  imports Htparse
begin

text \<open>
  Invariants of the parser structure across \<^const>\<open>htparser_run\<close>, for any hooks and any input:
  what a turn of the loop keeps is kept by the whole run (locale \<open>turn_invariant\<close>), and the
  locale is interpreted on the well-formedness of the structure and on the recognised schemes.
\<close>

section \<open>The buffer\<close>

text \<open>
  Below the bound a store is in the array, except for the terminator behind the last
  element, which leaves the index as it is: the low byte it overwrites is already 0.
\<close>

lemma buf_put_eq:
  assumes "p_buf_idx p < PARSER_STACK_MAX"
  shows "buf_put ch p = p\<lparr>p_buf := (if p_buf_idx p + 1 < PARSER_STACK_MAX
      then (p_buf p)(p_buf_idx p := ch, p_buf_idx p + 1 := NUL) else (p_buf p)(p_buf_idx p := ch)),
    p_buf_idx := p_buf_idx p + 1\<rparr>"
proof (cases "p_buf_idx p + 1 < PARSER_STACK_MAX")
  case True
  then show ?thesis by (simp add: buf_put_def buf_store_def)
next
  case False
  with assms have "p_buf_idx p = 8191" by (simp add: PARSER_STACK_MAX_def)
  then show ?thesis
    by (simp add: buf_put_def buf_store_def PARSER_STACK_MAX_def Let_def del: One_nat_def)
qed

lemma buf_put_frame [simp]:
  "p_error (buf_put ch p) = p_error p" "p_state (buf_put ch p) = p_state p"
  "p_flags (buf_put ch p) = p_flags p" "p_heval (buf_put ch p) = p_heval p"
  "p_type (buf_put ch p) = p_type p" "p_scheme (buf_put ch p) = p_scheme p"
  "p_method (buf_put ch p) = p_method p" "p_multipart (buf_put ch p) = p_multipart p"
  "p_major (buf_put ch p) = p_major p" "p_minor (buf_put ch p) = p_minor p"
  "p_content_len (buf_put ch p) = p_content_len p" "p_bytes_read (buf_put ch p) = p_bytes_read p"
  "p_total_bytes_read (buf_put ch p) = p_total_bytes_read p" "p_status (buf_put ch p) = p_status p"
  "p_status_count (buf_put ch p) = p_status_count p"
  "p_scheme_offset (buf_put ch p) = p_scheme_offset p" "p_host_offset (buf_put ch p) = p_host_offset p"
  "p_port_offset (buf_put ch p) = p_port_offset p" "p_path_offset (buf_put ch p) = p_path_offset p"
  "p_args_offset (buf_put ch p) = p_args_offset p" "p_userdata (buf_put ch p) = p_userdata p"
  by (simp_all add: buf_put_def buf_store_def Let_def)

lemma buf_put_idx [simp]:
  "p_buf_idx p < PARSER_STACK_MAX \<Longrightarrow> p_buf_idx (buf_put ch p) = p_buf_idx p + 1"
  by (simp add: buf_put_eq)

lemma buf_put_end:
  "p_buf_idx p + 1 < PARSER_STACK_MAX \<Longrightarrow> p_buf (buf_put ch p) (p_buf_idx p + 1) = NUL"
  by (simp add: buf_put_eq)

section \<open>Outcomes of a turn\<close>

text \<open>The result and the new user data of a hook; a hook changes nothing else.\<close>

definition hook_res :: "'u htparse_hook option \<Rightarrow> 'u htparser \<Rightarrow> int" where
  "hook_res hk p = (case hk of None \<Rightarrow> 0 | Some f \<Rightarrow> fst (f p))"

definition hook_ud :: "'u htparse_hook option \<Rightarrow> 'u htparser \<Rightarrow> 'u" where
  "hook_ud hk p = (case hk of None \<Rightarrow> p_userdata p | Some f \<Rightarrow> snd (f p))"

definition data_res :: "'u htparse_data_hook option \<Rightarrow> 'u htparser \<Rightarrow> hook_ptr \<Rightarrow> 64 word \<Rightarrow> int" where
  "data_res hk p s l = (case hk of None \<Rightarrow> 0 | Some f \<Rightarrow> fst (f p s l))"

definition data_ud :: "'u htparse_data_hook option \<Rightarrow> 'u htparser \<Rightarrow> hook_ptr \<Rightarrow> 64 word \<Rightarrow> 'u" where
  "data_ud hk p s l = (case hk of None \<Rightarrow> p_userdata p | Some f \<Rightarrow> snd (f p s l))"

lemma run_hook_pair: "run_hook hk p = (hook_res hk p, p\<lparr>p_userdata := hook_ud hk p\<rparr>)"
  by (simp add: run_hook_def hook_res_def hook_ud_def split: option.split prod.split)

lemma run_data_hook_pair:
  "run_data_hook hk p s l = (data_res hk p s l, p\<lparr>p_userdata := data_ud hk p s l\<rparr>)"
  by (simp add: run_data_hook_def data_res_def data_ud_def split: option.split prod.split)

lemmas hook_pairs = run_hook_pair run_data_hook_pair

fun result :: "'u outcome \<Rightarrow> 'u htparser" where
  "result (Next n p) = p"
| "result (Ret n p) = p"

lemma result_simps [simp]:
  "result (fail e p) = p\<lparr>p_error := e\<rparr>"
  "result (goto st p) = p\<lparr>p_state := st\<rparr>"
  by (simp_all add: fail_def goto_def)

lemma result_check_res:
  "result (check_res res n p) = p\<lparr>p_error := (if res \<noteq> 0 then htparse_error_user else p_error p)\<rparr>"
  by (simp add: check_res_def)

section \<open>Lifting from turns to runs\<close>

lemma htp_loop_induct [case_names Nil Cons]:
  assumes nil: "\<And>p. P [] p"
    and cons: "\<And>ch cs p. (\<And>n q. \<lbrakk>p_buf_idx p < PARSER_STACK_MAX;
      htp_switch hooks (p_state p) ch cs (count_byte p) = Next n q\<rbrakk> \<Longrightarrow> P (drop n (ch # cs)) q) \<Longrightarrow> P (ch # cs) p"
  shows "P data p"
proof -
  have "h = hooks \<Longrightarrow> P data p" for h
    by (induction h data p rule: htp_loop.induct) (auto intro: nil cons)
  then show ?thesis by simp
qed

lemma htp_loop_nil [simp]: "htp_loop hooks [] p = (0, p)"
  by (simp add: htp_loop.simps)

lemma htp_loop_full:
  "PARSER_STACK_MAX \<le> p_buf_idx p \<Longrightarrow>
    htp_loop hooks (ch # cs) p = (1, p\<lparr>p_error := htparse_error_too_big\<rparr>)"
  by (simp add: htp_loop.simps)

lemma htp_loop_ret:
  "\<lbrakk>p_buf_idx p < PARSER_STACK_MAX; htp_switch hooks (p_state p) ch cs (count_byte p) = Ret n q\<rbrakk> \<Longrightarrow>
    htp_loop hooks (ch # cs) p = (n, q)"
  by (simp add: htp_loop.simps)

lemma htp_loop_next:
  "\<lbrakk>p_buf_idx p < PARSER_STACK_MAX; htp_switch hooks (p_state p) ch cs (count_byte p) = Next n q\<rbrakk> \<Longrightarrow>
    htp_loop hooks (ch # cs) p = (n + fst (htp_loop hooks (drop n (ch # cs)) q), snd (htp_loop hooks (drop n (ch # cs)) q))"
  by (simp add: htp_loop.simps case_prod_beta)

lemma count_byte_simps [simp]:
  "p_state (count_byte p) = p_state p" "p_buf_idx (count_byte p) = p_buf_idx p"
  "p_error (count_byte p) = p_error p"
  by (simp_all add: count_byte_def)

locale turn_invariant =
  fixes hooks :: "'u htparse_hooks" and I :: "'u htparser \<Rightarrow> bool"
  assumes frame: "I p \<Longrightarrow> I (p\<lparr>p_error := e, p_total_bytes_read := n, p_bytes_read := m\<rparr>)"
    and turn: "\<lbrakk>I p; p_buf_idx p < PARSER_STACK_MAX\<rbrakk> \<Longrightarrow> I (result (htp_switch hooks (p_state p) ch cs p))"
begin

lemma count_keeps: "I p \<Longrightarrow> I (count_byte p)"
  using frame [where e = "p_error p" and m = "p_bytes_read p + 1" and n = "p_total_bytes_read p + 1" and p = p]
  by (simp add: count_byte_def)

lemma loop_keeps: "I p \<Longrightarrow> I (snd (htp_loop hooks data p))"
proof (induction data p rule: htp_loop_induct [where hooks = hooks])
  case (Cons ch cs p)
  show ?case
  proof (cases "PARSER_STACK_MAX \<le> p_buf_idx p")
    case True
    then show ?thesis
      using frame [OF Cons.prems, where m = "p_bytes_read p" and n = "p_total_bytes_read p"] by (simp add: htp_loop_full)
  next
    case False
    then have b: "p_buf_idx p < PARSER_STACK_MAX" by simp
    have I: "I (result (htp_switch hooks (p_state p) ch cs (count_byte p)))"
      using turn [OF count_keeps [OF Cons.prems], of ch cs] b by simp
    show ?thesis
    proof (cases "htp_switch hooks (p_state p) ch cs (count_byte p)")
      case (Next n q)
      with I b Cons.IH [OF b Next] show ?thesis by (simp add: htp_loop_next)
    next
      case (Ret n q)
      with I b show ?thesis by (simp add: htp_loop_ret)
    qed
  qed
qed simp

theorem run_keeps: "I p \<Longrightarrow> I (snd (htparser_run p hooks data))"
  using frame [where p = p and e = htparse_error_none and m = 0 and n = "p_total_bytes_read p"] by (simp add: htparser_run_def loop_keeps)

end

section \<open>Well-formedness\<close>

text \<open>
  What the fields promise each other: the index stays in the array, a data pointer a state
  relies on has been set, and a state that waits for body bytes still expects some.
\<close>

definition htp_wf :: "'u htparser \<Rightarrow> bool" where
  "htp_wf p \<longleftrightarrow>
     p_buf_idx p \<le> PARSER_STACK_MAX \<and>
     p_state p \<noteq> s_hdrline_done \<and>
     (p_state p = s_spaces_before_uri \<longrightarrow> p_buf_idx p = 0) \<and>
     (p_state p = s_schema \<longrightarrow> p_scheme_offset p = Some 0) \<and>
     (p_state p = s_host \<longrightarrow> p_host_offset p \<noteq> None \<and> off_num (p_host_offset p) \<le> p_buf_idx p) \<and>
     (p_state p \<in> {s_after_slash_in_uri, s_check_uri, s_uri} \<longrightarrow>
        p_path_offset p \<noteq> None \<and> off_num (p_path_offset p) < p_buf_idx p) \<and>
     (p_state p = s_chunk_data \<longrightarrow> p_content_len p \<noteq> 0) \<and>
     (p_state p = s_body_read \<and> parser_flag_content_length \<in> p_flags p \<longrightarrow> p_content_len p \<noteq> 0)"

text \<open>What the switch over the header kind leaves unchanged.\<close>

fun eval_result :: "'u htparser + int \<times> 'u htparser \<Rightarrow> 'u htparser" where
  "eval_result (Inl p) = p"
| "eval_result (Inr (res, p)) = p"

lemma eval_hdr_frame [simp]:
  "p_state (eval_result (eval_hdr hooks res p)) = p_state p"
  "p_buf_idx (eval_result (eval_hdr hooks res p)) = p_buf_idx p"
  "p_buf (eval_result (eval_hdr hooks res p)) = p_buf p"
  "p_scheme (eval_result (eval_hdr hooks res p)) = p_scheme p"
  by (simp_all add: eval_hdr_def hook_pairs Let_def split: eval_hdr_val.split prod.split)

lemma hdr_val_cases [case_names early late more]:
  assumes "\<And>q. \<lbrakk>result (st_hdrline_hdr_val hooks ch p) = q; p_state q = p_state p; p_buf_idx q = p_buf_idx p;
      p_buf q = p_buf p; p_scheme q = p_scheme p\<rbrakk> \<Longrightarrow> thesis"
    and "\<And>q e st. \<lbrakk>st = s_hdrline_hdr_almost_done \<or> st = s_hdrline_hdr_done;
      result (st_hdrline_hdr_val hooks ch p) = q\<lparr>p_state := st, p_buf_idx := 0, p_error := e\<rparr>;
      p_buf q = p_buf p; p_scheme q = p_scheme p\<rbrakk> \<Longrightarrow> thesis"
    and "result (st_hdrline_hdr_val hooks ch p) = buf_put ch p \<Longrightarrow> thesis"
  shows thesis
proof (cases "ch = CR \<or> ch = LF")
  case True
  define o' where "o' = run_data_hook (hk_hdr_val hooks) p (BufPtr 0) (idx64 p)"
  define q where "q = eval_result (eval_hdr hooks (fst o') (snd o'))"
  have fr: "p_state q = p_state p" "p_buf_idx q = p_buf_idx p" "p_buf q = p_buf p" "p_scheme q = p_scheme p"
    by (simp_all add: q_def o'_def hook_pairs)
  show thesis
  proof (cases "eval_hdr hooks (fst o') (snd o')")
    case (Inl r)
    with True have "result (st_hdrline_hdr_val hooks ch p) = q"
      by (auto simp: st_hdrline_hdr_val_def o'_def q_def split: prod.split)
    with assms(1) fr show thesis by blast
  next
    case (Inr rq)
    with True have "\<exists>e. result (st_hdrline_hdr_val hooks ch p) =
      q\<lparr>p_state := (if ch = CR then s_hdrline_hdr_almost_done else s_hdrline_hdr_done), p_buf_idx := 0, p_error := e\<rparr>"
      by (cases rq) (auto simp: st_hdrline_hdr_val_def o'_def q_def result_check_res Let_def split: prod.split)
    with assms(2) fr show thesis by metis
  qed
next
  case False
  then show thesis by (intro assms(3)) (simp add: st_hdrline_hdr_val_def)
qed

lemma wf_turn:
  assumes wf: "htp_wf p" and idx: "p_buf_idx p < PARSER_STACK_MAX" and st: "p_state p = st"
  shows "htp_wf (result (htp_switch hooks st ch cs p))"
proof (cases "st = s_hdrline_hdr_val")
  case True
  with assms show ?thesis
    by (cases rule: hdr_val_cases [of hooks ch p]) (auto simp: htp_wf_def)
next
  case False
  with assms show ?thesis
    by (cases st)
      (simp_all add: htp_wf_def htp_defs off_num_def Let_def end_uri_def hook_pairs result_check_res word_gt_0
        split: htp_type.split)
qed

interpretation wf: turn_invariant hooks htp_wf for hooks
  by unfold_locales (simp add: htp_wf_def, simp add: wf_turn)

lemma wf_init: "htp_wf (htparser_init null t)"
  by (simp add: htp_wf_def htparser_init_def)

text \<open>A connection: the parser is fed whatever pieces arrive, errors or not.\<close>

definition feed :: "'u htparse_hooks \<Rightarrow> byte list list \<Rightarrow> 'u htparser \<Rightarrow> 'u htparser" where
  "feed hooks = fold (\<lambda>data p. snd (htparser_run p hooks data))"

context turn_invariant
begin

lemma feed_keeps: "I p \<Longrightarrow> I (feed hooks datas p)"
  by (induction datas arbitrary: p) (simp_all add: feed_def run_keeps)

end


section \<open>Return value\<close>

lemma consumed_le: "consumed (htp_switch hooks st ch cs p) \<le> Suc (length cs)"
proof (cases "st = s_hdrline_done \<or> st = s_chunk_data \<or> st = s_body_read")
  case True
  then show ?thesis
    by (auto simp: st_hdrline_done_def st_chunk_data_def st_body_read_def Let_def hook_pairs)
next
  case False
  then show ?thesis using consumed_one [of st hooks ch cs p] by simp
qed

text \<open>A turn that returns reports an error, or saw the line feed of a bare LF line end.\<close>

definition stopped :: "'u htparser \<Rightarrow> bool" where
  "stopped p \<longleftrightarrow> p_error p \<noteq> htparse_error_none \<or> p_state p \<in> {s_done, s_hdrline_hdr_done}"

fun stops_ok :: "'u outcome \<Rightarrow> bool" where
  "stops_ok (Next n p) = True"
| "stops_ok (Ret n p) = stopped p"

lemma stops_ok_simps [simp]:
  "stops_ok (fail e p) \<longleftrightarrow> e \<noteq> htparse_error_none \<or> p_state p \<in> {s_done, s_hdrline_hdr_done}"
  "stops_ok (goto st p)" "stops_ok (check_res res n p)"
  by (simp_all add: fail_def goto_def check_res_def stopped_def)

lemma eval_hdr_Inl: "eval_hdr hooks res p = Inl q \<Longrightarrow> p_error q = htparse_error_too_big"
  by (auto simp: eval_hdr_def hook_pairs Let_def split: eval_hdr_val.splits prod.splits if_splits)

lemma switch_stops: "p_state p = st \<Longrightarrow> stops_ok (htp_switch hooks st ch cs p)"
proof (cases "st = s_hdrline_hdr_val")
  case True
  then show ?thesis
    by (auto simp: st_hdrline_hdr_val_def hook_pairs stopped_def split: sum.split dest: eval_hdr_Inl)
next
  case False
  assume "p_state p = st"
  with False show ?thesis
    by (cases st) (simp_all add: htp_defs stopped_def Let_def end_uri_def hook_pairs split: htp_type.split)
qed

lemma ret_consumed:
  assumes "htp_switch hooks st ch cs p = Ret k q"
  shows "0 < k"
proof -
  consider "st = s_hdrline_done" | "st = s_chunk_data" | "st = s_body_read"
    | "consumed (htp_switch hooks st ch cs p) = 1"
    using consumed_one [of st] by blast
  then show ?thesis
    using assms consumed_body [of hooks ch cs p]
    by cases (auto simp: st_hdrline_done_def goto_def check_res_def hook_pairs split: if_splits)
qed

lemma loop_return:
  assumes "htp_loop hooks data p = (n, q)"
  shows "n \<le> length data \<and> (n < length data \<longrightarrow> stopped q) \<and> (data \<noteq> [] \<longrightarrow> 0 < n)"
  using assms
proof (induction data p arbitrary: n q rule: htp_loop_induct [where hooks = hooks])
  case (Cons ch cs p)
  let ?o = "htp_switch hooks (p_state p) ch cs (count_byte p)"
  show ?case
  proof (cases "PARSER_STACK_MAX \<le> p_buf_idx p")
    case True
    with Cons.prems show ?thesis by (auto simp: htp_loop_full stopped_def)
  next
    case False
    then have b: "p_buf_idx p < PARSER_STACK_MAX" by simp
    note le = consumed_le [of hooks "p_state p" ch cs "count_byte p"]
    note stops = switch_stops [of "count_byte p" "p_state p" hooks ch cs]
    show ?thesis
    proof (cases ?o)
      case (Ret k r)
      moreover have "0 < k"
        using Ret by (rule ret_consumed)
      ultimately show ?thesis
        using Cons.prems b le stops by (auto simp: htp_loop_ret)
    next
      case (Next k r)
      obtain m where m: "htp_loop hooks (drop k (ch # cs)) r = (m, q)" "n = k + m"
        using Cons.prems b Next by (cases "htp_loop hooks (drop k (ch # cs)) r") (auto simp: htp_loop_next)
      have "m \<le> length (drop k (ch # cs)) \<and> (m < length (drop k (ch # cs)) \<longrightarrow> stopped q) \<and>
          (drop k (ch # cs) \<noteq> [] \<longrightarrow> 0 < m)"
        by (rule Cons.IH [OF b Next m(1)])
      then show ?thesis using m le Next by (cases k) auto
    qed
  qed
qed simp

text \<open>
  C5. The return value: a run never claims more bytes than it was given and always makes
  progress; it stops before the end only with an error set, or on the line feed of an empty
  line that has no carriage return (which the code accepts in states \<^const>\<open>s_done\<close> and
  \<^const>\<open>s_hdrline_hdr_done\<close> without setting an error).
\<close>

theorem htparser_run_return:
  assumes "htparser_run p hooks data = (n, q)" "data \<noteq> []"
  shows "0 < n \<and> n \<le> length data \<and>
    (n < length data \<and> p_error q = htparse_error_none \<longrightarrow> p_state q \<in> {s_done, s_hdrline_hdr_done})"
  using loop_return [of hooks data _ n q] assms unfolding htparser_run_def by (auto simp: stopped_def)

theorem htparser_run_return_witness:
  "let r = htparser_run (htparser_init () htp_type_request) no_hooks ''GET /''
   in fst r = 5 \<and> p_state (snd r) = s_after_slash_in_uri \<and> 0 < fst r \<and> fst r \<le> length ''GET /''"
proof -
  let ?p = "htparser_init () htp_type_request"
  let ?r = "htparser_run ?p no_hooks ''GET /''"
  have "fst ?r = 5" "p_state (snd ?r) = s_after_slash_in_uri"
    by (simp_all add: htp_eval no_hooks_def)
  with htparser_run_return [of ?p no_hooks "''GET /''" "fst ?r" "snd ?r"] show ?thesis
    by (simp add: Let_def)
qed

section \<open>Schemes\<close>

text \<open>
  The table entries for \<^verbatim>\<open>ftp\<close> and \<^verbatim>\<open>nfs\<close> are compared with a fourth byte \<^verbatim>\<open>' '\<close>, where the buffer
  has its terminator.
\<close>

definition scheme_inv :: "'u htparser \<Rightarrow> bool" where
  "scheme_inv p \<longleftrightarrow> htp_wf p \<and> p_scheme p \<notin> {htp_scheme_ftp, htp_scheme_nfs} \<and>
     (p_state p = s_schema \<and> p_buf_idx p < PARSER_STACK_MAX \<longrightarrow> p_buf p (p_buf_idx p) = NUL)"

lemma scheme_of_terminated:
  "m (off + n) = NUL \<Longrightarrow> scheme_of m off n \<notin> {htp_scheme_ftp, htp_scheme_nfs}"
  by (auto simp: scheme_of_def)

lemma scheme_turn:
  assumes "scheme_inv p" "p_buf_idx p < PARSER_STACK_MAX" "p_state p = st"
  shows "scheme_inv (result (htp_switch hooks st ch cs p))"
proof -
  have wf: "htp_wf p" using assms by (simp add: scheme_inv_def)
  have "p_scheme (result (htp_switch hooks st ch cs p)) \<notin> {htp_scheme_ftp, htp_scheme_nfs}"
  proof (cases "st = s_hdrline_hdr_val")
    case True
    then show ?thesis
      using assms by (cases rule: hdr_val_cases [of hooks ch p]) (auto simp: scheme_inv_def)
  next
    case False
    then show ?thesis
      using assms wf scheme_of_terminated [of "p_buf p" 0 "p_buf_idx p"]
      by (cases st)
        (simp_all add: scheme_inv_def htp_wf_def off_num_def htp_defs Let_def end_uri_def
          hook_pairs result_check_res split: htp_type.split)
  qed
  moreover have "let q = result (htp_switch hooks st ch cs p) in
      p_state q = s_schema \<and> p_buf_idx q < PARSER_STACK_MAX \<longrightarrow> p_buf q (p_buf_idx q) = NUL"
  proof (cases "st = s_hdrline_hdr_val")
    case True
    then show ?thesis
      using assms by (cases rule: hdr_val_cases [of hooks ch p]) (auto simp: scheme_inv_def)
  next
    case False
    then show ?thesis
      using assms wf
      by (cases st)
        (simp_all add: scheme_inv_def htp_wf_def htp_defs Let_def end_uri_def hook_pairs
          result_check_res buf_put_eq split: htp_type.split)
  qed
  ultimately show ?thesis
    using wf_turn [OF wf assms(2,3)] by (simp add: scheme_inv_def Let_def)
qed

interpretation scheme: turn_invariant hooks scheme_inv for hooks
  by unfold_locales (simp add: scheme_inv_def htp_wf_def, simp add: scheme_turn)

text \<open>
  C19. No input makes the parser report the schemes \<^verbatim>\<open>ftp\<close> or \<^verbatim>\<open>nfs\<close>, although the code has a
  case for each.
\<close>

theorem scheme_never_ftp_nfs:
  "p_scheme (feed hooks datas (htparser_init null t)) \<notin> {htp_scheme_ftp, htp_scheme_nfs}"
proof -
  have "scheme_inv (htparser_init null t)"
    by (simp add: scheme_inv_def wf_init) (simp add: htparser_init_def)
  then have "scheme_inv (feed hooks datas (htparser_init null t))"
    by (rule scheme.feed_keeps)
  then show ?thesis by (simp add: scheme_inv_def)
qed

end
