(* ===== verification/Htparse_Stream.thy ===== *)
theory Htparse_Stream
  imports Htparse_Inv
begin

text \<open>
  The parser as a consumer of a stream: hooks that do not look at the byte counters see the
  same whatever the counters say, and the outcome does not depend on where the input is cut
  into the pieces that the network delivers.
\<close>

section \<open>Byte counters\<close>

definition set_counts :: "64 word \<Rightarrow> 64 word \<Rightarrow> 'u htparser \<Rightarrow> 'u htparser" where
  "set_counts a b p = p\<lparr>p_total_bytes_read := a, p_bytes_read := b\<rparr>"

abbreviation forget_counts :: "'u htparser \<Rightarrow> 'u htparser" where
  "forget_counts \<equiv> set_counts 0 0"

lemma count_byte_set: "count_byte p = set_counts (p_total_bytes_read p + 1) (p_bytes_read p + 1) p"
  by (simp add: count_byte_def set_counts_def)

lemma set_counts_simps [simp]:
  "set_counts a b (set_counts c d p) = set_counts a b p"
  "p_error (set_counts a b p) = p_error p" "p_state (set_counts a b p) = p_state p"
  "p_flags (set_counts a b p) = p_flags p" "p_heval (set_counts a b p) = p_heval p"
  "p_type (set_counts a b p) = p_type p" "p_scheme (set_counts a b p) = p_scheme p"
  "p_method (set_counts a b p) = p_method p" "p_multipart (set_counts a b p) = p_multipart p"
  "p_major (set_counts a b p) = p_major p" "p_minor (set_counts a b p) = p_minor p"
  "p_content_len (set_counts a b p) = p_content_len p"
  "p_status (set_counts a b p) = p_status p"
  "p_status_count (set_counts a b p) = p_status_count p"
  "p_buf (set_counts a b p) = p_buf p" "p_buf_idx (set_counts a b p) = p_buf_idx p"
  "p_scheme_offset (set_counts a b p) = p_scheme_offset p" "p_host_offset (set_counts a b p) = p_host_offset p"
  "p_port_offset (set_counts a b p) = p_port_offset p" "p_path_offset (set_counts a b p) = p_path_offset p"
  "p_args_offset (set_counts a b p) = p_args_offset p" "p_userdata (set_counts a b p) = p_userdata p"
  by (simp_all add: set_counts_def)

lemma set_counts_update [simp]:
  "(set_counts a b p)\<lparr>p_error := e\<rparr> = set_counts a b (p\<lparr>p_error := e\<rparr>)"
  "(set_counts a b p)\<lparr>p_state := st\<rparr> = set_counts a b (p\<lparr>p_state := st\<rparr>)"
  "(set_counts a b p)\<lparr>p_flags := fl\<rparr> = set_counts a b (p\<lparr>p_flags := fl\<rparr>)"
  "(set_counts a b p)\<lparr>p_heval := h\<rparr> = set_counts a b (p\<lparr>p_heval := h\<rparr>)"
  "(set_counts a b p)\<lparr>p_scheme := s\<rparr> = set_counts a b (p\<lparr>p_scheme := s\<rparr>)"
  "(set_counts a b p)\<lparr>p_method := m\<rparr> = set_counts a b (p\<lparr>p_method := m\<rparr>)"
  "(set_counts a b p)\<lparr>p_multipart := v\<rparr> = set_counts a b (p\<lparr>p_multipart := v\<rparr>)"
  "(set_counts a b p)\<lparr>p_major := v\<rparr> = set_counts a b (p\<lparr>p_major := v\<rparr>)"
  "(set_counts a b p)\<lparr>p_minor := v\<rparr> = set_counts a b (p\<lparr>p_minor := v\<rparr>)"
  "(set_counts a b p)\<lparr>p_content_len := l\<rparr> = set_counts a b (p\<lparr>p_content_len := l\<rparr>)"
  "(set_counts a b p)\<lparr>p_status := w\<rparr> = set_counts a b (p\<lparr>p_status := w\<rparr>)"
  "(set_counts a b p)\<lparr>p_status_count := w\<rparr> = set_counts a b (p\<lparr>p_status_count := w\<rparr>)"
  "(set_counts a b p)\<lparr>p_buf := f\<rparr> = set_counts a b (p\<lparr>p_buf := f\<rparr>)"
  "(set_counts a b p)\<lparr>p_buf_idx := i\<rparr> = set_counts a b (p\<lparr>p_buf_idx := i\<rparr>)"
  "(set_counts a b p)\<lparr>p_scheme_offset := off\<rparr> = set_counts a b (p\<lparr>p_scheme_offset := off\<rparr>)"
  "(set_counts a b p)\<lparr>p_host_offset := off\<rparr> = set_counts a b (p\<lparr>p_host_offset := off\<rparr>)"
  "(set_counts a b p)\<lparr>p_port_offset := off\<rparr> = set_counts a b (p\<lparr>p_port_offset := off\<rparr>)"
  "(set_counts a b p)\<lparr>p_path_offset := off\<rparr> = set_counts a b (p\<lparr>p_path_offset := off\<rparr>)"
  "(set_counts a b p)\<lparr>p_args_offset := off\<rparr> = set_counts a b (p\<lparr>p_args_offset := off\<rparr>)"
  "(set_counts a b p)\<lparr>p_userdata := u\<rparr> = set_counts a b (p\<lparr>p_userdata := u\<rparr>)"
  by (simp_all add: set_counts_def)

lemma buf_put_counts [simp]: "buf_put ch (set_counts a b p) = set_counts a b (buf_put ch p)"
  by (simp add: buf_put_def buf_store_def Let_def)

lemma set_counts_misc [simp]:
  "len_from (set_counts a b p) off = len_from p off"
  "buf_text (set_counts a b p) = buf_text p"
  "htparser_should_keep_alive (set_counts a b p) = htparser_should_keep_alive p"
  by (simp_all add: len_from_def buf_text_def htparser_should_keep_alive_def)

section \<open>Hooks for a stream\<close>

text \<open>
  Hooks that do not depend on how the input is cut: they do not look at the two byte counters,
  and the body hook accepts every piece and accumulates the bytes with \<open>g\<close>.
\<close>

definition blind :: "'u htparse_hook option \<Rightarrow> bool" where
  "blind hk \<longleftrightarrow> (\<forall>p a b. run_hook hk (set_counts a b p) = map_prod id (set_counts a b) (run_hook hk p))"

definition blind_data :: "'u htparse_data_hook option \<Rightarrow> bool" where
  "blind_data hk \<longleftrightarrow> (\<forall>p a b s l.
     run_data_hook hk (set_counts a b p) s l = map_prod id (set_counts a b) (run_data_hook hk p s l))"

definition counts_blind :: "'u htparse_hooks \<Rightarrow> bool" where
  "counts_blind hooks \<longleftrightarrow>
     (\<forall>hk \<in> {hk_msg_begin hooks, hk_hdrs_begin hooks, hk_hdrs_complete hooks, hk_new_chunk hooks,
       hk_chunk_complete hooks, hk_chunks_complete hooks, hk_msg_complete hooks}. blind hk) \<and>
     (\<forall>hk \<in> {hk_method hooks, hk_scheme hooks, hk_host hooks, hk_port hooks, hk_path hooks,
       hk_args hooks, hk_uri hooks, hk_hdr_key hooks, hk_hdr_val hooks, hk_hostname hooks,
       hk_body hooks}. blind_data hk)"

definition stream_hooks :: "('u \<Rightarrow> byte list \<Rightarrow> 'u) \<Rightarrow> 'u htparse_hooks \<Rightarrow> bool" where
  "stream_hooks g hooks \<longleftrightarrow> counts_blind hooks \<and>
     (\<forall>p d n. run_data_hook (hk_body hooks) p (DataPtr d) n =
       (0, p\<lparr>p_userdata := g (p_userdata p) (take (unat n) d)\<rparr>)) \<and>
     (\<forall>u xs ys. g u (xs @ ys) = g (g u xs) ys)"

lemma stream_blind: "stream_hooks g hooks \<Longrightarrow> counts_blind hooks"
  by (simp add: stream_hooks_def)

lemma blind_simp: "blind hk \<Longrightarrow>
    run_hook hk (set_counts a b p) = (fst (run_hook hk p), set_counts a b (snd (run_hook hk p)))"
  by (simp add: blind_def map_prod_def case_prod_beta)

lemma blind_data_simp: "blind_data hk \<Longrightarrow> run_data_hook hk (set_counts a b p) s l =
    (fst (run_data_hook hk p s l), set_counts a b (snd (run_data_hook hk p s l)))"
  by (simp add: blind_data_def map_prod_def case_prod_beta)

fun on_result :: "('u htparser \<Rightarrow> 'u htparser) \<Rightarrow> 'u outcome \<Rightarrow> 'u outcome" where
  "on_result f (Next n p) = Next n (f p)"
| "on_result f (Ret n p) = Ret n (f p)"

lemma on_result_counts [simp]:
  "fail e (set_counts a b p) = on_result (set_counts a b) (fail e p)"
  "goto st (set_counts a b p) = on_result (set_counts a b) (goto st p)"
  "check_res res n (set_counts a b p) = on_result (set_counts a b) (check_res res n p)"
  by (simp_all add: fail_def goto_def check_res_def)

lemma eval_hdr_counts:
  assumes "counts_blind hooks"
  shows "eval_hdr hooks res (set_counts a b p) =
    map_sum (set_counts a b) (map_prod id (set_counts a b)) (eval_hdr hooks res p)"
  using assms
  by (cases "p_heval p")
    (auto simp: eval_hdr_def counts_blind_def blind_data_simp Let_def map_prod_def case_prod_beta
      simp del: str8cmp_bytes)

lemma hdr_val_counts:
  assumes "counts_blind hooks"
  shows "st_hdrline_hdr_val hooks ch (set_counts a b p) = on_result (set_counts a b) (st_hdrline_hdr_val hooks ch p)"
proof -
  obtain r q where rq: "run_data_hook (hk_hdr_val hooks) p (BufPtr 0) (idx64 p) = (r, q)"
    by fastforce
  from assms have "run_data_hook (hk_hdr_val hooks) (set_counts a b p) (BufPtr 0) (idx64 p) = (r, set_counts a b q)"
    by (simp add: counts_blind_def blind_data_simp rq)
  then show ?thesis
    by (cases "eval_hdr hooks r q") (auto simp: st_hdrline_hdr_val_def rq eval_hdr_counts [OF assms])
qed

lemma hdrline_almost_done_counts:
  assumes "counts_blind hooks"
  shows "st_hdrline_almost_done hooks ch (set_counts a b p) =
    on_result (set_counts a b) (st_hdrline_almost_done hooks ch p)"
  using assms
  by (simp add: st_hdrline_almost_done_def counts_blind_def blind_simp Let_def case_prod_beta
      if_distrib [of "on_result (set_counts a b)"] cong: if_cong split del: if_split)

lemma switch_counts:
  assumes "counts_blind hooks"
  shows "htp_switch hooks st ch cs (set_counts a b p) =
    on_result (set_counts a b) (htp_switch hooks st ch cs p)"
proof (cases "st = s_hdrline_hdr_val \<or> st = s_hdrline_almost_done")
  case True
  with hdr_val_counts [OF assms] hdrline_almost_done_counts [OF assms] show ?thesis by auto
next
  case False
  then show ?thesis using assms
    by (cases st)
       (simp_all add: counts_blind_def htp_defs Let_def end_uri_def blind_simp blind_data_simp case_prod_beta
         split: htp_type.split)
qed

lemma loop_counts:
  assumes "counts_blind hooks"
  shows "fst (htp_loop hooks data (set_counts a b p)) = fst (htp_loop hooks data p) \<and>
    forget_counts (snd (htp_loop hooks data (set_counts a b p))) = forget_counts (snd (htp_loop hooks data p))"
proof (induction data p arbitrary: a b rule: htp_loop_induct [where hooks = hooks])
  case (Cons ch cs p)
  note sw = switch_counts [OF assms]
  show ?case
  proof (cases "PARSER_STACK_MAX \<le> p_buf_idx p")
    case True
    then show ?thesis by (simp add: htp_loop_full)
  next
    case False
    show ?thesis
    proof (cases "htp_switch hooks (p_state p) ch cs p")
      case (Ret n q)
      with False show ?thesis by (simp add: htp_loop_ret count_byte_set sw)
    next
      case (Next n q)
      define q' where "q' = set_counts (p_total_bytes_read p + 1) (p_bytes_read p + 1) q"
      have q': "htp_switch hooks (p_state p) ch cs (count_byte p) = Next n q'"
        by (simp add: count_byte_set sw Next q'_def)
      have q: "htp_switch hooks (p_state p) ch cs (count_byte (set_counts a b p)) = Next n (set_counts (a + 1) (b + 1) q')"
        by (simp add: count_byte_set set_counts_def sw [unfolded set_counts_def] Next q'_def)
      from False Cons.IH [OF _ q', of "a + 1" "b + 1"] show ?thesis
        by (simp add: htp_loop_next q htp_loop_next [OF _ q'])
    qed
  qed
qed simp

section \<open>Cutting the input\<close>

lemma switch_lookahead:
  assumes "st \<noteq> s_chunk_data" "st \<noteq> s_body_read"
  shows "htp_switch hooks st ch cs p = htp_switch hooks st ch cs' p"
  using assms by (cases st) simp_all

lemma unat_of_nat_le:
  fixes L :: "64 word"
  assumes "k \<le> unat L"
  shows "unat (of_nat k :: 64 word) = k" "of_nat k = L \<longleftrightarrow> k = unat L" "unat (L - of_nat k) = unat L - k"
proof -
  have "k < 2 ^ 64" using assms unsigned_less [of L, where 'a = nat] by simp
  then show k: "unat (of_nat k :: 64 word) = k" by (simp add: unat_of_nat take_bit_nat_eq_self)
  then show "of_nat k = L \<longleftrightarrow> k = unat L" by auto
  from k assms have "(of_nat k :: 64 word) \<le> L" by (simp add: word_le_nat_alt)
  then show "unat (L - of_nat k) = unat L - k" by (simp add: unat_sub k)
qed

text \<open>A body hook of a stream accumulates, so the turns of the body states are additive.\<close>

definition took :: "('u \<Rightarrow> byte list \<Rightarrow> 'u) \<Rightarrow> byte list \<Rightarrow> 'u htparser \<Rightarrow> 'u htparser" where
  "took g xs p = p\<lparr>p_userdata := g (p_userdata p) xs, p_content_len := p_content_len p - of_nat (length xs)\<rparr>"

lemma took_simps [simp]:
  "p_state (took g xs p) = p_state p" "p_flags (took g xs p) = p_flags p"
  "p_buf_idx (took g xs p) = p_buf_idx p" "p_error (took g xs p) = p_error p"
  "p_content_len (took g xs p) = p_content_len p - of_nat (length xs)"
  "took g xs (set_counts a b p) = set_counts a b (took g xs p)"
  by (simp_all add: took_def)

lemma took_took: "stream_hooks g hooks \<Longrightarrow> took g ys (took g xs p) = took g (xs @ ys) p"
  by (simp add: took_def stream_hooks_def algebra_simps)

lemma stream_body: "stream_hooks g hooks \<Longrightarrow> run_data_hook (hk_body hooks) p (DataPtr d) n =
    (0, p\<lparr>p_userdata := g (p_userdata p) (take (unat n) d)\<rparr>)"
  by (simp add: stream_hooks_def)

lemma chunk_data_turn:
  assumes sh: "stream_hooks g hooks" and "rest \<noteq> []" "p_content_len p \<noteq> 0" "p_state p = s_chunk_data"
  defines "t \<equiv> min (length rest) (unat (p_content_len p))"
  shows "st_chunk_data hooks rest p =
    Next t ((took g (take t rest) p)\<lparr>p_state := (if t = unat (p_content_len p) then s_chunk_data_almost_done else s_chunk_data)\<rparr>)"
proof -
  have t: "0 < t" "t \<le> unat (p_content_len p)" "length (take t rest) = t"
    using assms by (auto simp: t_def unat_gt_0)
  then show ?thesis
    using assms(4) unat_of_nat_le [OF t(2)]
    by (simp add: st_chunk_data_def t_def [symmetric] stream_body [OF sh] Let_def check_res_def took_def)
qed

lemma body_read_turn:
  fixes hooks p rest
  assumes sh: "stream_hooks g hooks" and "rest \<noteq> []" "length rest < 2 ^ 64"
    and "parser_flag_content_length \<in> p_flags p \<Longrightarrow> p_content_len p \<noteq> 0"
  defines "t \<equiv> (if parser_flag_content_length \<in> p_flags p then min (length rest) (unat (p_content_len p)) else length rest)"
  shows "st_body_read hooks rest p =
    (if parser_flag_content_length \<in> p_flags p \<and> t = unat (p_content_len p) then
       let (res, q) = run_hook (hk_msg_complete hooks) (took g (take t rest) p) in check_res res t (q\<lparr>p_state := s_start\<rparr>)
     else Next t (took g (take t rest) p))"
proof -
  have t: "0 < t" "length (take t rest) = t" "unat (of_nat t :: 64 word) = t"
    using assms by (auto simp: t_def unat_gt_0 unat_of_nat take_bit_nat_eq_self)
  show ?thesis
  proof (cases "parser_flag_content_length \<in> p_flags p")
    case True
    then have tt: "min (length rest) (unat (p_content_len p)) = t" "t \<le> unat (p_content_len p)" by (simp_all add: t_def)
    then have "p_content_len p - of_nat t = 0 \<longleftrightarrow> t = unat (p_content_len p)"
      using unat_of_nat_le(2) [of t "p_content_len p"] by auto
    with True t tt(1) show ?thesis
      by (simp add: st_body_read_def stream_body [OF sh] Let_def check_res_def took_def)
        (auto simp: min_def split: if_splits)
  next
    case False
    then have "t = length rest" by (simp add: t_def)
    with False t show ?thesis by (simp add: st_body_read_def stream_body [OF sh] Let_def check_res_def took_def)
  qed
qed

fun more_consumed :: "nat \<Rightarrow> 'u outcome \<Rightarrow> 'u outcome" where
  "more_consumed k (Next n p) = Next (k + n) p"
| "more_consumed k (Ret n p) = Ret (k + n) p"

lemma more_consumed_check_res [simp]:
  "more_consumed k (check_res res n p) = check_res res (k + n) p"
  by (simp add: check_res_def)

lemma state_same: "p_state p = st \<Longrightarrow> p\<lparr>p_state := st\<rparr> = p"
  by (cases p) simp

text \<open>
  In a body state with data expected: a piece that does not complete the body is taken
  whole, and the next piece continues where it ended.
\<close>

lemma chunk_piece:
  assumes sh: "stream_hooks g hooks" and st: "p_state p = s_chunk_data"
    and xs: "xs \<noteq> []" "length xs < unat (p_content_len p)"
  shows "st_chunk_data hooks xs p = Next (length xs) (took g xs p)"
    and "ys \<noteq> [] \<Longrightarrow>
      st_chunk_data hooks (xs @ ys) p = more_consumed (length xs) (st_chunk_data hooks ys (took g xs p))"
proof -
  have L: "unat (p_content_len p - of_nat (length xs)) = unat (p_content_len p) - length xs"
    using unat_of_nat_le [of "length xs" "p_content_len p"] xs by simp
  have nz: "p_content_len p \<noteq> 0" "p_content_len p - of_nat (length xs) \<noteq> 0"
    using xs L by auto
  show "st_chunk_data hooks xs p = Next (length xs) (took g xs p)"
    using xs by (simp add: chunk_data_turn [OF sh xs(1) nz(1) st] state_same st)
  assume ys: "ys \<noteq> []"
  show "st_chunk_data hooks (xs @ ys) p = more_consumed (length xs) (st_chunk_data hooks ys (took g xs p))"
    using xs ys nz
    by (simp add: chunk_data_turn [OF sh] st L took_took [OF sh] min_diff)
qed

lemma body_piece:
  assumes sh: "stream_hooks g hooks" and len: "xs \<noteq> []" "length (xs @ ys) < 2 ^ 64"
    and nd: "parser_flag_content_length \<in> p_flags p \<Longrightarrow> length xs < unat (p_content_len p)"
  shows "st_body_read hooks xs p = Next (length xs) (took g xs p)"
    and "ys \<noteq> [] \<Longrightarrow>
      st_body_read hooks (xs @ ys) p = more_consumed (length xs) (st_body_read hooks ys (took g xs p))"
proof -
  have L: "unat (p_content_len p - of_nat (length xs)) = unat (p_content_len p) - length xs"
    if "parser_flag_content_length \<in> p_flags p"
    using unat_of_nat_le [of "length xs" "p_content_len p"] nd that by simp
  have nz: "p_content_len p \<noteq> 0" "p_content_len p - of_nat (length xs) \<noteq> 0"
    if "parser_flag_content_length \<in> p_flags p"
    using nd L that by auto
  show "st_body_read hooks xs p = Next (length xs) (took g xs p)"
    using len nd nz by (simp add: body_read_turn [OF sh]) auto
  assume ys: "ys \<noteq> []"
  show "st_body_read hooks (xs @ ys) p = more_consumed (length xs) (st_body_read hooks ys (took g xs p))"
  proof (cases "parser_flag_content_length \<in> p_flags p")
    case True
    with len ys nz L nd show ?thesis
      by (simp add: body_read_turn [OF sh] took_took [OF sh] case_prod_beta Let_def)
  next
    case False
    with len ys body_read_turn [OF sh, of "xs @ ys" p] body_read_turn [OF sh, of ys "took g xs p"]
    show ?thesis by (simp add: took_took [OF sh])
  qed
qed

text \<open>A body that ends within \<open>xs\<close> does not look further.\<close>

lemma body_enough:
  assumes sh: "stream_hooks g hooks" and wf: "htp_wf p" and xs: "xs \<noteq> []" "length (xs @ ys) < 2 ^ 64"
    and le: "unat (p_content_len p) \<le> length xs"
  shows "p_state p = s_chunk_data \<Longrightarrow> st_chunk_data hooks (xs @ ys) p = st_chunk_data hooks xs p"
    and "\<lbrakk>p_state p = s_body_read; parser_flag_content_length \<in> p_flags p\<rbrakk> \<Longrightarrow>
      st_body_read hooks (xs @ ys) p = st_body_read hooks xs p"
proof -
  have m: "min (length xs + length ys) (unat (p_content_len p)) = unat (p_content_len p)"
    "min (length xs) (unat (p_content_len p)) = unat (p_content_len p)"
    using le by simp_all
  show "st_chunk_data hooks (xs @ ys) p = st_chunk_data hooks xs p" if "p_state p = s_chunk_data"
    using that wf xs le by (simp add: chunk_data_turn [OF sh] htp_wf_def m)
  show "st_body_read hooks (xs @ ys) p = st_body_read hooks xs p"
    if "p_state p = s_body_read" "parser_flag_content_length \<in> p_flags p"
    using that wf xs le by (simp add: body_read_turn [OF sh] htp_wf_def m)
qed

text \<open>The rest of the loop after a turn.\<close>

definition loop_tail :: "'u htparse_hooks \<Rightarrow> byte list \<Rightarrow> 'u outcome \<Rightarrow> nat \<times> 'u htparser" where
  "loop_tail hooks data out = (case out of Ret n q \<Rightarrow> (n, q)
     | Next n q \<Rightarrow> (n + fst (htp_loop hooks (drop n data) q), snd (htp_loop hooks (drop n data) q)))"

lemma loop_unfold:
  "p_buf_idx p < PARSER_STACK_MAX \<Longrightarrow>
    htp_loop hooks (ch # cs) p = loop_tail hooks (ch # cs) (htp_switch hooks (p_state p) ch cs (count_byte p))"
  by (simp add: htp_loop.simps loop_tail_def case_prod_beta split: outcome.split)

lemma tail_counts:
  assumes "stream_hooks g hooks"
  shows "fst (loop_tail hooks data (on_result (set_counts a b) out)) = fst (loop_tail hooks data out)"
    and "forget_counts (snd (loop_tail hooks data (on_result (set_counts a b) out))) =
      forget_counts (snd (loop_tail hooks data out))"
  using loop_counts [OF stream_blind [OF assms]] by (cases out; simp add: loop_tail_def)+

lemma tail_more:
  "loop_tail hooks (xs @ ys) (more_consumed (length xs) out) =
    (length xs + fst (loop_tail hooks ys out), snd (loop_tail hooks ys out))"
  by (cases out) (simp_all add: loop_tail_def)

fun keeps_error :: "htpparse_error \<Rightarrow> 'u outcome \<Rightarrow> bool" where
  "keeps_error e (Next n q) = (p_error q = e)"
| "keeps_error e (Ret n q) = True"

lemma keeps_error_simps [simp]:
  "keeps_error e (fail e' p)" "keeps_error e (goto st p) \<longleftrightarrow> p_error p = e"
  "keeps_error e (check_res res n p) \<longleftrightarrow> res \<noteq> 0 \<or> p_error p = e"
  by (simp_all add: fail_def goto_def check_res_def)

lemma eval_hdr_error: "eval_hdr hooks res p = Inr (res', q) \<Longrightarrow> p_error q = p_error p"
  by (auto simp: eval_hdr_def hook_pairs Let_def split: eval_hdr_val.splits prod.splits if_splits)

lemma switch_keeps_error: "keeps_error (p_error p) (htp_switch hooks st ch cs p)"
proof (cases "st = s_hdrline_hdr_val")
  case True
  then show ?thesis
    by (auto simp: st_hdrline_hdr_val_def hook_pairs split: sum.split dest: eval_hdr_error)
next
  case False
  then show ?thesis
    by (cases st) (simp_all add: htp_defs Let_def end_uri_def hook_pairs split: htp_type.split)
qed

lemma next_error: "htp_switch hooks st ch cs p = Next n q \<Longrightarrow> p_error q = p_error p"
  using switch_keeps_error [of p hooks st ch cs] by simp

text \<open>The two runs over \<open>xs @ ys\<close> and over \<open>xs\<close>, then \<open>ys\<close>.\<close>

definition splits_at :: "'u htparse_hooks \<Rightarrow> byte list \<Rightarrow> byte list \<Rightarrow> 'u htparser \<Rightarrow> bool" where
  "splits_at hooks xs ys p \<longleftrightarrow>
     (let q = snd (htp_loop hooks xs p) in
      fst (htp_loop hooks xs p) = length xs \<and> p_error q = p_error p \<and>
      fst (htp_loop hooks (xs @ ys) p) = length xs + fst (htp_loop hooks ys q) \<and>
      forget_counts (snd (htp_loop hooks (xs @ ys) p)) = forget_counts (snd (htp_loop hooks ys q)))"

lemma splits_body:
  assumes sh: "stream_hooks g hooks" and idx: "p_buf_idx p < PARSER_STACK_MAX"
    and whole: "htp_switch hooks (p_state p) x xs (count_byte p) = Next (length (x # xs)) q"
    and rest: "htp_switch hooks (p_state p) x (xs @ y # ys) (count_byte p) =
      more_consumed (length (x # xs)) (htp_switch hooks (p_state q) y ys q)"
    and q: "p_buf_idx q = p_buf_idx p" "p_error q = p_error p"
  shows "splits_at hooks (x # xs) (y # ys) p"
proof -
  let ?out = "htp_switch hooks (p_state q) y ys q"
  let ?out' = "on_result (set_counts (p_total_bytes_read q + 1) (p_bytes_read q + 1)) ?out"
  have "htp_loop hooks (x # xs) p = (length (x # xs), q)"
    using idx whole by (simp add: htp_loop_next)
  moreover have "htp_loop hooks (y # ys) q = loop_tail hooks (y # ys) ?out'"
    using idx q by (simp add: loop_unfold count_byte_set switch_counts [OF stream_blind [OF sh]])
  moreover have "htp_loop hooks ((x # xs) @ y # ys) p =
      (length (x # xs) + fst (loop_tail hooks (y # ys) ?out), snd (loop_tail hooks (y # ys) ?out))"
    using idx rest tail_more [of hooks "x # xs" "y # ys" ?out] by (simp add: loop_unfold)
  ultimately show ?thesis
    using q tail_counts [OF sh] by (simp add: splits_at_def)
qed

lemma splits_turn:
  assumes idx: "p_buf_idx p < PARSER_STACK_MAX"
    and turn: "htp_switch hooks (p_state p) x xs (count_byte p) = Next n q"
      "htp_switch hooks (p_state p) x (xs @ ys) (count_byte p) = Next n q"
    and IH: "splits_at hooks (drop n (x # xs)) ys q"
  shows "splits_at hooks (x # xs) ys p"
proof -
  have n: "n \<le> length (x # xs)"
    using consumed_le [of hooks "p_state p" x xs "count_byte p"] turn by simp
  then have "drop n (x # xs @ ys) = drop n (x # xs) @ ys"
    by (cases n) simp_all
  then show ?thesis
    using IH n idx turn next_error [OF turn(1)]
    by (simp add: splits_at_def htp_loop_next Let_def)
qed

lemma loop_split:
  assumes sh: "stream_hooks g hooks" and "htp_wf p" "length (xs @ ys) < 2 ^ 64"
    and "length xs < fst (htp_loop hooks (xs @ ys) p)"
  shows "splits_at hooks xs ys p"
  using assms(2-)
proof (induction xs p rule: htp_loop_induct [where hooks = hooks])
  case (Nil p)
  then show ?case by (simp add: splits_at_def)
next
  case (Cons x xs p)
  let ?p = "count_byte p"
  have idx: "p_buf_idx p < PARSER_STACK_MAX"
    using Cons.prems(3) by (rule_tac ccontr) (simp add: htp_loop_full)
  have wf: "htp_wf ?p" using Cons.prems(1) by (rule wf.count_keeps)
  have wf': "htp_wf q" if "htp_switch hooks (p_state p) x xs ?p = Next n q" for n q
    using wf_turn [OF wf, of "p_state p" hooks x xs] idx that by simp
  have ys: "ys \<noteq> []"
    using Cons.prems(3) loop_return [of hooks "x # xs" p "fst (htp_loop hooks (x # xs) p)"
      "snd (htp_loop hooks (x # xs) p)"] by (intro notI) simp
  show ?case
  proof (cases "htp_switch hooks (p_state p) x (xs @ ys) ?p = htp_switch hooks (p_state p) x xs ?p")
    case same: True
    show ?thesis
    proof (cases "htp_switch hooks (p_state p) x xs ?p")
      case (Ret n q)
      then have "fst (htp_loop hooks ((x # xs) @ ys) p) \<le> length (x # xs)"
        using same idx consumed_le [of hooks "p_state p" x xs ?p] by (simp add: htp_loop_ret)
      with Cons.prems show ?thesis by simp
    next
      case (Next n q)
      have n: "n \<le> length (x # xs)" using consumed_le [of hooks "p_state p" x xs ?p] Next by simp
      then have d: "drop n (x # xs @ ys) = drop n (x # xs) @ ys" by (cases n) simp_all
      have "splits_at hooks (drop n (x # xs)) ys q"
        using Cons.IH [OF idx Next wf' [OF Next]] Cons.prems(2,3) idx same Next n d
        by (simp add: htp_loop_next)
      with idx Next same show ?thesis by (intro splits_turn [of p hooks x xs n q ys]) simp_all
    qed
  next
    case differ: False
    let ?q = "took g (x # xs) ?p"
    obtain y ys' where y: "ys = y # ys'" using ys by (cases ys) auto
    have enough: "length (x # xs) < unat (p_content_len ?p)"
      if "p_state p = s_chunk_data \<or> p_state p = s_body_read \<and> parser_flag_content_length \<in> p_flags ?p"
      using body_enough [OF sh wf, of "x # xs" ys] differ Cons.prems(2) that
      by (cases "length (x # xs) < unat (p_content_len ?p)") auto
    consider "p_state p = s_chunk_data" | "p_state p = s_body_read"
      using differ switch_lookahead [of "p_state p"] by blast
    then have "htp_switch hooks (p_state p) x xs ?p = Next (length (x # xs)) ?q \<and>
        htp_switch hooks (p_state p) x (xs @ ys) ?p = more_consumed (length (x # xs)) (htp_switch hooks (p_state p) y ys' ?q)"
    proof cases
      case 1
      with chunk_piece(1) [OF sh, of ?p "x # xs"] chunk_piece(2) [OF sh, of ?p "x # xs" ys] enough y show ?thesis by simp
    next
      case 2
      then have nd: "length (x # xs) < unat (p_content_len ?p)" if "parser_flag_content_length \<in> p_flags ?p"
        using enough that by simp
      from 2 y body_piece [OF sh _ Cons.prems(2) nd] show ?thesis by simp
    qed
    then show ?thesis
      unfolding y by (intro splits_body [OF sh idx, where q = ?q]) (simp_all add: y)
  qed
qed

lemma restart_counts:
  "p_error q = e \<Longrightarrow> q\<lparr>p_error := e, p_bytes_read := 0\<rparr> = set_counts (p_total_bytes_read q) 0 q"
  by (cases q) (simp add: set_counts_def)

text \<open>
  C3. Where the input is cut does not matter. If one run over \<open>xs @ ys\<close> gets past \<open>xs\<close>, then
  a run over \<open>xs\<close> consumes all of it without an error, and the next run over \<open>ys\<close> ends with the
  same parser, the same application data and, together, the same number of bytes; only the two
  byte counters may differ (the code counts a body piece as one byte, however long it is).
\<close>

theorem htparser_run_split:
  assumes "stream_hooks g hooks" "htp_wf p" "length (xs @ ys) < 2 ^ 64"
    and "length xs < fst (htparser_run p hooks (xs @ ys))"
  shows "fst (htparser_run p hooks xs) = length xs \<and>
    p_error (snd (htparser_run p hooks xs)) = htparse_error_none \<and>
    fst (htparser_run p hooks (xs @ ys)) =
      length xs + fst (htparser_run (snd (htparser_run p hooks xs)) hooks ys) \<and>
    forget_counts (snd (htparser_run p hooks (xs @ ys))) =
      forget_counts (snd (htparser_run (snd (htparser_run p hooks xs)) hooks ys))"
proof -
  let ?p = "p\<lparr>p_error := htparse_error_none, p_bytes_read := 0\<rparr>"
  let ?q = "snd (htp_loop hooks xs ?p)"
  have "htp_wf ?p" using assms(2) by (simp add: htp_wf_def)
  then have sp: "splits_at hooks xs ys ?p"
    using loop_split [OF assms(1) _ assms(3), of ?p] assms(4) by (simp add: htparser_run_def)
  then have "?q\<lparr>p_error := htparse_error_none, p_bytes_read := 0\<rparr> = set_counts (p_total_bytes_read ?q) 0 ?q"
    by (intro restart_counts) (simp add: splits_at_def Let_def)
  with sp loop_counts [OF stream_blind [OF assms(1)], of ys "p_total_bytes_read ?q" 0 ?q] show ?thesis
    by (simp add: htparser_run_def splits_at_def Let_def)
qed

text \<open>An application that only collects the body.\<close>

definition body_hooks :: "string htparse_hooks" where
  "body_hooks = no_hooks\<lparr>hk_body := Some (\<lambda>p s l.
     (0, p_userdata p @ (case s of DataPtr d \<Rightarrow> take (unat l) d | _ \<Rightarrow> [])))\<rparr>"

lemma body_hooks_stream: "stream_hooks (@) body_hooks"
  by (simp add: stream_hooks_def counts_blind_def blind_def blind_data_def body_hooks_def no_hooks_def
      run_hook_def run_data_hook_def)

theorem htparser_run_split_witness:
  "let p = htparser_init [] htp_type_request;
       xs = ''POST / HTTP/1.0'' @ [CR, LF] @ ''Content-Length: 3'' @ [CR, LF, CR, LF] @ ''a'';
       ys = ''bc'';
       q = snd (htparser_run (snd (htparser_run p body_hooks xs)) body_hooks ys)
   in length xs < fst (htparser_run p body_hooks (xs @ ys)) \<and>
      forget_counts (snd (htparser_run p body_hooks (xs @ ys))) = forget_counts q \<and>
      p_userdata (forget_counts (snd (htparser_run p body_hooks (xs @ ys)))) = ''abc''"
  unfolding Let_def
proof (intro conjI)
  let ?p = "htparser_init [] htp_type_request"
  let ?xs = "''POST / HTTP/1.0'' @ [CR, LF] @ ''Content-Length: 3'' @ [CR, LF, CR, LF] @ ''a''"
  note ev = htp_eval body_hooks_def no_hooks_def
  show past: "length ?xs < fst (htparser_run ?p body_hooks (?xs @ ''bc''))"
    by (simp add: ev)
  show "forget_counts (snd (htparser_run ?p body_hooks (?xs @ ''bc''))) =
      forget_counts (snd (htparser_run (snd (htparser_run ?p body_hooks ?xs)) body_hooks ''bc''))"
    using htparser_run_split [OF body_hooks_stream wf_init _ past] by simp
  show "p_userdata (forget_counts (snd (htparser_run ?p body_hooks (?xs @ ''bc'')))) = ''abc''"
    by (simp add: ev)
qed

end
