(* ===== verification/Htparse_Msg.thy ===== *)
theory Htparse_Msg
  imports Htparse_Stream
begin

text \<open>
  What the application sees: an application that records every hook call, the printed form of
  requests, and the theorem that parsing reports exactly what was printed. The proofs run the
  parser symbolically, one lemma per part of a message, with \<open>goes\<close> (the loop gets over a piece
  of input) and \<open>holds\<close> (the token collected in the buffer).
\<close>

section \<open>An application that records the events\<close>

datatype event =
    MsgBegin | Method string | Scheme string | Host string | Port string | Path string | Args string
  | Uri string | HdrsBegin | Key string | Val string | Hostname string | HdrsComplete
  | NewChunk | ChunkComplete | ChunksComplete | Body string | MsgComplete

definition hook_bytes :: "'u htparser \<Rightarrow> hook_ptr \<Rightarrow> 64 word \<Rightarrow> string" where
  "hook_bytes p s l = (case s of NullPtr \<Rightarrow> [] | BufPtr i \<Rightarrow> map (p_buf p) [i..<i + unat l]
     | DataPtr d \<Rightarrow> take (unat l) d)"

definition rec_hook :: "event \<Rightarrow> event list htparse_hook option" where
  "rec_hook ev = Some (\<lambda>p. (0, p_userdata p @ [ev]))"

definition rec_data :: "(string \<Rightarrow> event) \<Rightarrow> event list htparse_data_hook option" where
  "rec_data ev = Some (\<lambda>p s l. (0, p_userdata p @ [ev (hook_bytes p s l)]))"

definition log_hooks :: "event list htparse_hooks" where
  "log_hooks = \<lparr>hk_msg_begin = rec_hook MsgBegin, hk_method = rec_data Method, hk_scheme = rec_data Scheme,
    hk_host = rec_data Host, hk_port = rec_data Port, hk_path = rec_data Path, hk_args = rec_data Args,
    hk_uri = rec_data Uri, hk_hdrs_begin = rec_hook HdrsBegin, hk_hdr_key = rec_data Key,
    hk_hdr_val = rec_data Val, hk_hostname = rec_data Hostname, hk_hdrs_complete = rec_hook HdrsComplete,
    hk_new_chunk = rec_hook NewChunk, hk_chunk_complete = rec_hook ChunkComplete,
    hk_chunks_complete = rec_hook ChunksComplete, hk_body = rec_data Body,
    hk_msg_complete = rec_hook MsgComplete\<rparr>"

lemma run_rec [simp]:
  "run_hook (rec_hook ev) p = (0, p\<lparr>p_userdata := p_userdata p @ [ev]\<rparr>)"
  "run_data_hook (rec_data f) p s l = (0, p\<lparr>p_userdata := p_userdata p @ [f (hook_bytes p s l)]\<rparr>)"
  by (simp_all add: rec_hook_def rec_data_def run_hook_def run_data_hook_def)

lemma hook_bytes_counts [simp]: "hook_bytes (set_counts a b p) s l = hook_bytes p s l"
  by (cases s) (simp_all add: hook_bytes_def)

lemma log_hooks_simps [simp]:
  "hk_msg_begin log_hooks = rec_hook MsgBegin" "hk_method log_hooks = rec_data Method"
  "hk_scheme log_hooks = rec_data Scheme" "hk_host log_hooks = rec_data Host"
  "hk_port log_hooks = rec_data Port" "hk_path log_hooks = rec_data Path"
  "hk_args log_hooks = rec_data Args" "hk_uri log_hooks = rec_data Uri"
  "hk_hdrs_begin log_hooks = rec_hook HdrsBegin" "hk_hdr_key log_hooks = rec_data Key"
  "hk_hdr_val log_hooks = rec_data Val" "hk_hostname log_hooks = rec_data Hostname"
  "hk_hdrs_complete log_hooks = rec_hook HdrsComplete" "hk_new_chunk log_hooks = rec_hook NewChunk"
  "hk_chunk_complete log_hooks = rec_hook ChunkComplete"
  "hk_chunks_complete log_hooks = rec_hook ChunksComplete" "hk_body log_hooks = rec_data Body"
  "hk_msg_complete log_hooks = rec_hook MsgComplete"
  by (simp_all add: log_hooks_def)

lemma log_hooks_blind: "counts_blind log_hooks"
  by (simp add: counts_blind_def blind_def blind_data_def)

section \<open>Running over a prefix\<close>

text \<open>
  \<open>goes p xs q\<close>: from \<open>p\<close> the loop consumes \<open>xs\<close> and is then where it would be from \<open>q\<close>,
  up to the byte counters.
\<close>

definition goes :: "event list htparser \<Rightarrow> byte list \<Rightarrow> event list htparser \<Rightarrow> bool" where
  "goes p xs q \<longleftrightarrow> (\<forall>ys.
     fst (htp_loop log_hooks (xs @ ys) p) = length xs + fst (htp_loop log_hooks ys q) \<and>
     forget_counts (snd (htp_loop log_hooks (xs @ ys) p)) = forget_counts (snd (htp_loop log_hooks ys q)))"

lemma goes_nil: "goes p [] p"
  by (simp add: goes_def)

lemma goes_trans [trans]: "\<lbrakk>goes p xs q; goes q ys r\<rbrakk> \<Longrightarrow> goes p (xs @ ys) r"
  by (simp add: goes_def)

lemma goes_body:
  assumes "p_buf_idx p < PARSER_STACK_MAX"
    and sw: "\<And>cs. htp_switch log_hooks (p_state p) x (xs @ cs) p = Next (length (x # xs)) q"
  shows "goes p (x # xs) q"
proof -
  define q' where "q' = set_counts (p_total_bytes_read p + 1) (p_bytes_read p + 1) q"
  have "htp_switch log_hooks (p_state p) x (xs @ cs) (count_byte p) = Next (length (x # xs)) q'" for cs
    by (simp add: count_byte_set switch_counts [OF log_hooks_blind] sw q'_def)
  with assms(1) show ?thesis
    using loop_counts [OF log_hooks_blind] by (simp add: goes_def htp_loop_next q'_def)
qed

lemma goes_step:
  assumes "p_buf_idx p < PARSER_STACK_MAX" "\<And>cs. htp_switch log_hooks (p_state p) x cs p = Next 1 q"
  shows "goes p [x] q"
  using goes_body [of p x "[]" q] assms by simp

lemma goes_cons: "\<lbrakk>goes p [x] q; goes q xs r\<rbrakk> \<Longrightarrow> goes p (x # xs) r"
  using goes_trans [of p "[x]" q xs r] by simp

section \<open>The token in the buffer\<close>

definition holds :: "'u htparser \<Rightarrow> string \<Rightarrow> bool" where
  "holds p t \<longleftrightarrow> p_buf_idx p = length t \<and> length t < PARSER_STACK_MAX \<and>
     (\<forall>i < length t. p_buf p i = t ! i) \<and> p_buf p (length t) = NUL"

lemma holds_put:
  "\<lbrakk>holds p t; length t + 1 < PARSER_STACK_MAX\<rbrakk> \<Longrightarrow> holds (buf_put c p) (t @ [c])"
  by (auto simp: holds_def buf_put_eq nth_append less_Suc_eq)

lemma holds_start:
  "p_buf_idx p = 0 \<Longrightarrow> holds (buf_put c p) [c]"
  by (auto simp: holds_def buf_put_eq PARSER_STACK_MAX_def)

lemma holds_text: "holds p t \<Longrightarrow> buf_text p = t"
  by (auto simp: holds_def buf_text_def intro: nth_equalityI)

lemma holds_idx: "holds p t \<Longrightarrow> p_buf_idx p = length t"
  by (simp add: holds_def)

lemma holds_bytes:
  assumes "holds p t"
  shows "hook_bytes p (BufPtr 0) (idx64 p) = t"
proof -
  have "length t < 2 ^ 64" using assms by (simp add: holds_def PARSER_STACK_MAX_def)
  then have "unat (of_nat (length t) :: 64 word) = length t" by (simp add: unat_of_nat take_bit_nat_eq_self)
  with assms holds_text [OF assms] show ?thesis
    by (simp add: hook_bytes_def holds_idx buf_text_def)
qed

lemma holds_cong: "\<lbrakk>p_buf q = p_buf p; p_buf_idx q = p_buf_idx p\<rbrakk> \<Longrightarrow> holds q t = holds p t"
  by (simp add: holds_def)

definition puts :: "string \<Rightarrow> 'u htparser \<Rightarrow> 'u htparser" where
  "puts = fold buf_put"

lemma holds_puts:
  "\<lbrakk>holds p t; length t + length s < PARSER_STACK_MAX\<rbrakk> \<Longrightarrow> holds (puts s p) (t @ s)"
proof (induction s arbitrary: p t)
  case (Cons c s)
  then show ?case using Cons.IH [OF holds_put [of p t c]] by (simp add: puts_def)
qed (simp add: puts_def)

lemma goes_puts:
  assumes "holds p t" "length t + length s < PARSER_STACK_MAX" "p_state p = st"
    and put: "\<And>c cs p. \<lbrakk>c \<in> set s; p_state p = st\<rbrakk> \<Longrightarrow> htp_switch log_hooks st c cs p = Next 1 (buf_put c p)"
  shows "goes p s (puts s p)"
  using assms
proof (induction s arbitrary: p t)
  case (Cons c s)
  have "goes p [c] (buf_put c p)"
    using Cons.prems by (intro goes_step) (auto simp: holds_def)
  moreover have "goes (buf_put c p) s (puts s (buf_put c p))"
    using Cons.prems by (intro Cons.IH [OF holds_put [of p t c]]) auto
  ultimately show ?case by (simp add: puts_def goes_cons)
qed (simp add: puts_def goes_nil)

lemma puts_frame [simp]:
  "p_state (puts s p) = p_state p" "p_flags (puts s p) = p_flags p"
  "p_type (puts s p) = p_type p" "p_method (puts s p) = p_method p"
  "p_content_len (puts s p) = p_content_len p" "p_error (puts s p) = p_error p"
  "p_heval (puts s p) = p_heval p"
  "p_path_offset (puts s p) = p_path_offset p" "p_args_offset (puts s p) = p_args_offset p"
  "p_userdata (puts s p) = p_userdata p"
  by (induction s arbitrary: p) (simp_all add: puts_def)

lemma buf_put_state: "buf_put c (p\<lparr>p_state := st\<rparr>) = (buf_put c p)\<lparr>p_state := st\<rparr>"
  by (cases p) (simp add: buf_put_def buf_store_def Let_def)

lemma puts_state: "puts s (p\<lparr>p_state := st\<rparr>) = (puts s p)\<lparr>p_state := st\<rparr>"
  by (induction s arbitrary: p) (simp_all add: puts_def buf_put_state)

section \<open>Request lines\<close>

text \<open>The fields that a request line leaves alone.\<close>

definition req_frame :: "'u htparser \<Rightarrow> 'u htparser \<Rightarrow> bool" where
  "req_frame p q \<longleftrightarrow> p_type q = p_type p \<and> p_content_len q = p_content_len p \<and>
     p_args_offset q = p_args_offset p \<and> p_error q = p_error p"

lemma not_usual [simp]:
  "\<not> is_usual CR" "\<not> is_usual LF" "\<not> is_usual (CHR '' '')" "\<not> is_usual (CHR ''?'')"
  by (simp_all add: is_usual_def usual_def)

definition uri_states :: "parser_state set" where
  "uri_states = {s_after_slash_in_uri, s_check_uri, s_uri}"

definition uri_next :: "parser_state \<Rightarrow> byte \<Rightarrow> parser_state" where
  "uri_next st c =
     (if st = s_uri then s_uri
      else if is_usual c then s_check_uri
      else if st = s_check_uri then (if c = CHR ''/'' then s_after_slash_in_uri else s_uri)
      else if c \<in> set ''.%/#'' then s_uri else s_check_uri)"

lemma uri_next_states: "uri_next st c \<in> uri_states"
  by (simp add: uri_next_def uri_states_def)

text \<open>
  The characters of a path: a question mark starts the arguments, except in state \<^const>\<open>s_uri\<close>,
  where it is a character like any other.
\<close>

fun path_ok :: "parser_state \<Rightarrow> string \<Rightarrow> bool" where
  "path_ok st [] = True"
| "path_ok st (c # u) =
     (c \<notin> {CHR '' '', CR, LF} \<and> (c = CHR ''?'' \<longrightarrow> st = s_uri) \<and> path_ok (uri_next st c) u)"

lemma uri_turn:
  assumes "p_state p \<in> uri_states" "path_ok (p_state p) (c # u)"
  shows "htp_switch log_hooks (p_state p) c cs p = Next 1 ((buf_put c p)\<lparr>p_state := uri_next (p_state p) c\<rparr>)"
proof -
  consider "p_state p = s_after_slash_in_uri" | "p_state p = s_check_uri" | "p_state p = s_uri"
    using assms by (auto simp: uri_states_def)
  then show ?thesis
    using assms(2) state_same [of "buf_put c p" "p_state p"]
    by cases (simp_all add: uri_next_def st_after_slash_in_uri_def st_check_uri_def
        st_uri_def goto_def check_res_def)
qed

lemma uri_run:
  assumes "holds p t" "length t + length u < PARSER_STACK_MAX" "path_ok (p_state p) u"
    and "p_state p \<in> uri_states"
  shows "\<exists>q st. st \<in> uri_states \<and> q = (puts u p)\<lparr>p_state := st\<rparr> \<and> goes p u q"
  using assms
proof (induction u arbitrary: p t)
  case Nil
  then show ?case by (auto simp: puts_def goes_nil state_same)
next
  case (Cons c u)
  let ?p = "(buf_put c p)\<lparr>p_state := uri_next (p_state p) c\<rparr>"
  have step: "goes p [c] ?p" using Cons.prems uri_turn [of p c u] by (intro goes_step) (simp_all add: holds_def)
  have h: "holds ?p (t @ [c])"
    using holds_put [OF Cons.prems(1), of c] Cons.prems(2) by (simp add: holds_def)
  obtain q st' where "st' \<in> uri_states"
      "q = (puts u ?p)\<lparr>p_state := st'\<rparr>" "goes ?p u q"
    using Cons.IH [OF h] Cons.prems(2,3) uri_next_states by fastforce
  moreover have "(puts u ?p)\<lparr>p_state := st'\<rparr> = (puts (c # u) p)\<lparr>p_state := st'\<rparr>"
    by (simp add: puts_state) (simp add: puts_def)
  ultimately show ?case using goes_cons [OF step] by blast
qed

lemma goes_stepI:
  assumes "p_buf_idx p < PARSER_STACK_MAX" "\<And>cs. htp_switch log_hooks (p_state p) x cs p = Next 1 q"
    and "\<exists>r. goes q xs r \<and> P r"
  shows "\<exists>r. goes p (x # xs) r \<and> P r"
  using assms(3) goes_cons [OF goes_step [OF assms(1,2)]] by blast

lemma goes_doneI: "P p \<Longrightarrow> \<exists>r. goes p [] r \<and> P r"
  using goes_nil by blast

lemma version_run:
  assumes "p_state p = s_http_09" "p_buf_idx p = 0" "p_type p = htp_type_request" "0 < a" "a < 10" "b < 10"
  shows "\<exists>q. goes p (''HTTP/'' @ [digit_char a, CHR ''.'', digit_char b, CR, LF]) q \<and>
    p_state q = s_done \<and> p_buf_idx q = 0 \<and> p_userdata q = p_userdata p @ [HdrsBegin] \<and>
    p_flags q = p_flags p \<and> p_method q = p_method p \<and> req_frame p q"
proof -
  have dig: "0 < PARSER_STACK_MAX" "a \<noteq> 0" "\<not> 9 < a" using assms by (simp_all add: PARSER_STACK_MAX_def)
  note [simp] = assms dig st_http_09_def st_http_H_def st_http_HT_def st_http_HTT_def st_http_HTTP_def
    st_first_major_digit_def st_major_digit_def st_first_minor_digit_def st_minor_digit_def
    st_almost_done_def goto_def
  show ?thesis
    unfolding append.simps
    by (rule goes_stepI, simp, simp)+ (rule goes_doneI, simp add: req_frame_def)
qed

text \<open>A parser between two requests.\<close>

definition idle :: "'u htparser \<Rightarrow> bool" where
  "idle p \<longleftrightarrow> p_state p = s_start \<and> p_type p = htp_type_request \<and> p_buf_idx p = 0 \<and>
     p_content_len p = 0 \<and> p_args_offset p = None \<and> p_error p = htparse_error_none \<and>
     p_method p \<noteq> htp_method_CONNECT"

lemma idle_init: "idle (htparser_init null htp_type_request)"
  by (simp add: idle_def htparser_init_def)

definition method_ok :: "string \<Rightarrow> bool" where
  "method_ok m \<longleftrightarrow> m \<noteq> [] \<and> length m < PARSER_STACK_MAX \<and> (\<forall>c \<in> set m. upper_or_underscore c) \<and> m \<noteq> ''CONNECT''"

lemma upper_not [simp]:
  "\<not> upper_or_underscore CR" "\<not> upper_or_underscore LF" "\<not> upper_or_underscore (CHR '' '')"
  by (simp_all add: upper_or_underscore_def)

lemma method_run:
  assumes "idle p" "method_ok m"
  shows "\<exists>q. goes p m q \<and> holds q m \<and> p_state q = s_method \<and> p_flags q = {} \<and>
    p_userdata q = p_userdata p @ [MsgBegin] \<and> p_method q = p_method p \<and> req_frame p q"
proof -
  obtain c cs where m: "m = c # cs" using assms(2) by (cases m) (auto simp: method_ok_def)
  let ?p = "(buf_put c (p\<lparr>p_flags := {}, p_userdata := p_userdata p @ [MsgBegin]\<rparr>))\<lparr>p_state := s_method\<rparr>"
  have ok: "upper_or_underscore c" "\<forall>x \<in> set cs. upper_or_underscore x"
    using assms(2) by (auto simp: method_ok_def m)
  have nosp: "CHR '' '' \<notin> set cs" using ok(2) upper_not(3) by blast
  have step: "goes p [c] ?p"
    using assms(1) ok(1)
    by (intro goes_step) (auto simp: idle_def PARSER_STACK_MAX_def st_start_def check_res_def Let_def)
  have h: "holds ?p [c]"
    using holds_start [of "p\<lparr>p_flags := {}, p_userdata := p_userdata p @ [MsgBegin]\<rparr>" c] assms(1)
    by (simp add: idle_def holds_def)
  have len: "length [c] + length cs < PARSER_STACK_MAX" using assms(2) by (simp add: method_ok_def m)
  have "goes ?p cs (puts cs ?p)"
    using ok(2) nosp by (intro goes_puts [OF h len]) (auto simp: st_method_def)
  with step have "goes p m (puts cs ?p)" by (simp add: m goes_cons)
  moreover have "holds (puts cs ?p) m" using holds_puts [OF h len] by (simp add: m)
  ultimately show ?thesis by (intro exI [of _ "puts cs ?p"]) (simp add: req_frame_def)
qed

lemma method_of_connect:
  assumes "holds p m" "m \<noteq> ''CONNECT''" "old \<noteq> htp_method_CONNECT"
  shows "method_of (p_buf p) (p_buf_idx p) old \<noteq> htp_method_CONNECT"
proof (cases "length m = 7")
  case True
  then obtain c0 c1 c2 c3 c4 c5 c6 where m: "m = [c0, c1, c2, c3, c4, c5, c6]"
    by (auto simp: numeral_eq_Suc length_Suc_conv)
  have "\<forall>i < 7. p_buf p i = m ! i" using assms(1) True by (simp add: holds_def)
  then have "p_buf p 0 = c0 \<and> p_buf p 1 = c1 \<and> p_buf p 2 = c2 \<and> p_buf p 3 = c3 \<and> p_buf p 4 = c4 \<and>
      p_buf p 5 = c5 \<and> p_buf p 6 = c6"
    by (simp add: m numeral_eq_Suc less_Suc_eq all_conj_distrib)
  with assms True show ?thesis by (auto simp: method_of_def holds_idx m Let_def numeral_2_eq_2)
next
  case False
  with assms show ?thesis by (auto simp: method_of_def holds_idx Let_def)
qed

definition uri_ok :: "string \<Rightarrow> bool" where
  "uri_ok u \<longleftrightarrow> u \<noteq> [] \<and> hd u = CHR ''/'' \<and> length u < PARSER_STACK_MAX \<and> path_ok s_after_slash_in_uri (tl u)"

lemma uri_line:
  assumes "holds p m" "p_state p = s_method" "uri_ok u" "m \<noteq> ''CONNECT''" "p_method p \<noteq> htp_method_CONNECT"
    and args: "p_args_offset p = None"
  shows "\<exists>q. goes p (CHR '' '' # u @ '' '') q \<and> p_state q = s_http_09 \<and> p_buf_idx q = 0 \<and>
    p_userdata q = p_userdata p @ [Method m, Path u, Uri u] \<and> p_flags q = p_flags p \<and>
    p_method q \<noteq> htp_method_CONNECT \<and> req_frame p q"
proof -
  obtain v where u: "u = CHR ''/'' # v" using assms(3) by (cases u) (auto simp: uri_ok_def)
  define p1 where "p1 = p\<lparr>p_method := method_of (p_buf p) (p_buf_idx p) (p_method p),
    p_userdata := p_userdata p @ [Method m], p_buf_idx := 0, p_state := s_spaces_before_uri\<rparr>"
  define p2 where "p2 = (buf_put (CHR ''/'') (p1\<lparr>p_path_offset := Some 0\<rparr>))\<lparr>p_state := s_after_slash_in_uri\<rparr>"
  have hm: "holds (p\<lparr>p_method := x\<rparr>) m" for x using assms(1) by (simp add: holds_def)
  have "goes p [CHR '' ''] p1"
    using assms(1,2) holds_bytes [OF hm]
    by (intro goes_step) (simp_all add: p1_def st_method_def check_res_def Let_def, simp_all add: holds_def)
  moreover have "goes p1 [CHR ''/''] p2"
    by (intro goes_step) (simp_all add: p1_def p2_def st_spaces_before_uri_def goto_def PARSER_STACK_MAX_def)
  moreover have h2: "holds p2 [CHR ''/'']"
    using holds_start [of "p1\<lparr>p_path_offset := Some 0\<rparr>" "CHR ''/''"] by (simp add: p2_def p1_def holds_def)
  obtain st where st: "st \<in> uri_states" and go: "goes p2 v ((puts v p2)\<lparr>p_state := st\<rparr>)"
    using uri_run [OF h2, of v] assms(3) by (auto simp: uri_ok_def u p2_def uri_states_def)
  define p3 where "p3 = (puts v p2)\<lparr>p_state := st\<rparr>"
  have h3: "holds p3 u" using holds_puts [OF h2, of v] assms(3) by (simp add: p3_def u uri_ok_def holds_def)
  have off: "off_ptr (p_path_offset p3) = BufPtr 0" "len_from p3 (p_path_offset p3) = idx64 p3"
    "p_args_offset p3 = None" "p_state p3 = st"
    using args by (simp_all add: p3_def p2_def p1_def off_ptr_def len_from_def off_num_def)
  have sp: "htp_switch log_hooks (p_state p3) (CHR '' '') cs p3 = end_uri log_hooks (rec_data Path) (BufPtr 0) (idx64 p3) p3" for cs
    using st off by (auto simp: uri_states_def st_after_slash_in_uri_def st_check_uri_def st_uri_def)
  have "end_uri log_hooks (rec_data Path) (BufPtr 0) (idx64 p3) p3 =
      Next 1 (p3\<lparr>p_userdata := p_userdata p3 @ [Path u, Uri u], p_buf_idx := 0, p_state := s_http_09\<rparr>)"
    using holds_bytes [OF h3] by (simp add: end_uri_def check_res_def hook_bytes_def)
  with sp h3 have "goes p3 '' '' (p3\<lparr>p_userdata := p_userdata p3 @ [Path u, Uri u], p_buf_idx := 0, p_state := s_http_09\<rparr>)"
    by (intro goes_step) (auto simp: holds_def)
  moreover define p4 where
    "p4 = p3\<lparr>p_userdata := p_userdata p3 @ [Path u, Uri u], p_buf_idx := 0, p_state := s_http_09\<rparr>"
  ultimately have "goes p (CHR '' '' # u @ '' '') p4"
    using go by (simp add: u p3_def [symmetric] goes_cons goes_trans)
  moreover have "p_method p3 \<noteq> htp_method_CONNECT"
    using method_of_connect [OF assms(1,4,5)] by (simp add: p3_def p2_def p1_def)
  ultimately show ?thesis
    by (intro exI [of _ p4]) (simp add: req_frame_def p4_def, simp add: p3_def p2_def p1_def)
qed

definition request_line :: "string \<Rightarrow> string \<Rightarrow> nat \<Rightarrow> nat \<Rightarrow> string" where
  "request_line m u a b =
     m @ CHR '' '' # u @ '' HTTP/'' @ [digit_char a, CHR ''.'', digit_char b, CR, LF]"

lemma request_line_run:
  assumes "idle p" "method_ok m" "uri_ok u" "0 < a" "a < 10" "b < 10"
  shows "\<exists>q. goes p (request_line m u a b) q \<and> p_state q = s_done \<and> p_buf_idx q = 0 \<and>
    p_userdata q = p_userdata p @ [MsgBegin, Method m, Path u, Uri u, HdrsBegin] \<and> p_flags q = {} \<and>
    p_method q \<noteq> htp_method_CONNECT \<and> req_frame p q"
proof -
  obtain p1 where p1: "goes p m p1" "holds p1 m" "p_state p1 = s_method" "p_flags p1 = {}"
    "p_userdata p1 = p_userdata p @ [MsgBegin]" "p_method p1 = p_method p" "req_frame p p1"
    using method_run [OF assms(1,2)] by blast
  obtain p2 where p2: "goes p1 (CHR '' '' # u @ '' '') p2" "p_state p2 = s_http_09" "p_buf_idx p2 = 0"
    "p_userdata p2 = p_userdata p1 @ [Method m, Path u, Uri u]" "p_flags p2 = p_flags p1"
    "p_method p2 \<noteq> htp_method_CONNECT" "req_frame p1 p2"
    using uri_line [OF p1(2,3) assms(3)] assms(1,2) p1(6,7) by (auto simp: method_ok_def idle_def req_frame_def)
  have "p_type p2 = htp_type_request" using assms(1) p1(7) p2(7) by (simp add: idle_def req_frame_def)
  with version_run [OF p2(2,3) _ assms(4-6)] obtain p3 where
    p3: "goes p2 (''HTTP/'' @ [digit_char a, CHR ''.'', digit_char b, CR, LF]) p3"
    "p_state p3 = s_done" "p_buf_idx p3 = 0" "p_userdata p3 = p_userdata p2 @ [HdrsBegin]"
    "p_flags p3 = p_flags p2" "p_method p3 = p_method p2" "req_frame p2 p3"
    by blast
  have "goes p (request_line m u a b) p3"
    using goes_trans [OF p1(1) goes_trans [OF p2(1) p3(1)]] by (simp add: request_line_def)
  with p1 p2 p3 show ?thesis by (intro exI [of _ p3]) (simp add: req_frame_def)
qed

section \<open>Header lines\<close>

lemma tolower_NUL [simp]: "tolower c = NUL \<longleftrightarrow> c = NUL"
proof -
  have "''abcdefghijklmnopqrstuvwxyz'' ! i \<noteq> NUL" if "i < 26" for i
  proof -
    have "''abcdefghijklmnopqrstuvwxyz'' ! i \<in> set ''abcdefghijklmnopqrstuvwxyz''"
      using that by (intro nth_mem) simp
    then show ?thesis by auto
  qed
  then show ?thesis by (auto simp: tolower_def)
qed

lemma strcaseeq_region:
  assumes "\<forall>j < length t. m (i + j) = t ! j" "m (i + length t) = NUL" "NUL \<notin> set t" "NUL \<notin> set lit"
  shows "strcaseeq m i lit \<longleftrightarrow> map tolower t = map tolower lit"
  using assms
proof (induction lit arbitrary: i t)
  case Nil
  then show ?case by (cases t) (auto simp: strcaseeq.simps)
next
  case (Cons c lit)
  show ?case
  proof (cases t)
    case Nil
    with Cons.prems show ?thesis by (auto simp: strcaseeq.simps) (metis tolower_NUL)
  next
    case (Cons d t')
    have "\<forall>j < length t'. m (Suc i + j) = t' ! j"
      using Cons.prems(1) Cons by fastforce
    then have "strcaseeq m (Suc i) lit \<longleftrightarrow> map tolower t' = map tolower lit"
      using Cons.prems Cons by (intro Cons.IH) auto
    with Cons.prems(1) Cons show ?thesis by (force simp: strcaseeq.simps)
  qed
qed

lemma strcaseeq_holds:
  "\<lbrakk>holds p t; NUL \<notin> set t; NUL \<notin> set lit\<rbrakk> \<Longrightarrow> strcaseeq (p_buf p) 0 lit \<longleftrightarrow> map tolower t = map tolower lit"
  using strcaseeq_region [of t "p_buf p" 0 lit] by (simp add: holds_def)

text \<open>What a header means to the parser.\<close>

definition hdr_kind :: "string \<Rightarrow> eval_hdr_val" where
  "hdr_kind k =
     (let k = map tolower k in
      if k = ''host'' then eval_hdr_val_hostname
      else if k = ''connection'' then eval_hdr_val_connection
      else if k = ''content-type'' then eval_hdr_val_content_type
      else if k = ''content-length'' then eval_hdr_val_content_length
      else if k = ''proxy-connection'' then eval_hdr_val_proxy_connection
      else if k = ''transfer-encoding'' then eval_hdr_val_transfer_encoding
      else eval_hdr_val_none)"

definition hdr_flags :: "string \<times> string \<Rightarrow> parser_flags set \<Rightarrow> parser_flags set" where
  "hdr_flags h F = (case h of (k, v) \<Rightarrow> F \<union>
     (if hdr_kind k = eval_hdr_val_content_length then {parser_flag_content_length}
      else if hdr_kind k = eval_hdr_val_connection \<and> map tolower v = ''keep-alive''
        then {parser_flag_connection_keep_alive}
      else if hdr_kind k = eval_hdr_val_connection \<and> map tolower v = ''close'' \<and> hd v = CHR ''c''
        then {parser_flag_connection_close}
      else if hdr_kind k = eval_hdr_val_transfer_encoding \<and> map tolower v = ''chunked''
        then {parser_flag_chunked}
      else {}))"

definition hdr_len :: "string \<times> string \<Rightarrow> 64 word \<Rightarrow> 64 word" where
  "hdr_len h L = (case h of (k, v) \<Rightarrow>
     if hdr_kind k = eval_hdr_val_content_length then of_nat (read_dec 0 v) else L)"

definition hdr_events :: "string \<times> string \<Rightarrow> event list" where
  "hdr_events h = (case h of (k, v) \<Rightarrow>
     [Key k, Val v] @ (if hdr_kind k = eval_hdr_val_hostname then [Hostname v] else []))"

definition hdr_ok :: "string \<times> string \<Rightarrow> bool" where
  "hdr_ok h \<longleftrightarrow> (case h of (k, v) \<Rightarrow>
     k \<noteq> [] \<and> length k < PARSER_STACK_MAX \<and> set k \<inter> {CHR '':'', CR, LF, NUL} = {} \<and>
     v \<noteq> [] \<and> length v < PARSER_STACK_MAX \<and> set v \<inter> {CR, LF, NUL} = {} \<and> hd v \<noteq> CHR '' '' \<and>
     (hdr_kind k = eval_hdr_val_content_length \<longrightarrow>
        str_to_uint64 v = (of_nat (read_dec 0 v), False)))"

definition render_hdr :: "string \<times> string \<Rightarrow> string" where
  "render_hdr h = (case h of (k, v) \<Rightarrow> k @ '': '' @ v @ [CR, LF])"

lemma tolower_lit:
  "map tolower ''host'' = ''host''" "map tolower ''connection'' = ''connection''"
  "map tolower ''content-type'' = ''content-type''" "map tolower ''content-length'' = ''content-length''"
  "map tolower ''proxy-connection'' = ''proxy-connection''"
  "map tolower ''transfer-encoding'' = ''transfer-encoding''"
  "map tolower ''keep-alive'' = ''keep-alive''" "map tolower ''close'' = ''close''"
  "map tolower ''chunked'' = ''chunked''"
  by (simp_all add: tolower_def)

lemma heval_of_holds:
  assumes "holds p k" "NUL \<notin> set k"
  shows "heval_of (p_buf p) (p_buf_idx p) = hdr_kind k"
proof -
  have e: "(p_buf_idx p + 1 = n \<and> strcaseeq (p_buf p) 0 lit) = (map tolower k = lit)"
    if "NUL \<notin> set lit" "map tolower lit = lit" "n = length lit + 1" for lit n
    using assms that strcaseeq_holds [OF assms that(1)] by (auto simp: holds_idx)
  show ?thesis
    unfolding heval_of_def hdr_kind_def Let_def
    by (subst e, simp, simp add: tolower_def, simp)+ (rule refl)
qed

text \<open>The fields a header line leaves alone.\<close>

definition hdr_frame :: "'u htparser \<Rightarrow> 'u htparser \<Rightarrow> bool" where
  "hdr_frame p q \<longleftrightarrow> p_type q = p_type p \<and> p_method q = p_method p \<and>
     p_args_offset q = p_args_offset p \<and> p_error q = p_error p"

lemma key_run:
  assumes "p_state p \<in> {s_done, s_hdrline_hdr_done}" "p_buf_idx p = 0" "hdr_ok (k, v)"
  shows "\<exists>q. goes p (k @ '': '') q \<and> p_state q = s_hdrline_hdr_space_before_val \<and> p_buf_idx q = 0 \<and>
    p_heval q = hdr_kind k \<and> p_userdata q = p_userdata p @ [Key k] \<and> p_flags q = p_flags p \<and>
    p_content_len q = p_content_len p \<and> hdr_frame p q"
proof -
  obtain c cs where k: "k = c # cs" using assms(3) by (cases k) (auto simp: hdr_ok_def)
  have ok: "c \<noteq> CR" "c \<noteq> LF" "CHR '':'' \<notin> set cs" "CR \<notin> set cs" "LF \<notin> set cs" "NUL \<notin> set k"
    "length [c] + length cs < PARSER_STACK_MAX"
    using assms(3) by (auto simp: hdr_ok_def k)
  let ?p = "(buf_put c (p\<lparr>p_buf_idx := 0\<rparr>))\<lparr>p_state := s_hdrline_hdr_key\<rparr>"
  have step: "goes p [c] ?p"
    using assms(1,2) ok
    by (intro goes_step) (auto simp: PARSER_STACK_MAX_def st_done_def st_hdrline_start_def st_hdrline_hdr_done_def goto_def)
  have h: "holds ?p [c]"
    using holds_start [of "p\<lparr>p_buf_idx := 0\<rparr>" c] by (simp add: holds_def)
  have "goes ?p cs (puts cs ?p)"
    using ok by (intro goes_puts [OF h ok(7)]) (auto simp: st_hdrline_hdr_key_def)
  with step have go: "goes p k (puts cs ?p)" by (simp add: k goes_cons)
  define q where "q = puts cs ?p"
  have qs: "p_state q = s_hdrline_hdr_key" by (simp add: q_def)
  have hq: "holds q k" using holds_puts [OF h ok(7)] by (simp add: k q_def)
  define r where "r = q\<lparr>p_userdata := p_userdata q @ [Key k], p_heval := hdr_kind k, p_buf_idx := 0,
    p_state := s_hdrline_hdr_space_before_val\<rparr>"
  have "goes q '':'' r"
    using hq holds_bytes [OF hq] heval_of_holds [OF hq ok(6)] qs
    by (intro goes_step) (simp_all add: r_def st_hdrline_hdr_key_def check_res_def Let_def holds_def)
  moreover have "goes r '' '' r"
    by (intro goes_step) (simp_all add: r_def PARSER_STACK_MAX_def st_hdrline_hdr_space_before_val_def)
  ultimately have "goes q '': '' r" by (rule goes_cons)
  with go have "goes p (k @ '': '') r" unfolding q_def by (rule goes_trans)
  then show ?thesis by (intro exI [of _ r]) (simp add: r_def q_def hdr_frame_def)
qed

lemma tolower_k: "tolower c = CHR ''k'' \<Longrightarrow> c = CHR ''k'' \<or> c = CHR ''K''"
proof (cases "65 \<le> code c \<and> code c \<le> 90")
  case True
  assume "tolower c = CHR ''k''"
  then have "''abcdefghijklmnopqrstuvwxyz'' ! (code c - 65) = ''abcdefghijklmnopqrstuvwxyz'' ! 10"
    using True by (simp add: tolower_def)
  then have "code c - 65 = 10" using True by (subst (asm) nth_eq_iff_index_eq) auto
  then have "code c = code (CHR ''K'')" using True by simp
  then show ?thesis unfolding of_char_eq_iff by simp
qed (auto simp: tolower_def)

lemma eval_hdr_run:
  assumes q: "holds q v" "p_heval q = hdr_kind k" and ok: "hdr_ok (k, v)"
  shows "\<exists>r. eval_hdr log_hooks 0 q = Inr (0, r) \<and> p_flags r = hdr_flags (k, v) (p_flags q) \<and>
    p_content_len r = hdr_len (k, v) (p_content_len q) \<and>
    p_userdata r = p_userdata q @ drop 2 (hdr_events (k, v)) \<and> hdr_frame q r"
proof -
  have nul: "NUL \<notin> set v" "v \<noteq> []" using ok by (auto simp: hdr_ok_def)
  have v0: "p_buf q 0 = hd v" using q(1) nul(2) by (cases v) (auto simp: holds_def)
  have eq: "strcaseeq (p_buf q) 0 ''keep-alive'' \<longleftrightarrow> map tolower v = ''keep-alive''"
    "strcaseeq (p_buf q) 0 ''close'' \<longleftrightarrow> map tolower v = ''close''"
    "strcaseeq (p_buf q) 0 ''chunked'' \<longleftrightarrow> map tolower v = ''chunked''"
    by (subst strcaseeq_holds [OF q(1) nul(1)], simp, simp add: tolower_def)+
  have ka: "hd v = CHR ''K'' \<or> hd v = CHR ''k''" if "map tolower v = ''keep-alive''"
    using that tolower_k [of "hd v"] nul(2) by (cases v) auto
  show ?thesis
  proof (cases "hdr_kind k")
    case eval_hdr_val_connection
    then show ?thesis using q(2) eq v0 ka
      by (auto simp: eval_hdr_def hdr_flags_def hdr_len_def hdr_events_def hdr_frame_def simp del: map_eq_Cons_conv)
  next
    case eval_hdr_val_content_length
    then show ?thesis using q ok
      by (auto simp: eval_hdr_def hdr_flags_def hdr_len_def hdr_events_def hdr_frame_def hdr_ok_def holds_text Let_def)
  next
    case eval_hdr_val_hostname
    then show ?thesis using q holds_bytes [OF q(1)]
      by (auto simp: eval_hdr_def hdr_flags_def hdr_len_def hdr_events_def hdr_frame_def)
  qed (use q eq in \<open>auto simp: eval_hdr_def hdr_flags_def hdr_len_def hdr_events_def hdr_frame_def\<close>)
qed

lemma val_run:
  assumes p: "p_state p = s_hdrline_hdr_space_before_val" "p_buf_idx p = 0" "p_heval p = hdr_kind k"
    and ok: "hdr_ok (k, v)" and tr: "parser_flag_trailing \<notin> p_flags p"
  shows "\<exists>q. goes p (v @ [CR, LF]) q \<and> p_state q = s_hdrline_hdr_done \<and> p_buf_idx q = 0 \<and>
    p_userdata q = p_userdata p @ drop 1 (hdr_events (k, v)) \<and> p_flags q = hdr_flags (k, v) (p_flags p) \<and>
    p_content_len q = hdr_len (k, v) (p_content_len p) \<and> hdr_frame p q"
proof -
  obtain c cs where v: "v = c # cs" using ok by (cases v) (auto simp: hdr_ok_def)
  have oks: "c \<noteq> CR" "c \<noteq> LF" "c \<noteq> CHR '' ''" "CR \<notin> set cs" "LF \<notin> set cs" "NUL \<notin> set v"
    "length [c] + length cs < PARSER_STACK_MAX"
    using ok by (auto simp: hdr_ok_def v)
  let ?p = "(buf_put c p)\<lparr>p_state := s_hdrline_hdr_val\<rparr>"
  have step: "goes p [c] ?p"
    using p oks
    by (intro goes_step) (simp_all add: PARSER_STACK_MAX_def st_hdrline_hdr_space_before_val_def goto_def)
  have h: "holds ?p [c]" using holds_start [of p c] p by (simp add: holds_def)
  define q where "q = puts cs ?p"
  have "goes ?p cs q"
    unfolding q_def using oks by (intro goes_puts [OF h oks(7)]) (auto simp: st_hdrline_hdr_val_def)
  with step have go: "goes p v q" by (simp add: v goes_cons)
  have hq: "holds q v" using holds_puts [OF h oks(7)] by (simp add: v q_def)
  define q1 where "q1 = q\<lparr>p_userdata := p_userdata q @ [Val v]\<rparr>"
  have fr: "p_state q = s_hdrline_hdr_val" "p_heval q1 = hdr_kind k" "p_flags q1 = p_flags p"
    "p_content_len q1 = p_content_len p" "p_userdata q1 = p_userdata p @ [Val v]" "hdr_frame p q1"
    using p(3) by (simp_all add: q1_def q_def hdr_frame_def)
  have hq1: "holds q1 v" using hq by (simp add: q1_def holds_def)
  obtain r where r: "eval_hdr log_hooks 0 q1 = Inr (0, r)" "p_flags r = hdr_flags (k, v) (p_flags q1)"
    "p_content_len r = hdr_len (k, v) (p_content_len q1)"
    "p_userdata r = p_userdata q1 @ drop 2 (hdr_events (k, v))" "hdr_frame q1 r"
    using eval_hdr_run [OF hq1 fr(2) ok] by blast
  define r1 where "r1 = r\<lparr>p_state := s_hdrline_hdr_almost_done, p_buf_idx := 0\<rparr>"
  have tr': "parser_flag_trailing \<notin> p_flags r1"
    using tr fr(3) r(2) by (auto simp: r1_def hdr_flags_def split: if_splits)
  have "goes q [CR] r1"
    using hq holds_bytes [OF hq] fr(1) r(1)
    by (intro goes_step) (simp_all add: st_hdrline_hdr_val_def q1_def r1_def check_res_def holds_def)
  moreover have "goes r1 [LF] (r1\<lparr>p_state := s_hdrline_hdr_done\<rparr>)"
    using tr' by (intro goes_step) (simp_all add: r1_def PARSER_STACK_MAX_def st_hdrline_hdr_almost_done_def goto_def)
  ultimately have "goes q [CR, LF] (r1\<lparr>p_state := s_hdrline_hdr_done\<rparr>)" by (rule goes_cons)
  with go have "goes p (v @ [CR, LF]) (r1\<lparr>p_state := s_hdrline_hdr_done\<rparr>)" by (rule goes_trans)
  with fr r show ?thesis
    by (intro exI [of _ "r1\<lparr>p_state := s_hdrline_hdr_done\<rparr>"]) (simp add: r1_def hdr_frame_def hdr_events_def)
qed

lemma trailing_hdr_flags: "parser_flag_trailing \<in> hdr_flags h F \<longleftrightarrow> parser_flag_trailing \<in> F"
  by (auto simp: hdr_flags_def split: prod.splits if_splits)

lemma hdr_run:
  assumes "p_state p \<in> {s_done, s_hdrline_hdr_done}" "p_buf_idx p = 0" "hdr_ok h" "parser_flag_trailing \<notin> p_flags p"
  shows "\<exists>q. goes p (render_hdr h) q \<and> p_state q = s_hdrline_hdr_done \<and> p_buf_idx q = 0 \<and>
    p_userdata q = p_userdata p @ hdr_events h \<and> p_flags q = hdr_flags h (p_flags p) \<and>
    p_content_len q = hdr_len h (p_content_len p) \<and> hdr_frame p q"
proof -
  obtain k v where h: "h = (k, v)" by (cases h)
  obtain p1 where p1: "goes p (k @ '': '') p1" "p_state p1 = s_hdrline_hdr_space_before_val" "p_buf_idx p1 = 0"
    "p_heval p1 = hdr_kind k" "p_userdata p1 = p_userdata p @ [Key k]" "p_flags p1 = p_flags p"
    "p_content_len p1 = p_content_len p" "hdr_frame p p1"
    using key_run [OF assms(1,2)] assms(3) h by blast
  obtain q where q: "goes p1 (v @ [CR, LF]) q" "p_state q = s_hdrline_hdr_done" "p_buf_idx q = 0"
    "p_userdata q = p_userdata p1 @ drop 1 (hdr_events h)" "p_flags q = hdr_flags h (p_flags p1)"
    "p_content_len q = hdr_len h (p_content_len p1)" "hdr_frame p1 q"
    using val_run [OF p1(2-4), of v] assms(3,4) p1(6) h by auto
  have "goes p (render_hdr h) q" using goes_trans [OF p1(1) q(1)] by (simp add: render_hdr_def h)
  with p1 q show ?thesis by (intro exI [of _ q]) (simp add: hdr_frame_def hdr_events_def h)
qed

lemma hdrs_run:
  assumes "p_state p \<in> {s_done, s_hdrline_hdr_done}" "p_buf_idx p = 0" "\<forall>h \<in> set hs. hdr_ok h"
    and "parser_flag_trailing \<notin> p_flags p"
  shows "\<exists>q. goes p (concat (map render_hdr hs)) q \<and> p_state q \<in> {s_done, s_hdrline_hdr_done} \<and>
    p_buf_idx q = 0 \<and> p_userdata q = p_userdata p @ concat (map hdr_events hs) \<and>
    p_flags q = fold hdr_flags hs (p_flags p) \<and> p_content_len q = fold hdr_len hs (p_content_len p) \<and>
    hdr_frame p q"
  using assms
proof (induction hs arbitrary: p)
  case Nil
  then show ?case by (intro exI [of _ p]) (simp add: goes_nil hdr_frame_def)
next
  case (Cons h hs)
  obtain p1 where p1: "goes p (render_hdr h) p1" "p_state p1 = s_hdrline_hdr_done" "p_buf_idx p1 = 0"
    "p_userdata p1 = p_userdata p @ hdr_events h" "p_flags p1 = hdr_flags h (p_flags p)"
    "p_content_len p1 = hdr_len h (p_content_len p)" "hdr_frame p p1"
    using hdr_run [of p h] Cons.prems by auto
  obtain q where q: "goes p1 (concat (map render_hdr hs)) q" "p_state q \<in> {s_done, s_hdrline_hdr_done}"
    "p_buf_idx q = 0" "p_userdata q = p_userdata p1 @ concat (map hdr_events hs)"
    "p_flags q = fold hdr_flags hs (p_flags p1)" "p_content_len q = fold hdr_len hs (p_content_len p1)" "hdr_frame p1 q"
    using Cons.IH [of p1] Cons.prems p1 by (auto simp: trailing_hdr_flags)
  have "goes p (concat (map render_hdr (h # hs))) q" using goes_trans [OF p1(1) q(1)] by simp
  with p1 q show ?case by (intro exI [of _ q]) (simp add: hdr_frame_def)
qed

section \<open>Bodies\<close>

definition hex_digit :: "nat \<Rightarrow> byte" where
  "hex_digit d = ''0123456789abcdef'' ! d"

fun hex :: "nat \<Rightarrow> string" where
  "hex n = (if n < 16 then [hex_digit n] else hex (n div 16) @ [hex_digit (n mod 16)])"

declare hex.simps [simp del]

definition render_chunk :: "string \<Rightarrow> string" where
  "render_chunk c = hex (length c) @ [CR, LF] @ c @ [CR, LF]"

datatype body = No_Body | Length_Body string | Chunked_Body "string list"

fun render_body :: "body \<Rightarrow> string" where
  "render_body No_Body = []"
| "render_body (Length_Body b) = b"
| "render_body (Chunked_Body cs) = concat (map render_chunk cs) @ ''0'' @ [CR, LF, CR, LF]"

fun body_events :: "body \<Rightarrow> event list" where
  "body_events No_Body = [MsgComplete]"
| "body_events (Length_Body b) = [Body b, MsgComplete]"
| "body_events (Chunked_Body cs) =
     concat (map (\<lambda>c. [NewChunk, Body c, ChunkComplete]) cs) @ [ChunksComplete, MsgComplete]"

text \<open>The body the headers announce.\<close>

fun body_ok :: "parser_flags set \<Rightarrow> 64 word \<Rightarrow> body \<Rightarrow> bool" where
  "body_ok F L No_Body = (parser_flag_chunked \<notin> F \<and> L = 0)"
| "body_ok F L (Length_Body b) =
     (parser_flag_chunked \<notin> F \<and> parser_flag_content_length \<in> F \<and> b \<noteq> [] \<and> length b < 2 ^ 64 \<and> L = of_nat (length b))"
| "body_ok F L (Chunked_Body cs) = (parser_flag_chunked \<in> F \<and> (\<forall>c \<in> set cs. c \<noteq> [] \<and> length c < 2 ^ 64))"

lemma unhex_digit [simp]: "d < 16 \<Longrightarrow> unhex ! code (hex_digit d) = int d"
  by (auto simp: hex_digit_def unhex_def numeral_eq_Suc less_Suc_eq)

lemma hex_digit_not_CR [simp]: "d < 16 \<Longrightarrow> hex_digit d \<noteq> CR"
  by (auto simp: hex_digit_def numeral_eq_Suc less_Suc_eq)

lemma hex_nonempty [simp]: "hex n \<noteq> []"
  by (subst hex.simps) simp

lemma size_run:
  assumes "p_state p = s_chunk_size_start" "p_buf_idx p = 0"
  shows "goes p (hex n) (p\<lparr>p_content_len := of_nat n, p_state := s_chunk_size\<rparr>)"
proof (induction n rule: hex.induct)
  case (1 n)
  show ?case
  proof (cases "n < 16")
    case True
    then show ?thesis
      using assms by (subst hex.simps) (auto intro!: goes_step simp: PARSER_STACK_MAX_def st_chunk_size_start_def goto_def)
  next
    case False
    let ?p = "p\<lparr>p_content_len := of_nat (n div 16), p_state := s_chunk_size\<rparr>"
    have "(of_nat (n div 16) :: 64 word) * 16 + of_nat (n mod 16) = of_nat (n div 16 * 16 + n mod 16)"
      by (simp only: of_nat_add of_nat_mult of_nat_numeral)
    then have "goes ?p [hex_digit (n mod 16)] (p\<lparr>p_content_len := of_nat n, p_state := s_chunk_size\<rparr>)"
      using assms by (intro goes_step) (simp_all add: PARSER_STACK_MAX_def st_chunk_size_def)
    with 1 False show ?thesis by (subst hex.simps) (simp add: goes_trans)
  qed
qed

lemma small_word:
  "n < 2 ^ 64 \<Longrightarrow> unat (of_nat n :: 64 word) = n" "\<lbrakk>0 < n; n < 2 ^ 64\<rbrakk> \<Longrightarrow> (of_nat n :: 64 word) \<noteq> 0"
proof -
  show u: "n < 2 ^ 64 \<Longrightarrow> unat (of_nat n :: 64 word) = n" by (simp add: unat_of_nat take_bit_nat_eq_self)
  show "(of_nat n :: 64 word) \<noteq> 0" if "0 < n" "n < 2 ^ 64"
    using u [OF that(2)] that(1) by auto
qed

lemma chunk_run:
  assumes p: "p_state p = s_chunk_size_start" "p_buf_idx p = 0" and c: "c \<noteq> []" "length c < 2 ^ 64"
  shows "goes p (render_chunk c)
    (p\<lparr>p_userdata := p_userdata p @ [NewChunk, Body c, ChunkComplete], p_content_len := 0, p_state := s_chunk_size_start\<rparr>)"
proof -
  obtain x xs where x: "c = x # xs" using c(1) by (cases c) auto
  have idx: "0 < PARSER_STACK_MAX" by (simp add: PARSER_STACK_MAX_def)
  let ?n = "of_nat (length c) :: 64 word"
  note n = small_word(1) [OF c(2)] small_word(2) [OF _ c(2)]
  define p1 where "p1 = p\<lparr>p_content_len := ?n, p_state := s_chunk_size\<rparr>"
  define p2 where "p2 = p1\<lparr>p_userdata := p_userdata p @ [NewChunk], p_state := s_chunk_data\<rparr>"
  define p3 where "p3 = p2\<lparr>p_userdata := p_userdata p @ [NewChunk, Body c], p_state := s_chunk_data_almost_done, p_content_len := 0\<rparr>"
  have "goes p (hex (length c)) p1" unfolding p1_def by (rule size_run [OF p])
  also have "goes p1 [CR] (p1\<lparr>p_state := s_chunk_size_almost_done\<rparr>)"
    using p idx by (intro goes_step) (simp_all add: p1_def st_chunk_size_def goto_def)
  also have "goes (p1\<lparr>p_state := s_chunk_size_almost_done\<rparr>) [LF] p2"
    using p idx n(2) c(1)
    by (intro goes_step) (simp_all add: p1_def p2_def st_chunk_size_almost_done_def check_res_def)
  also have "goes p2 c p3"
    unfolding x using p idx n x
    by (intro goes_body) (simp_all add: p1_def p2_def p3_def st_chunk_data_def check_res_def hook_bytes_def Let_def)
  also have "goes p3 [CR] (p3\<lparr>p_state := s_chunk_data_done\<rparr>)"
    using p idx by (intro goes_step) (simp_all add: p3_def p2_def p1_def st_chunk_data_almost_done_def goto_def)
  also have "goes (p3\<lparr>p_state := s_chunk_data_done\<rparr>) [LF]
      (p\<lparr>p_userdata := p_userdata p @ [NewChunk, Body c, ChunkComplete], p_content_len := 0, p_state := s_chunk_size_start\<rparr>)"
    using p idx by (intro goes_step) (simp_all add: p3_def p2_def p1_def st_chunk_data_done_def check_res_def)
  finally show ?thesis by (simp add: render_chunk_def)
qed

lemma chunks_run:
  assumes "p_state p = s_chunk_size_start" "p_buf_idx p = 0" "\<forall>c \<in> set cs. c \<noteq> [] \<and> length c < 2 ^ 64"
  shows "\<exists>L. goes p (concat (map render_chunk cs))
    (p\<lparr>p_userdata := p_userdata p @ concat (map (\<lambda>c. [NewChunk, Body c, ChunkComplete]) cs), p_content_len := L\<rparr>)"
  using assms
proof (induction cs arbitrary: p)
  case Nil
  then show ?case by (intro exI [of _ "p_content_len p"]) (simp add: goes_nil)
next
  case (Cons c cs)
  let ?p = "p\<lparr>p_userdata := p_userdata p @ [NewChunk, Body c, ChunkComplete], p_content_len := 0, p_state := s_chunk_size_start\<rparr>"
  have "goes p (render_chunk c) ?p" using Cons.prems by (intro chunk_run) auto
  moreover obtain L where "goes ?p (concat (map render_chunk cs))
      (?p\<lparr>p_userdata := p_userdata ?p @ concat (map (\<lambda>c. [NewChunk, Body c, ChunkComplete]) cs), p_content_len := L\<rparr>)"
    using Cons.IH [of ?p] Cons.prems by auto
  ultimately have "goes p (concat (map render_chunk (c # cs)))
      (?p\<lparr>p_userdata := p_userdata ?p @ concat (map (\<lambda>c. [NewChunk, Body c, ChunkComplete]) cs), p_content_len := L\<rparr>)"
    by (simp add: goes_trans)
  with Cons.prems(1) show ?case by (cases p) auto
qed

lemma last_chunk_run:
  assumes p: "p_state p = s_chunk_size_start" "p_buf_idx p = 0"
  shows "goes p (''0'' @ [CR, LF, CR, LF])
    (p\<lparr>p_content_len := 0, p_userdata := p_userdata p @ [ChunksComplete, MsgComplete],
       p_flags := insert parser_flag_trailing (p_flags p), p_state := s_start\<rparr>)"
proof -
  have "0 < PARSER_STACK_MAX" by (simp add: PARSER_STACK_MAX_def)
  note [simp] = this p st_chunk_size_start_def st_chunk_size_def st_chunk_size_almost_done_def
    st_hdrline_start_def st_hdrline_hdr_almost_done_def goto_def check_res_def unhex_def
  have "\<exists>q. goes p (''0'' @ [CR, LF, CR, LF]) q \<and>
      q = p\<lparr>p_content_len := 0, p_userdata := p_userdata p @ [ChunksComplete, MsgComplete],
         p_flags := insert parser_flag_trailing (p_flags p), p_state := s_start\<rparr>"
    unfolding append.simps
    by (rule goes_stepI, simp, simp)+ (rule goes_doneI, use p in \<open>cases p; simp\<close>)
  then show ?thesis by blast
qed

lemma body_run:
  assumes p: "p_state p \<in> {s_done, s_hdrline_hdr_done}" "p_buf_idx p = 0" "p_type p = htp_type_request"
      "p_method p \<noteq> htp_method_CONNECT" "p_args_offset p = None" "p_error p = htparse_error_none"
      "parser_flag_trailing \<notin> p_flags p"
    and ok: "body_ok (p_flags p) (p_content_len p) b"
  shows "\<exists>q. goes p ([CR, LF] @ render_body b) q \<and> idle q \<and> p_userdata q = p_userdata p @ HdrsComplete # body_events b"
proof -
  have idx: "0 < PARSER_STACK_MAX" by (simp add: PARSER_STACK_MAX_def)
  define p1 where "p1 = p\<lparr>p_state := s_hdrline_almost_done, p_userdata := p_userdata p @ [HdrsComplete]\<rparr>"
  have p1: "goes p [CR] p1"
    using p idx by (intro goes_step) (auto simp: p1_def st_done_def st_hdrline_hdr_done_def check_res_def)
  show ?thesis
  proof (cases b)
    case No_Body
    define q where "q = p1\<lparr>p_buf_idx := 0, p_userdata := p_userdata p1 @ [MsgComplete], p_state := s_start\<rparr>"
    have "goes p1 [LF] q"
      using p ok idx No_Body
      by (intro goes_step) (simp_all add: q_def p1_def st_hdrline_almost_done_def check_res_def Let_def)
    with p1 have "goes p [CR, LF] q" by (rule goes_cons)
    with p ok No_Body show ?thesis by (intro exI [of _ q]) (simp add: q_def p1_def idle_def)
  next
    case (Length_Body d)
    then obtain x xs where x: "d = x # xs" using ok by (cases d) auto
    have L: "p_content_len p = of_nat (length d)" "parser_flag_content_length \<in> p_flags p"
        "length d < 2 ^ 64" "parser_flag_chunked \<notin> p_flags p"
      using ok Length_Body by auto
    have n: "unat (p_content_len p) = length d" "p_content_len p \<noteq> 0"
      using small_word [of "length d"] L by (simp_all add: x)
    define p2 where "p2 = p1\<lparr>p_buf_idx := 0, p_state := s_body_read\<rparr>"
    define q where "q = p2\<lparr>p_content_len := 0, p_userdata := p_userdata p2 @ [Body d, MsgComplete], p_state := s_start\<rparr>"
    have "goes p1 [LF] p2"
      using p idx L(2-) n(2)
      by (intro goes_step) (simp_all add: p2_def p1_def st_hdrline_almost_done_def goto_def Let_def word_gt_0)
    with p1 have "goes p [CR, LF] p2" by (rule goes_cons)
    also have "goes p2 d q"
      unfolding x using idx L n x
      by (intro goes_body)
        (simp_all add: q_def p2_def p1_def st_body_read_def check_res_def hook_bytes_def Let_def)
    finally show ?thesis
      using p Length_Body by (intro exI [of _ q]) (simp add: q_def p2_def p1_def idle_def)
  next
    case (Chunked_Body cs)
    define p2 where "p2 = p1\<lparr>p_buf_idx := 0, p_state := s_chunk_size_start\<rparr>"
    have "goes p1 [LF] p2"
      using p idx ok Chunked_Body
      by (intro goes_step) (simp_all add: p2_def p1_def st_hdrline_almost_done_def goto_def Let_def)
    with p1 have "goes p [CR, LF] p2" by (rule goes_cons)
    also obtain L where "goes p2 (concat (map render_chunk cs))
        (p2\<lparr>p_userdata := p_userdata p2 @ concat (map (\<lambda>c. [NewChunk, Body c, ChunkComplete]) cs), p_content_len := L\<rparr>)"
      (is "goes p2 _ ?p3")
      using chunks_run [of p2 cs] ok Chunked_Body by (auto simp: p2_def)
    also have "goes ?p3 (''0'' @ [CR, LF, CR, LF])
        (?p3\<lparr>p_content_len := 0, p_userdata := p_userdata ?p3 @ [ChunksComplete, MsgComplete],
          p_flags := insert parser_flag_trailing (p_flags ?p3), p_state := s_start\<rparr>)" (is "goes _ _ ?q")
      by (intro last_chunk_run) (simp_all add: p2_def)
    finally show ?thesis
      using p Chunked_Body by (intro exI [of _ ?q]) (simp add: p2_def p1_def idle_def)
  qed
qed

section \<open>Requests\<close>

record request =
  rq_method :: string
  rq_uri :: string
  rq_major :: nat
  rq_minor :: nat
  rq_hdrs :: "(string \<times> string) list"
  rq_body :: body

definition render_request :: "request \<Rightarrow> string" where
  "render_request r = request_line (rq_method r) (rq_uri r) (rq_major r) (rq_minor r) @
     concat (map render_hdr (rq_hdrs r)) @ [CR, LF] @ render_body (rq_body r)"

definition request_events :: "request \<Rightarrow> event list" where
  "request_events r = [MsgBegin, Method (rq_method r), Path (rq_uri r), Uri (rq_uri r), HdrsBegin] @
     concat (map hdr_events (rq_hdrs r)) @ HdrsComplete # body_events (rq_body r)"

definition request_ok :: "request \<Rightarrow> bool" where
  "request_ok r \<longleftrightarrow> method_ok (rq_method r) \<and> uri_ok (rq_uri r) \<and>
     0 < rq_major r \<and> rq_major r < 10 \<and> rq_minor r < 10 \<and> (\<forall>h \<in> set (rq_hdrs r). hdr_ok h) \<and>
     body_ok (fold hdr_flags (rq_hdrs r) {}) (fold hdr_len (rq_hdrs r) 0) (rq_body r)"

lemma trailing_fold: "parser_flag_trailing \<in> fold hdr_flags hs F \<longleftrightarrow> parser_flag_trailing \<in> F"
  by (induction hs arbitrary: F) (simp_all add: trailing_hdr_flags)

lemma request_run:
  assumes "idle p" "request_ok r"
  shows "\<exists>q. goes p (render_request r) q \<and> idle q \<and> p_userdata q = p_userdata p @ request_events r"
proof -
  obtain p1 where p1: "goes p (request_line (rq_method r) (rq_uri r) (rq_major r) (rq_minor r)) p1"
    "p_state p1 = s_done" "p_buf_idx p1 = 0" "p_flags p1 = {}"
    "p_userdata p1 = p_userdata p @ [MsgBegin, Method (rq_method r), Path (rq_uri r), Uri (rq_uri r), HdrsBegin]"
    "p_method p1 \<noteq> htp_method_CONNECT" "req_frame p p1"
    using request_line_run [OF assms(1)] assms(2) unfolding request_ok_def by blast
  obtain p2 where p2: "goes p1 (concat (map render_hdr (rq_hdrs r))) p2"
    "p_state p2 \<in> {s_done, s_hdrline_hdr_done}" "p_buf_idx p2 = 0"
    "p_userdata p2 = p_userdata p1 @ concat (map hdr_events (rq_hdrs r))"
    "p_flags p2 = fold hdr_flags (rq_hdrs r) {}" "p_content_len p2 = fold hdr_len (rq_hdrs r) (p_content_len p1)"
    "hdr_frame p1 p2"
    using hdrs_run [of p1 "rq_hdrs r"] assms(2) p1(2-4) unfolding request_ok_def by auto
  have "p_content_len p1 = 0" "p_type p2 = htp_type_request" "p_method p2 \<noteq> htp_method_CONNECT"
      "p_args_offset p2 = None" "p_error p2 = htparse_error_none"
    using assms(1) p1(6,7) p2(7) by (simp_all add: idle_def req_frame_def hdr_frame_def)
  then obtain q where q: "goes p2 ([CR, LF] @ render_body (rq_body r)) q" "idle q"
    "p_userdata q = p_userdata p2 @ HdrsComplete # body_events (rq_body r)"
    using body_run [OF p2(2,3), of "rq_body r"] assms(2) p2(5,6) by (auto simp: request_ok_def trailing_fold)
  have "goes p (render_request r) q"
    using goes_trans [OF p1(1) goes_trans [OF p2(1) q(1)]] by (simp add: render_request_def)
  with p1 p2 q show ?thesis by (intro exI [of _ q]) (simp add: request_events_def)
qed

lemma requests_run:
  "\<lbrakk>idle p; \<forall>r \<in> set rs. request_ok r\<rbrakk> \<Longrightarrow>
    \<exists>q. goes p (concat (map render_request rs)) q \<and> idle q \<and>
      p_userdata q = p_userdata p @ concat (map request_events rs)"
proof (induction rs arbitrary: p)
  case Nil
  then show ?case by (intro exI [of _ p]) (simp add: goes_nil)
next
  case (Cons r rs)
  from request_run [OF Cons.prems(1), of r] Cons.prems(2) obtain p1 where
    p1: "goes p (render_request r) p1" "idle p1" "p_userdata p1 = p_userdata p @ request_events r"
    by auto
  from Cons.IH [OF p1(2)] Cons.prems(2) obtain q where q: "goes p1 (concat (map render_request rs)) q" "idle q"
    "p_userdata q = p_userdata p1 @ concat (map request_events rs)"
    by auto
  have "goes p (concat (map render_request (r # rs))) q" using goes_trans [OF p1(1) q(1)] by simp
  with p1 q show ?case by (intro exI [of _ q]) simp
qed


definition sample_requests :: "request list" where
  "sample_requests =
    [\<lparr>rq_method = ''POST'', rq_uri = ''/x.y?q'', rq_major = 1, rq_minor = 1,
      rq_hdrs = [(''Host'', ''h''), (''Transfer-Encoding'', ''Chunked'')], rq_body = Chunked_Body [''ab'', ''c'']\<rparr>,
     \<lparr>rq_method = ''PUT'', rq_uri = ''/'', rq_major = 1, rq_minor = 0,
      rq_hdrs = [(''content-length'', ''2'')], rq_body = Length_Body ''ok''\<rparr>]"

lemma sample_requests_ok: "\<forall>r \<in> set sample_requests. request_ok r"
  by (simp add: sample_requests_def request_ok_def method_ok_def uri_ok_def PARSER_STACK_MAX_def
      upper_or_underscore_def is_usual_def usual_def uri_next_def hdr_ok_def hdr_kind_def tolower_def
      hdr_flags_def hdr_len_def str_to_uint64_def is_digit_def digit_val_def)


end
