(* ===== verification/Htparse_Props.thy ===== *)
theory Htparse_Props
  imports Htparse_Msg
begin

text \<open>
  Single functions of the parser at their limits: numbers, the string tables, the size of the
  buffer, and the places where the code does something other than its comments or its table say.
\<close>

section \<open>Numbers\<close>

lemma uint64_loop_exact:
  assumes "\<forall>c \<in> set s. is_digit c" "read_dec v s < 2 ^ 64"
  shows "uint64_loop (of_nat v) s = (of_nat (read_dec v s), False)"
  using assms
proof (induction s arbitrary: v)
  case (Cons c s)
  let ?w = "v * 10 + digit_val c"
  have w: "?w < 2 ^ 64" using Cons.prems(2) read_dec_ge [of ?w s] by simp
  then have v: "v < 2 ^ 64" by simp
  have eq: "(of_nat v :: 64 word) * 10 + of_nat (digit_val c) = of_nat ?w" by simp
  have gt: "(of_nat v :: 64 word) < of_nat ?w" if "(of_nat v :: 64 word) \<noteq> 0"
  proof -
    have "v \<noteq> 0" using that by (rule contrapos_nn) simp
    then show ?thesis unfolding word_less_nat_alt small_word(1) [OF w] small_word(1) [OF v] by simp
  qed
  have "\<not> (of_nat v \<noteq> (0 :: 64 word) \<and> of_nat ?w \<le> (of_nat v :: 64 word))"
    using gt by (auto simp del: of_nat_add of_nat_mult dest: leD)
  with Cons.prems(1) have "uint64_loop (of_nat v) (c # s) = uint64_loop (of_nat ?w) s"
    unfolding uint64_loop.simps Let_def eq by (auto simp del: of_nat_add of_nat_mult)
  with Cons.IH [of ?w] Cons.prems show ?case by simp
qed simp




section \<open>Tables\<close>

text \<open>
  C24. \<^verbatim>\<open>htparser_get_methodstr\<close> reads behind its table exactly for the method CONNECT, which the
  parser does recognise, and \<^verbatim>\<open>htparser_get_strerror\<close> exactly for the generic error, which a
  malformed status line sets.
\<close>

theorem string_tables_fault:
  "(htparser_get_methodstr p = Inl OutOfBounds \<longleftrightarrow> p_method p = htp_method_CONNECT) \<and>
   (htparser_get_strerror p = Inl OutOfBounds \<longleftrightarrow> p_error p = htparse_error_generic) \<and>
   p_method (snd (htparser_run (htparser_init () htp_type_request) no_hooks ''CONNECT '')) = htp_method_CONNECT \<and>
   p_error (snd (htparser_run (htparser_init () htp_type_response) no_hooks ''HTTP/1.1 200X'')) = htparse_error_generic"
proof (intro conjI)
  show "htparser_get_methodstr p = Inl OutOfBounds \<longleftrightarrow> p_method p = htp_method_CONNECT"
    by (cases "p_method p") (simp_all add: htparser_get_methodstr_def method_strmap_def)
  show "htparser_get_strerror p = Inl OutOfBounds \<longleftrightarrow> p_error p = htparse_error_generic"
    by (cases "p_error p") (simp_all add: htparser_get_strerror_def htparser_get_error_def errstr_map_def)
qed (simp_all add: htp_eval no_hooks_def fail_def)

section \<open>The size of the buffer\<close>

text \<open>
  C18. A method of more than 8192 letters ends with the error \<^const>\<open>htparse_error_too_big\<close> at the
  byte behind the full buffer.
\<close>

theorem long_method_too_big:
  assumes "\<forall>c \<in> set m. upper_or_underscore c" "PARSER_STACK_MAX < length m"
  shows "let (n, q) = htparser_run (htparser_init [] htp_type_request) log_hooks m in
    n = PARSER_STACK_MAX + 1 \<and> p_error q = htparse_error_too_big"
proof -
  let ?p = "htparser_init [] htp_type_request :: event list htparser"
  have len: "8192 < length m" using assms(2) by (simp add: PARSER_STACK_MAX_def)
  obtain a c d cs where m: "m = a @ c # d # cs" "length a = 8191"
  proof
    show "m = take 8191 m @ m ! 8191 # m ! 8192 # drop 8193 m"
      using len id_take_nth_drop [of 8191 m] Cons_nth_drop_Suc [of 8192 m] by simp
    show "length (take 8191 m) = 8191" using len by simp
  qed
  have up: "\<forall>x \<in> set a. upper_or_underscore x" "upper_or_underscore c" "c \<noteq> CHR '' ''"
    using assms(1) upper_not(3) by (auto simp: m)
  have "method_ok a" using up(1) m(2) by (auto simp: method_ok_def PARSER_STACK_MAX_def)
  from method_run [OF idle_init this, of "[]"] obtain q where q: "goes ?p a q" "holds q a" "p_state q = s_method"
    by blast
  have "goes q [c] (buf_put c q)"
    using q up by (intro goes_step) (simp_all add: holds_def st_method_def)
  with q(1) have go: "goes ?p (a @ [c]) (buf_put c q)" by (rule goes_trans)
  have "p_buf_idx (buf_put c q) = PARSER_STACK_MAX"
    using q(2) m(2) by (simp add: holds_def PARSER_STACK_MAX_def)
  then have "htp_loop log_hooks (d # cs) (buf_put c q) = (1, (buf_put c q)\<lparr>p_error := htparse_error_too_big\<rparr>)"
    by (simp add: htp_loop_full)
  with go have r: "fst (htp_loop log_hooks m ?p) = 8193"
    "forget_counts (snd (htp_loop log_hooks m ?p)) = forget_counts ((buf_put c q)\<lparr>p_error := htparse_error_too_big\<rparr>)"
    unfolding goes_def by (auto simp: m dest!: spec [of _ "d # cs"])
  from arg_cong [OF r(2), of p_error] have "p_error (snd (htp_loop log_hooks m ?p)) = htparse_error_too_big" by simp
  moreover have "?p\<lparr>p_error := htparse_error_none, p_bytes_read := 0\<rparr> = ?p" by (simp add: htparser_init_def)
  ultimately show ?thesis using r(1) by (simp add: htparser_run_def PARSER_STACK_MAX_def case_prod_beta)
qed

theorem long_method_too_big_witness:
  "let (n, q) = htparser_run (htparser_init [] htp_type_request) log_hooks (replicate 10000 (CHR ''A'')) in
    n = PARSER_STACK_MAX + 1 \<and> p_error q = htparse_error_too_big"
proof (rule long_method_too_big)
  show "\<forall>c \<in> set (replicate 10000 (CHR ''A'')). upper_or_underscore c"
    by (simp only: set_replicate_conv_if) (simp add: upper_or_underscore_def)
  show "PARSER_STACK_MAX < length (replicate 10000 (CHR ''A''))"
    by (simp only: length_replicate PARSER_STACK_MAX_def)
qed

section \<open>State left from the previous message\<close>

text \<open>An application that records the lengths it is given for the arguments.\<close>

definition args_len_hooks :: "nat list htparse_hooks" where
  "args_len_hooks = no_hooks\<lparr>hk_args := Some (\<lambda>p s l. (0, p_userdata p @ [unat l]))\<rparr>"


text \<open>
  \<^verbatim>\<open>Connection: Close\<close> with a capital letter is not recognised: the parser asks to keep the
  connection, while \<^verbatim>\<open>Connection: close\<close> ends it.
\<close>

lemma capital_close_ignored:
  "htparser_should_keep_alive (snd (htparser_run (htparser_init () htp_type_request) no_hooks
     (''GET / HTTP/1.1'' @ [CR, LF] @ ''Connection: Close'' @ [CR, LF]))) \<and>
   \<not> htparser_should_keep_alive (snd (htparser_run (htparser_init () htp_type_request) no_hooks
     (''GET / HTTP/1.1'' @ [CR, LF] @ ''Connection: close'' @ [CR, LF])))"
  by (simp add: htp_eval no_hooks_def htparser_should_keep_alive_def)

end
