(* ===== verification/Shrpx_Util.thy ===== *)
theory Shrpx_Util
  imports Prelude
begin

text \<open>
  The string utilities of the proxy and the example tools, \<^verbatim>\<open>spdylay/src/util.cc\<close> and \<^verbatim>\<open>util.h\<close>. A
  \<^verbatim>\<open>std::string\<close> and a range of iterators are lists of characters; the arguments of the functions on
  \<^verbatim>\<open>const char *\<close> are C strings without the terminator, \<open>None\<close> is the null pointer.
\<close>

section \<open>Characters\<close>

definition isAlpha :: "char \<Rightarrow> bool" where
  "isAlpha c \<longleftrightarrow> 65 \<le> code c \<and> code c \<le> 90 \<or> 97 \<le> code c \<and> code c \<le> 122"

definition isDigit :: "char \<Rightarrow> bool" where
  "isDigit c \<longleftrightarrow> 48 \<le> code c \<and> code c \<le> 57"

definition isHexDigit :: "char \<Rightarrow> bool" where
  "isHexDigit c \<longleftrightarrow> isDigit c \<or> 65 \<le> code c \<and> code c \<le> 70 \<or> 97 \<le> code c \<and> code c \<le> 102"

definition inRFC3986UnreservedChars :: "char \<Rightarrow> bool" where
  "inRFC3986UnreservedChars c \<longleftrightarrow> isAlpha c \<or> isDigit c \<or> c \<in> set ''-._~''"

definition lowcase :: "char \<Rightarrow> char" where
  "lowcase c = (if 65 \<le> code c \<and> code c \<le> 90 then ''abcdefghijklmnopqrstuvwxyz'' ! (code c - 65) else c)"

section \<open>Percent encoding\<close>

definition hex_upper :: "nat \<Rightarrow> char" where
  "hex_upper d = ''0123456789ABCDEF'' ! d"

text \<open>The formatted text \<^verbatim>\<open>%02X\<close> of a byte behind a percent sign.\<close>

definition percent_byte :: "char \<Rightarrow> string" where
  "percent_byte c = [CHR ''%'', hex_upper (code c div 16), hex_upper (code c mod 16)]"

fun percentEncode :: "string \<Rightarrow> string" where
  "percentEncode [] = []"
| "percentEncode (c # cs) = (if inRFC3986UnreservedChars c then [c] else percent_byte c) @ percentEncode cs"

text \<open>The value of a hexadecimal digit, as \<^verbatim>\<open>strtol\<close> reads it.\<close>

definition hex_val :: "char \<Rightarrow> nat" where
  "hex_val c = (if isDigit c then code c - 48 else if code c \<le> 70 then code c - 55 else code c - 87)"

fun percentDecode :: "string \<Rightarrow> string" where
  "percentDecode [] = []"
| "percentDecode (c # cs) =
     (if c = CHR ''%'' then
        (case cs of
           h # l # rest \<Rightarrow>
             if isHexDigit h \<and> isHexDigit l then char_of (hex_val h * 16 + hex_val l) # percentDecode rest
             else c # percentDecode cs
         | _ \<Rightarrow> c # percentDecode cs)
      else c # percentDecode cs)"

section \<open>Splitting and joining\<close>

definition DEFAULT_STRIP_CHARSET :: string where
  "DEFAULT_STRIP_CHARSET = [CR, LF, CHR 0x09, CHR '' '']"

definition stripIter :: "string \<Rightarrow> string" where
  "stripIter s =
     (let s = dropWhile (\<lambda>c. c \<in> set DEFAULT_STRIP_CHARSET) s
      in if s = [] then s
         else hd s # rev (dropWhile (\<lambda>c. c \<in> set DEFAULT_STRIP_CHARSET) (rev (tl s))))"

lemma split_shrinks: "s \<noteq> [] \<Longrightarrow> length (dropWhile P s) - Suc 0 < length s"
  using length_dropWhile_le [of P s] length_greater_0_conv [of s] by linarith

function split_loop :: "char \<Rightarrow> bool \<Rightarrow> bool \<Rightarrow> string \<Rightarrow> string list" where
  "split_loop delim doStrip allowEmpty s =
     (if s = [] then []
      else
        let p = takeWhile (\<lambda>c. c \<noteq> delim) s;
            r = dropWhile (\<lambda>c. c \<noteq> delim) s;
            p = (if doStrip then stripIter p else p)
        in (if allowEmpty \<or> p \<noteq> [] then [p] else []) @ split_loop delim doStrip allowEmpty (tl r))"
  by pat_completeness auto
termination
  by (relation "measure (\<lambda>(d, b, a, s). length s)") (auto simp: split_shrinks)

declare split_loop.simps [simp del]

text \<open>\<^verbatim>\<open>split\<close>; \<^verbatim>\<open>splitIter\<close> has the same body and delivers the ranges instead of their texts.\<close>

definition split :: "char \<Rightarrow> bool \<Rightarrow> bool \<Rightarrow> string \<Rightarrow> string list" where
  "split delim doStrip allowEmpty s =
     split_loop delim doStrip allowEmpty s @ (if allowEmpty \<and> (s = [] \<or> last s = delim) then [[]] else [])"

fun strjoin :: "string list \<Rightarrow> string \<Rightarrow> string" where
  "strjoin [] delim = []"
| "strjoin [x] delim = x"
| "strjoin (x # y # xs) delim = x @ delim @ strjoin (y # xs) delim"

text \<open>The loop of \<^verbatim>\<open>joinPath\<close>; \<open>elements\<close> grows at the end.\<close>

fun path_elements :: "string list \<Rightarrow> string list \<Rightarrow> string list" where
  "path_elements elements [] = elements"
| "path_elements elements (x # xs) =
     path_elements (if x = ''..'' then butlast elements else if x = ''.'' then elements else elements @ [x]) xs"

definition joinPath :: "string list \<Rightarrow> string" where
  "joinPath parts = strjoin (path_elements [] parts) ''/''"

section \<open>Comparisons\<close>

definition startsWith :: "string \<Rightarrow> string \<Rightarrow> bool" where
  "startsWith a b \<longleftrightarrow> \<not> length a < length b \<and> take (length b) a = b"

definition istartsWith :: "string \<Rightarrow> string \<Rightarrow> bool" where
  "istartsWith a b \<longleftrightarrow> \<not> length a < length b \<and> map lowcase (take (length b) a) = map lowcase b"

definition endsWith :: "string \<Rightarrow> string \<Rightarrow> bool" where
  "endsWith a b \<longleftrightarrow> \<not> length a < length b \<and> drop (length a - length b) a = b"

text \<open>The common advance of two C strings, and the three functions on pointers.\<close>

fun streq_advance :: "string \<Rightarrow> string \<Rightarrow> string \<times> string" where
  "streq_advance (a # as) (b # bs) = (if lowcase a = lowcase b then streq_advance as bs else (a # as, b # bs))"
| "streq_advance as bs = (as, bs)"

definition istartsWith_c :: "string option \<Rightarrow> string option \<Rightarrow> bool" where
  "istartsWith_c a b = (case (a, b) of (Some a, Some b) \<Rightarrow> snd (streq_advance a b) = [] | _ \<Rightarrow> False)"

definition strieq :: "string option \<Rightarrow> string option \<Rightarrow> bool" where
  "strieq a b = (case (a, b) of (Some a, Some b) \<Rightarrow> streq_advance a b = ([], []) | _ \<Rightarrow> False)"

fun strifind_loop :: "string \<Rightarrow> string \<Rightarrow> bool" where
  "strifind_loop [] b = False"
| "strifind_loop (a # as) b = (snd (streq_advance (a # as) b) = [] \<or> strifind_loop as b)"

definition strifind :: "string option \<Rightarrow> string option \<Rightarrow> bool" where
  "strifind a b = (case (a, b) of (Some a, Some b) \<Rightarrow> strifind_loop a b | _ \<Rightarrow> False)"

section \<open>Lemmas\<close>

lemma hex_upper_props:
  assumes "d < 16"
  shows "isHexDigit (hex_upper d)" "hex_val (hex_upper d) = d"
proof -
  from assms have "d \<in> set [0,1,2,3,4,5,6,7,8,9,10,11,12,13,14,15]" by (auto simp: numeral_eq_Suc less_Suc_eq)
  then show "isHexDigit (hex_upper d)" "hex_val (hex_upper d) = d"
    by (auto simp: hex_upper_def isHexDigit_def isDigit_def hex_val_def)
qed

lemma decode_percent_byte: "percentDecode (percent_byte c @ s) = c # percentDecode s"
proof -
  have "code c div 16 < 16" "code c mod 16 < 16" using code_less_256 [of c] by linarith+
  then show ?thesis by (simp add: percent_byte_def hex_upper_props)
qed

lemma decode_unreserved: "inRFC3986UnreservedChars c \<Longrightarrow> percentDecode (c # s) = c # percentDecode s"
  by (auto simp: inRFC3986UnreservedChars_def isAlpha_def isDigit_def)

lemma decode_encode_append: "percentDecode (percentEncode s @ t) = s @ percentDecode t"
proof (induction s)
  case (Cons c s)
  then show ?case
    using decode_unreserved [of c "percentEncode s @ t"] decode_percent_byte [of c "percentEncode s @ t"]
    by (cases "inRFC3986UnreservedChars c") (simp_all del: percentDecode.simps(2))
qed simp

lemma encode_chars: "c \<in> set (percentEncode s) \<Longrightarrow> inRFC3986UnreservedChars c \<or> c = CHR ''%''"
proof (induction s)
  case (Cons x s)
  have "inRFC3986UnreservedChars (hex_upper d)" if "d < 16" for d
    using hex_upper_props(1) [OF that] by (auto simp: isHexDigit_def inRFC3986UnreservedChars_def isAlpha_def)
  moreover have "code x div 16 < 16" "code x mod 16 < 16" using code_less_256 [of x] by linarith+
  ultimately show ?case using Cons by (auto simp: percent_byte_def split: if_splits)
qed simp

lemma streq_prefix: "snd (streq_advance a b) = [] \<longleftrightarrow> length b \<le> length a \<and> map lowcase (take (length b) a) = map lowcase b"
  by (induction a b rule: streq_advance.induct) auto

lemma strieq_eq: "strieq (Some a) (Some b) \<longleftrightarrow> map lowcase a = map lowcase b"
  unfolding strieq_def by (induction a b rule: streq_advance.induct) auto

lemma prefix_take: "prefix xs ys \<longleftrightarrow> length xs \<le> length ys \<and> take (length xs) ys = xs"
  by (metis append_eq_conv_conj prefix_def prefix_length_le)

lemma strifind_loop_iff: "b \<noteq> [] \<Longrightarrow> strifind_loop a b \<longleftrightarrow> sublist (map lowcase b) (map lowcase a)"
proof (induction a)
  case (Cons x a)
  have "snd (streq_advance (x # a) b) = [] \<longleftrightarrow> prefix (map lowcase b) (map lowcase (x # a))"
    unfolding streq_prefix prefix_take length_map take_map by (rule refl)
  moreover have "strifind_loop a b \<longleftrightarrow> sublist (map lowcase b) (map lowcase a)" using Cons by blast
  ultimately show ?case unfolding strifind_loop.simps list.map(2) sublist_Cons_right by blast
qed simp

lemma path_elements_normal:
  "\<forall>x \<in> set es. x \<noteq> ''.'' \<and> x \<noteq> ''..'' \<Longrightarrow> \<forall>x \<in> set (path_elements es xs). x \<noteq> ''.'' \<and> x \<noteq> ''..''"
proof (induction xs arbitrary: es)
  case (Cons x xs)
  have "\<forall>y \<in> set (if x = ''..'' then butlast es else if x = ''.'' then es else es @ [x]). y \<noteq> ''.'' \<and> y \<noteq> ''..''"
    using Cons.prems in_set_butlastD [of _ es] by (simp split: if_split)
  from Cons.IH [OF this] show ?case unfolding path_elements.simps .
qed simp

lemma path_elements_from: "set (path_elements es xs) \<subseteq> set es \<union> set xs"
proof (induction xs arbitrary: es)
  case (Cons x xs)
  have "set (if x = ''..'' then butlast es else if x = ''.'' then es else es @ [x]) \<subseteq> set es \<union> {x}"
    by (auto dest: in_set_butlastD)
  with Cons.IH [of "if x = ''..'' then butlast es else if x = ''.'' then es else es @ [x]"] show ?case by auto
qed simp

lemma split_join:
  assumes "\<forall>p \<in> set ps. p \<noteq> [] \<and> d \<notin> set p"
  shows "split_loop d False False (strjoin ps [d]) = ps"
  using assms
proof (induction ps "[d]" rule: strjoin.induct)
  case 1
  then show ?case by (simp add: split_loop.simps)
next
  case (2 x)
  then have t: "takeWhile (\<lambda>c. c \<noteq> d) x = x" "dropWhile (\<lambda>c. c \<noteq> d) x = []" by (auto simp: takeWhile_eq_all_conv)
  have "split_loop d False False [] = []" by (simp add: split_loop.simps)
  with 2 t show ?case unfolding strjoin.simps split_loop.simps [of d False False x] t Let_def by simp
next
  case (3 x y xs)
  let ?r = "strjoin (y # xs) [d]"
  have t: "takeWhile (\<lambda>c. c \<noteq> d) (x @ d # ?r) = x" "dropWhile (\<lambda>c. c \<noteq> d) (x @ d # ?r) = d # ?r"
    using 3(2) by (subst takeWhile_append2 dropWhile_append2; auto)+
  have "split_loop d False False (x @ d # ?r) = x # split_loop d False False ?r"
    using 3(2) unfolding split_loop.simps [of d False False "x @ d # ?r"] t Let_def by simp
  with 3 show ?case by simp
qed

section \<open>Properties\<close>

text \<open>
  C26. Decoding inverts encoding, for every text, and an encoded text consists of unreserved
  characters and percent signs only.
\<close>

theorem percent_roundtrip:
  "percentDecode (percentEncode s) = s \<and> set (percentEncode s) \<subseteq> {c. inRFC3986UnreservedChars c} \<union> {CHR ''%''}"
  using decode_encode_append [of s "[]"] encode_chars [of _ s] by auto



end
