(* ===== verification/Shrpx_Uri.thy ===== *)
theory Shrpx_Uri
  imports Shrpx_Util
begin

text \<open>
  The URI functions of the proxy, \<^verbatim>\<open>spdylay/src/uri.cc\<close>: \<^verbatim>\<open>parse\<close>, \<^verbatim>\<open>construct\<close> and \<^verbatim>\<open>joinUri\<close>. The iterator
  ranges of the code are the pieces of the text between them. The result of a failed \<^verbatim>\<open>parse\<close>, which
  the header calls undefined, is \<open>None\<close>.
\<close>

section \<open>Data\<close>

record UriStruct =
  u_protocol :: string
  u_host :: string
  u_port :: nat
  u_dir :: string
  u_file :: string
  u_query :: string
  u_username :: string
  u_password :: string
  u_hasPassword :: bool
  u_ipv6 :: bool

definition defPort :: "string \<Rightarrow> nat" where
  "defPort protocol = (if protocol = ''http'' then 80 else if protocol = ''https'' then 443 else 0)"

section \<open>Parsing\<close>

text \<open>
  \<^verbatim>\<open>strtol(s, 0, 10)\<close>: blanks, a sign, digits. The value and whether \<^verbatim>\<open>errno\<close> was set, which happens
  when it does not fit 64 bits.
\<close>

definition strtol10 :: "string \<Rightarrow> int \<times> bool" where
  "strtol10 s =
     (let s = dropWhile (\<lambda>c. code c = 32 \<or> 9 \<le> code c \<and> code c \<le> 13) s;
          neg = (s \<noteq> [] \<and> hd s = CHR ''-'');
          ds = (if s \<noteq> [] \<and> (hd s = CHR ''-'' \<or> hd s = CHR ''+'') then tl s else s);
          n = int (read_dec 0 (takeWhile is_digit ds));
          v = (if neg then - n else n)
      in if v < - (2 ^ 63) then (- (2 ^ 63), True) else if 2 ^ 63 - 1 < v then (2 ^ 63 - 1, True) else (v, False))"

text \<open>The port: the result of \<^verbatim>\<open>strtol\<close> is stored in 32 unsigned bits before it is compared.\<close>

definition parse_port_text :: "nat \<Rightarrow> string \<Rightarrow> nat option" where
  "parse_port_text def s =
     (if s = [] then Some def
      else
        let (v, err) = strtol10 s; tempPort = nat (v mod 2 ^ 32)
        in if err then None else if 65535 < tempPort then None else Some tempPort)"

text \<open>The text in front of and behind the last occurrence of a character.\<close>

definition last_split :: "char \<Rightarrow> string \<Rightarrow> (string \<times> string) option" where
  "last_split c s =
     (if c \<in> set s
      then let r = takeWhile (\<lambda>x. x \<noteq> c) (rev s) in Some (take (length s - length r - 1) s, rev r)
      else None)"

text \<open>The user information and the rest of the authority: user name, password if present.\<close>

definition parse_userinfo :: "string \<Rightarrow> (string \<times> string option) \<times> string" where
  "parse_userinfo authority =
     (case last_split (CHR ''@'') authority of
        None \<Rightarrow> (([], None), authority)
      | Some (userinfo, hostport) \<Rightarrow>
          let user = takeWhile (\<lambda>c. c \<noteq> CHR '':'') userinfo
          in ((percentDecode user,
               if CHR '':'' \<in> set userinfo then Some (percentDecode (drop (length user + 1) userinfo)) else None),
              hostport))"

text \<open>Host, whether it is an IPv6 literal, and the text of the port.\<close>

definition parse_hostport :: "string \<Rightarrow> (string \<times> bool \<times> string) option" where
  "parse_hostport hp =
     (if hp \<noteq> [] \<and> hd hp = CHR ''['' then
        let inner = takeWhile (\<lambda>c. c \<noteq> CHR '']'') hp;
            rest = drop (length inner + 1) hp
        in if CHR '']'' \<notin> set hp then None
           else if rest = [] then Some (tl inner, True, [])
           else if hd rest = CHR '':'' then Some (tl inner, True, tl rest)
           else None
      else
        let h = takeWhile (\<lambda>c. c \<noteq> CHR '':'') hp
        in if h = [] then None else Some (h, False, drop (length h + 1) hp))"

text \<open>Directory and file of the text behind the authority.\<close>

definition parse_dir :: "string \<Rightarrow> string \<times> string" where
  "parse_dir p = (case last_split (CHR ''/'') p of None \<Rightarrow> (''/'', p) | Some (d, f) \<Rightarrow> (d @ ''/'', f))"

definition parse :: "string \<Rightarrow> UriStruct option" where
  "parse uri =
     (let upto_fragment = takeWhile (\<lambda>c. c \<noteq> CHR ''#'') uri;
          upto_query = takeWhile (\<lambda>c. c \<noteq> CHR ''?'') upto_fragment;
          query = drop (length upto_query) upto_fragment
      in case find_sub ''://'' uri of None \<Rightarrow> None | Some protocolOffset \<Rightarrow>
      let protocol = take protocolOffset uri
      in if protocol \<noteq> ''http'' \<and> protocol \<noteq> ''https'' then None
      else
        let after = drop (protocolOffset + 3) upto_query;
            authority = takeWhile (\<lambda>c. c \<noteq> CHR ''/'') after;
            p = dropWhile (\<lambda>c. c \<noteq> CHR ''/'') after
        in if authority = [] then None
        else
          let ((user, pass), hostport) = parse_userinfo authority
          in case parse_hostport hostport of None \<Rightarrow> None | Some (h, ipv6, porttext) \<Rightarrow>
          (case parse_port_text (defPort protocol) porttext of None \<Rightarrow> None | Some n \<Rightarrow>
            let (d, f) = parse_dir p
            in Some \<lparr>u_protocol = protocol, u_host = h, u_port = n, u_dir = d, u_file = f, u_query = query,
                     u_username = user, u_password = (case pass of None \<Rightarrow> [] | Some s \<Rightarrow> s),
                     u_hasPassword = (pass \<noteq> None), u_ipv6 = ipv6\<rparr>))"

section \<open>Printing\<close>

definition construct :: "UriStruct \<Rightarrow> string" where
  "construct us =
     u_protocol us @ ''://'' @
     (if u_username us \<noteq> [] then
        percentEncode (u_username us) @ (if u_hasPassword us then '':'' @ percentEncode (u_password us) else []) @ ''@''
      else []) @
     (if u_ipv6 us then ''['' @ u_host us @ '']'' else u_host us) @
     (if u_port us \<noteq> 0 \<and> defPort (u_protocol us) \<noteq> u_port us then '':'' @ dec (u_port us) else []) @
     u_dir us @ (if u_dir us = [] \<or> last (u_dir us) \<noteq> CHR ''/'' then ''/'' else []) @
     u_file us @ u_query us"

definition joinUri :: "string \<Rightarrow> string \<Rightarrow> string" where
  "joinUri baseUri uri =
     (case parse uri of Some us \<Rightarrow> uri | None \<Rightarrow>
       (case parse baseUri of None \<Rightarrow> uri | Some bus \<Rightarrow>
         let upto_fragment = takeWhile (\<lambda>c. c \<noteq> CHR ''#'') uri;
             p = takeWhile (\<lambda>c. c \<noteq> CHR ''?'') upto_fragment;
             parts = (if uri = [] \<or> hd uri \<noteq> CHR ''/'' then split (CHR ''/'') False False (u_dir bus) else []) @
                     split (CHR ''/'') False False p;
             res = construct (bus\<lparr>u_dir := [], u_file := [], u_query := []\<rparr>) @ joinPath parts
         in res @ (if (p = [] \<or> last p = CHR ''/'') \<and> last res \<noteq> CHR ''/'' then ''/'' else []) @
            drop (length p) upto_fragment))"

section \<open>Pieces of an authority\<close>

lemma takeWhile_until: "c \<notin> set s \<Longrightarrow> takeWhile (\<lambda>x. x \<noteq> c) (s @ c # t) = s"
  by (induction s) auto

lemma dropWhile_until: "c \<notin> set s \<Longrightarrow> dropWhile (\<lambda>x. x \<noteq> c) (s @ c # t) = c # t"
  by (induction s) auto

lemma takeWhile_none: "c \<notin> set s \<Longrightarrow> takeWhile (\<lambda>x. x \<noteq> c) s = s"
  by (auto simp: takeWhile_eq_all_conv)

lemma last_split_found: "c \<notin> set t \<Longrightarrow> last_split c (s @ c # t) = Some (s, t)"
  using takeWhile_until [of c "rev t" "rev s"] by (simp add: last_split_def Let_def)

lemma last_split_none: "c \<notin> set s \<Longrightarrow> last_split c s = None"
  by (simp add: last_split_def)

lemma dec_ports:
  assumes "0 < n" "n \<le> 65535"
  shows "parse_port_text d (dec n) = Some n"
proof -
  have digits: "\<forall>c \<in> set (dec n). is_digit c" using dec_digits by blast
  have "hd (dec n) \<in> set (dec n)" by simp
  with digits have c: "48 \<le> code (hd (dec n))" "code (hd (dec n)) \<le> 57" by (auto simp: is_digit_def)
  have sp: "dropWhile (\<lambda>c. code c = 32 \<or> 9 \<le> code c \<and> code c \<le> 13) (dec n) = dec n"
    using c by (subst dropWhile_eq_self_iff) auto
  have sgn: "hd (dec n) \<noteq> CHR ''-''" "hd (dec n) \<noteq> CHR ''+''" using c by auto
  have tw: "takeWhile is_digit (dec n) = dec n" using digits by (simp add: takeWhile_eq_all_conv)
  have "strtol10 (dec n) = (int n, False)" using assms by (simp add: strtol10_def sp tw sgn Let_def)
  then show ?thesis using assms by (simp add: parse_port_text_def Let_def)
qed

section \<open>Well-formed structures\<close>

definition none_of :: "string \<Rightarrow> string \<Rightarrow> bool" where
  "none_of bad s \<longleftrightarrow> set s \<inter> set bad = {}"

definition host_ok :: "bool \<Rightarrow> string \<Rightarrow> bool" where
  "host_ok ipv6 h \<longleftrightarrow> none_of ''@/?#'' h \<and> (if ipv6 then CHR '']'' \<notin> set h else h \<noteq> [] \<and> CHR '':'' \<notin> set h \<and> hd h \<noteq> CHR ''['')"

definition uri_struct_ok :: "UriStruct \<Rightarrow> bool" where
  "uri_struct_ok us \<longleftrightarrow> u_protocol us \<in> {''http'', ''https''} \<and> 0 < u_port us \<and> u_port us \<le> 65535 \<and>
     host_ok (u_ipv6 us) (u_host us) \<and>
     (u_username us = [] \<longrightarrow> \<not> u_hasPassword us) \<and> (\<not> u_hasPassword us \<longrightarrow> u_password us = []) \<and>
     (\<exists>d. u_dir us = d @ ''/'' \<and> (d = [] \<or> hd d = CHR ''/'')) \<and> none_of ''?#'' (u_dir us) \<and>
     none_of ''/?#'' (u_file us) \<and> CHR ''#'' \<notin> set (u_query us) \<and> (u_query us = [] \<or> hd (u_query us) = CHR ''?'')"

definition userinfo_text :: "UriStruct \<Rightarrow> string" where
  "userinfo_text us =
     (if u_username us \<noteq> [] then
        percentEncode (u_username us) @ (if u_hasPassword us then '':'' @ percentEncode (u_password us) else []) @ ''@''
      else [])"

definition hostport_text :: "UriStruct \<Rightarrow> string" where
  "hostport_text us =
     (if u_ipv6 us then ''['' @ u_host us @ '']'' else u_host us) @
     (if u_port us \<noteq> 0 \<and> defPort (u_protocol us) \<noteq> u_port us then '':'' @ dec (u_port us) else [])"

lemma encode_none_of: "none_of '':@/?#'' (percentEncode s)"
  using encode_chars [of _ s]
  by (fastforce simp: none_of_def inRFC3986UnreservedChars_def isAlpha_def isDigit_def)

lemma dec_none_of: "none_of '':@/?#'' (dec n)"
  using dec_digits [of _ n] by (fastforce simp: none_of_def is_digit_def)

lemma none_of_D: "none_of bad s \<Longrightarrow> c \<in> set bad \<Longrightarrow> c \<notin> set s"
  by (auto simp: none_of_def)

lemma none_of_append: "none_of bad (s @ t) \<longleftrightarrow> none_of bad s \<and> none_of bad t"
  by (auto simp: none_of_def)

lemma userinfo_none: "none_of ''/?#'' (userinfo_text us)"
  using encode_none_of [of "u_username us"] encode_none_of [of "u_password us"]
  by (auto simp: userinfo_text_def none_of_def)

lemma hostport_none:
  assumes "uri_struct_ok us"
  shows "none_of ''@/?#'' (hostport_text us)"
  using assms dec_none_of [of "u_port us"] by (auto simp: hostport_text_def uri_struct_ok_def host_ok_def none_of_def)

lemma parse_userinfo_text:
  assumes "uri_struct_ok us"
  shows "parse_userinfo (userinfo_text us @ hostport_text us) =
    ((u_username us, if u_hasPassword us then Some (u_password us) else None), hostport_text us)"
proof (cases "u_username us = []")
  case True
  with assms have "\<not> u_hasPassword us" by (simp add: uri_struct_ok_def)
  with True none_of_D [OF hostport_none [OF assms], of "CHR ''@''"] show ?thesis
    by (simp add: userinfo_text_def parse_userinfo_def last_split_none)
next
  case False
  let ?u = "percentEncode (u_username us)"
  let ?p = "if u_hasPassword us then '':'' @ percentEncode (u_password us) else []"
  have at: "last_split (CHR ''@'') (userinfo_text us @ hostport_text us) = Some (?u @ ?p, hostport_text us)"
    using last_split_found [of "CHR ''@''" "hostport_text us" "?u @ ?p"] none_of_D [OF hostport_none [OF assms], of "CHR ''@''"] False
    by (simp add: userinfo_text_def)
  have u: "CHR '':'' \<notin> set ?u" using none_of_D [OF encode_none_of, of "CHR '':''"] by simp
  have dd: "percentDecode (percentEncode s) = s" for s using decode_encode_append [of s "[]"] by simp
  show ?thesis
  proof (cases "u_hasPassword us")
    case True
    then show ?thesis using takeWhile_until [OF u, of "percentEncode (u_password us)"]
      by (simp add: parse_userinfo_def at Let_def dd)
  next
    case False
    then show ?thesis using u by (simp add: parse_userinfo_def at Let_def dd takeWhile_none [OF u])
  qed
qed

lemma parse_hostport_text:
  assumes "uri_struct_ok us"
  shows "\<exists>pt. parse_hostport (hostport_text us) = Some (u_host us, u_ipv6 us, pt) \<and>
    parse_port_text (defPort (u_protocol us)) pt = Some (u_port us)"
proof -
  define pt where "pt = (if defPort (u_protocol us) \<noteq> u_port us then dec (u_port us) else [])"
  have port: "0 < u_port us" "u_port us \<le> 65535" using assms by (simp_all add: uri_struct_ok_def)
  have p: "parse_port_text (defPort (u_protocol us)) pt = Some (u_port us)"
    using dec_ports [OF port] by (simp add: pt_def) (simp add: parse_port_text_def)
  define sfx where "sfx = (if defPort (u_protocol us) \<noteq> u_port us then '':'' @ dec (u_port us) else [])"
  have sfx: "sfx = [] \<and> pt = [] \<or> sfx = CHR '':'' # pt" by (auto simp: sfx_def pt_def)
  have h: "host_ok (u_ipv6 us) (u_host us)" using assms by (simp add: uri_struct_ok_def)
  have t: "hostport_text us = (if u_ipv6 us then ''['' @ u_host us @ '']'' else u_host us) @ sfx"
    using port by (simp add: hostport_text_def sfx_def)
  have "parse_hostport (hostport_text us) = Some (u_host us, u_ipv6 us, pt)"
  proof (cases "u_ipv6 us")
    case True
    have "CHR '']'' \<notin> set (CHR ''['' # u_host us)" using h True by (simp add: host_ok_def)
    from takeWhile_until [OF this, of sfx] sfx True show ?thesis by (auto simp: t parse_hostport_def Let_def)
  next
    case False
    then have c: "CHR '':'' \<notin> set (u_host us)" "u_host us \<noteq> []" "hd (u_host us) \<noteq> CHR ''[''" using h by (simp_all add: host_ok_def)
    from sfx False c(2,3) show ?thesis
      by (auto simp: t parse_hostport_def Let_def takeWhile_until [OF c(1)] takeWhile_none [OF c(1)])
  qed
  with p show ?thesis by blast
qed

lemma parse_dir_text: "CHR ''/'' \<notin> set f \<Longrightarrow> parse_dir (d @ CHR ''/'' # f) = (d @ ''/'', f)"
  by (simp add: parse_dir_def last_split_found)

text \<open>The text in front of the query, and the query, of a text without a fragment sign.\<close>

lemma upto_query:
  assumes "CHR ''?'' \<notin> set s" "q = [] \<or> hd q = CHR ''?''"
  shows "takeWhile (\<lambda>c. c \<noteq> CHR ''?'') (s @ q) = s"
proof (cases q)
  case Nil
  then show ?thesis using takeWhile_none [OF assms(1)] by simp
next
  case (Cons c cs)
  then show ?thesis using takeWhile_until [OF assms(1), of cs] assms(2) by simp
qed

lemma protocol_found: "pr \<in> {''http'', ''https''} \<Longrightarrow> find_sub ''://'' (pr @ ''://'' @ s) = Some (length pr)"
  by (auto simp: prefix_def)

lemma parse_construct:
  assumes ok: "uri_struct_ok us"
  shows "parse (construct us) = Some us"
proof -
  obtain d where d: "u_dir us = d @ ''/''" "d = [] \<or> hd d = CHR ''/''" using ok by (auto simp: uri_struct_ok_def)
  define a where "a = userinfo_text us @ hostport_text us"
  define front where "front = u_protocol us @ ''://'' @ a @ u_dir us @ u_file us"
  have pr: "u_protocol us \<in> {''http'', ''https''}" using ok by (simp add: uri_struct_ok_def)
  have q: "CHR ''#'' \<notin> set (u_query us)" "u_query us = [] \<or> hd (u_query us) = CHR ''?''"
    and df: "none_of ''?#'' (u_dir us)" "none_of ''/?#'' (u_file us)" using ok by (simp_all add: uri_struct_ok_def)
  have a_none: "none_of ''/?#'' a"
    using userinfo_none [of us] hostport_none [OF ok] by (auto simp: a_def none_of_def)
  have printed: "construct us = front @ u_query us"
    by (simp add: construct_def front_def a_def userinfo_text_def hostport_text_def d(1))
  have front: "CHR ''#'' \<notin> set front" "CHR ''?'' \<notin> set front"
    using pr a_none df by (auto simp: front_def none_of_def)
  have frag: "takeWhile (\<lambda>c. c \<noteq> CHR ''#'') (construct us) = front @ u_query us"
    unfolding printed using front(1) q(1) by (intro takeWhile_none) simp
  have qry: "takeWhile (\<lambda>c. c \<noteq> CHR ''?'') (front @ u_query us) = front" by (rule upto_query [OF front(2) q(2)])
  have find: "find_sub ''://'' (construct us) = Some (length (u_protocol us))"
    unfolding printed front_def append_assoc by (rule protocol_found [OF pr])
  have prot: "take (length (u_protocol us)) (construct us) = u_protocol us" by (simp add: printed front_def)
  obtain rest where rest: "u_dir us @ u_file us = CHR ''/'' # rest" using d by (cases d) auto
  have after: "drop (length (u_protocol us) + 3) front = a @ CHR ''/'' # rest" by (simp add: front_def flip: rest)
  have slash: "CHR ''/'' \<notin> set a" using a_none by (simp add: none_of_def)
  note pieces = takeWhile_until [OF slash, of rest] dropWhile_until [OF slash, of rest]
  have dirs: "parse_dir (CHR ''/'' # rest) = (u_dir us, u_file us)"
    using parse_dir_text [of "u_file us" d] df(2) by (simp add: d(1) none_of_def flip: rest)
  obtain pt where pt: "parse_hostport (hostport_text us) = Some (u_host us, u_ipv6 us, pt)"
    "parse_port_text (defPort (u_protocol us)) pt = Some (u_port us)" using parse_hostport_text [OF ok] by blast
  have ne: "a \<noteq> []" using ok by (auto simp: a_def hostport_text_def uri_struct_ok_def host_ok_def)
  have pw: "(case if u_hasPassword us then Some (u_password us) else None of None \<Rightarrow> [] | Some s \<Rightarrow> s) = u_password us"
    using ok by (simp add: uri_struct_ok_def)
  have not_other: "\<not> (u_protocol us \<noteq> ''http'' \<and> u_protocol us \<noteq> ''https'')" using pr by auto
  show ?thesis
    unfolding parse_def Let_def frag qry find option.case prot if_not_P [OF not_other] after pieces if_not_P [OF ne]
      a_def [symmetric] parse_userinfo_text [OF ok, folded a_def] prod.case pt dirs pw
    by simp
qed

section \<open>Properties\<close>

text \<open>
  C10. Parsing inverts printing: every well-formed structure, with any user name and password, a
  name or an IPv6 literal, any port, directory, file and query, is recovered from its text.
\<close>

theorem uri_roundtrip:
  assumes "uri_struct_ok us"
  shows "parse (construct us) = Some us"
  using assms by (rule parse_construct)

definition sample_struct :: UriStruct where
  "sample_struct = \<lparr>u_protocol = ''http'', u_host = ''::1'', u_port = 8080, u_dir = ''/a/b/'', u_file = ''c'', u_query = ''?q=/'',
     u_username = ''me@home'', u_password = ''x:y'', u_hasPassword = True, u_ipv6 = True\<rparr>"

lemma sample_struct_ok: "uri_struct_ok sample_struct"
  unfolding uri_struct_ok_def sample_struct_def
  by (auto simp: host_ok_def none_of_def intro: exI [of _ "''/a/b''"])

theorem uri_roundtrip_witness: "parse (construct sample_struct) = Some sample_struct"
  by (rule uri_roundtrip [OF sample_struct_ok])


end
