(* ===== verification/Shrpx_Http.thy ===== *)
theory Shrpx_Http
  imports Shrpx_Uri
begin

text \<open>
  The HTTP helpers of the proxy, \<^verbatim>\<open>spdylay/src/shrpx_http.cc\<close>. The fields of the global configuration
  that they read are the record \<open>shrpx_config\<close>.
\<close>

section \<open>Definitions\<close>

record shrpx_config =
  cfg_server_name :: string
  cfg_host :: string
  cfg_port :: nat
  cfg_downstream_host :: string
  cfg_downstream_port :: nat

definition status_table :: "(nat \<times> string) list" where
  "status_table = [
     (100, ''100 Continue''), (101, ''101 Switching Protocols''), (200, ''200 OK''), (201, ''201 Created''),
     (202, ''202 Accepted''), (203, ''203 Non-Authoritative Information''), (204, ''204 No Content''),
     (205, ''205 Reset Content''), (206, ''206 Partial Content''), (300, ''300 Multiple Choices''),
     (301, ''301 Moved Permanently''), (302, ''302 Found''), (303, ''303 See Other''), (304, ''304 Not Modified''),
     (305, ''305 Use Proxy''), (307, ''307 Temporary Redirect''), (400, ''400 Bad Request''), (401, ''401 Unauthorized''),
     (402, ''402 Payment Required''), (403, ''403 Forbidden''), (404, ''404 Not Found''), (405, ''405 Method Not Allowed''),
     (406, ''406 Not Acceptable''), (407, ''407 Proxy Authentication Required''), (408, ''408 Request Timeout''),
     (409, ''409 Conflict''), (410, ''410 Gone''), (411, ''411 Length Required''), (412, ''412 Precondition Failed''),
     (413, ''413 Request Entity Too Large''), (414, ''414 Request-URI Too Long''), (415, ''415 Unsupported Media Type''),
     (416, ''416 Requested Range Not Satisfiable''), (417, ''417 Expectation Failed''), (500, ''500 Internal Server Error''),
     (501, ''501 Not Implemented''), (502, ''502 Bad Gateway''), (503, ''503 Service Unavailable''),
     (504, ''504 Gateway Timeout''), (505, ''505 HTTP Version Not Supported'')]"

definition get_status_string :: "nat \<Rightarrow> string" where
  "get_status_string status_code = (case map_of status_table status_code of None \<Rightarrow> [] | Some s \<Rightarrow> s)"

definition create_error_html :: "shrpx_config \<Rightarrow> nat \<Rightarrow> string" where
  "create_error_html cfg status_code =
     (let status = get_status_string status_code in
      ''<html><head><title>'' @ status @ ''</title></head><body>'' @ ''<h1>'' @ status @ ''</h1>'' @ ''<hr>'' @
      ''<address>'' @ cfg_server_name cfg @ '' at port '' @ dec (cfg_port cfg) @ ''</address>'' @ ''</body></html>'' @ [LF])"

definition create_via_header_value :: "nat \<Rightarrow> nat \<Rightarrow> string" where
  "create_via_header_value major minor = [char_of (major + 48)] @ ''.'' @ [char_of (minor + 48)] @ '' shrpx''"

text \<open>\<^verbatim>\<open>c_str()\<close> ends at the first zero byte.\<close>

definition modify_location_header_value :: "shrpx_config \<Rightarrow> string \<Rightarrow> string" where
  "modify_location_header_value cfg uri =
     (let relative = istartsWith_c (Some (cstring uri)) (Some ''//'');
          norm_uri = (if relative then ''http:'' @ uri else uri)
      in if \<not> relative \<and> \<not> istartsWith_c (Some (cstring uri)) (Some ''http://'') then uri
         else case parse norm_uri of
           None \<Rightarrow> uri
         | Some us \<Rightarrow>
             if strieq (Some (cstring (u_host us))) (Some (cfg_downstream_host cfg)) \<and> u_port us = cfg_downstream_port cfg
             then construct (us\<lparr>u_protocol := ''https'', u_host := cfg_host cfg, u_port := cfg_port cfg\<rparr>)
             else uri)"

section \<open>Rewriting of a location\<close>

lemma starts_iff: "istartsWith_c (Some a) (Some b) \<longleftrightarrow> length b \<le> length a \<and> map lowcase (take (length b) a) = map lowcase b"
  by (simp add: istartsWith_c_def streq_prefix)

lemma cstring_literal: "NUL \<notin> set s \<Longrightarrow> cstring (s @ t) = s @ cstring t"
  by (induction s) (auto simp: cstring_def)

lemma construct_http:
  assumes "u_protocol us = ''http''"
  shows "\<exists>t. construct us = ''http://'' @ t"
  using assms by (simp add: construct_def)

text \<open>
  C11. A redirection to the backend is redirected to the proxy, written with the scheme or without
  it: host and port are replaced, the scheme becomes https, and user, directory, file and query
  are kept; the browser that parses the new location gets exactly that structure.
\<close>

theorem location_rewritten:
  assumes us: "uri_struct_ok us" "u_protocol us = ''http''" "\<not> u_ipv6 us" "NUL \<notin> set (u_host us)"
    and backend: "map lowcase (u_host us) = map lowcase (cfg_downstream_host cfg)" "u_port us = cfg_downstream_port cfg"
    and front: "host_ok False (cfg_host cfg)" "0 < cfg_port cfg" "cfg_port cfg \<le> 65535"
    and uri: "uri = construct us \<or> ''http:'' @ uri = construct us"
  defines "us' \<equiv> us\<lparr>u_protocol := ''https'', u_host := cfg_host cfg, u_port := cfg_port cfg\<rparr>"
  shows "modify_location_header_value cfg uri = construct us' \<and> parse (modify_location_header_value cfg uri) = Some us'"
proof -
  obtain t where t: "construct us = ''http://'' @ t" using construct_http [OF us(2)] by blast
  have "cstring (u_host us) = u_host us" using us(4) by (simp add: cstring_def takeWhile_none)
  then have match: "strieq (Some (cstring (u_host us))) (Some (cfg_downstream_host cfg))"
    using backend(1) by (simp add: strieq_eq)
  have r: "modify_location_header_value cfg uri = construct us'"
    using uri
  proof
    assume u: "uri = construct us"
    have h: "istartsWith_c (Some (cstring uri)) (Some ''http://'')" "\<not> istartsWith_c (Some (cstring uri)) (Some ''//'')"
      using cstring_literal [of "''http://''" t] by (simp_all add: u t starts_iff lowcase_def)
    show ?thesis
      unfolding modify_location_header_value_def Let_def using h match backend(2)
      by (simp add: u parse_construct [OF us(1)] us'_def)
  next
    assume u: "''http:'' @ uri = construct us"
    then have "uri = ''//'' @ t" by (simp add: t)
    then have h: "istartsWith_c (Some (cstring uri)) (Some ''//'')"
      using cstring_literal [of "''//''" t] by (simp add: starts_iff)
    show ?thesis
      unfolding modify_location_header_value_def Let_def if_P [OF h] u parse_construct [OF us(1)]
      using h match backend(2) by (simp add: us'_def)
  qed
  have "uri_struct_ok us'" using us(1,3) front by (simp add: us'_def uri_struct_ok_def)
  with r parse_construct show ?thesis by simp
qed

definition sample_config :: shrpx_config where
  "sample_config = \<lparr>cfg_server_name = ''shrpx'', cfg_host = ''front'', cfg_port = 443, cfg_downstream_host = ''Back'',
     cfg_downstream_port = 8080\<rparr>"

definition back_struct :: UriStruct where
  "back_struct = \<lparr>u_protocol = ''http'', u_host = ''back'', u_port = 8080, u_dir = ''/a/'', u_file = ''b'', u_query = ''?c'',
     u_username = [], u_password = [], u_hasPassword = False, u_ipv6 = False\<rparr>"

lemma back_text: "construct back_struct = ''http://back:8080/a/b?c''"
  by (simp add: construct_def back_struct_def defPort_def dec.simps digit_char_def)

theorem location_rewritten_witness:
  "modify_location_header_value sample_config ''//back:8080/a/b?c'' = ''https://front/a/b?c''"
proof -
  have ok: "uri_struct_ok back_struct"
    unfolding uri_struct_ok_def back_struct_def by (auto simp: host_ok_def none_of_def intro: exI [of _ "''/a''"])
  have "modify_location_header_value sample_config ''//back:8080/a/b?c'' =
      construct (back_struct\<lparr>u_protocol := ''https'', u_host := cfg_host sample_config, u_port := cfg_port sample_config\<rparr>)"
    using location_rewritten [of back_struct sample_config "''//back:8080/a/b?c''"] ok back_text
    by (simp add: back_struct_def sample_config_def host_ok_def none_of_def lowcase_def)
  also have "\<dots> = ''https://front/a/b?c''" by (simp add: construct_def back_struct_def sample_config_def defPort_def)
  finally show ?thesis .
qed


end
