(* ===== verification/Spec2Isabelle.thy ===== *)
theory Spec2Isabelle
  imports Spdycli_Main Htparse_Props Shrpx_Http
begin

text \<open>
  A verification library for the C and C++ parts of the repository that handle untrusted text and
  connections: the HTTP parser \<^verbatim>\<open>libhtparse\<close>, the push client, and the URI and header helpers of the
  proxy. Paths below are relative to \<^verbatim>\<open>src/client/spdylay\<close>.

  \<^bold>\<open>The program.\<close> The push client (\<^verbatim>\<open>client/spdycli.c\<close>) starts a number of threads. Each connects to the
  push server over TLS and SPDY, registers, reads the client id and the push id from the answer,
  listens with them, acknowledges what is pushed, and reconnects after a back-off. The SPDY protocol
  itself is done by the Spdylay library, which calls back into the client. The HTTP parser
  (\<^verbatim>\<open>client/htparse/htparse.c\<close>) is an incremental state machine that reports the parts of a message to
  hooks of the application. The proxy \<^verbatim>\<open>shrpx\<close> (\<^verbatim>\<open>src/\<close>) stands in front of a backend; its string, URI
  and header helpers are the pure functions modelled here.

  \<^bold>\<open>Conventions.\<close> A byte is a \<^typ>\<open>char\<close>, an array or the memory behind a pointer a list of bytes with its
  terminators. Undefined behaviour of C is a value: the type \<^typ>\<open>'a cres\<close> of theory \<open>Prelude\<close> has the
  faults on its left side, so a result on the right side says that no fault happened. In the
  client, \<open>'a act\<close> adds the ends of the process or thread. Code outside the repository (Spdylay,
  OpenSSL, system calls, hooks) is an argument of the definitions; records of functions hold it
  (\<open>spdylay\<close>, \<open>session_env\<close>, \<open>htparse_hooks\<close>).

  \<^bold>\<open>Theories.\<close>
  \<^item> \<open>Prelude\<close>: faults, C strings, search, decimal numerals.
  \<^item> \<open>Htparse_Types\<close>, \<open>Htparse\<close>: enumerations, the parser structure, tables, accessors; one definition
    per state of \<^verbatim>\<open>htparser_run\<close> (\<open>st_start\<close>, \<open>st_method\<close>, ...), the dispatch \<open>htp_switch\<close>, the loop
    \<open>htp_loop\<close>, which is total because every turn consumes a byte.
  \<^item> \<open>Htparse_Inv\<close>: the locale \<open>turn_invariant\<close> lifts a property of one turn to any sequence of runs;
    interpreted for the well-formedness of the parser and for the schemes it can report.
  \<^item> \<open>Htparse_Stream\<close>: where the input is cut does not matter. \<open>Htparse_Msg\<close>: printing and parsing of
    requests. \<open>Htparse_Props\<close>: numbers, tables and defects.
  \<^item> \<open>Spdycli_Mem\<close>, \<open>Spdycli_Ids\<close>, \<open>Spdycli_Uri\<close>: the string functions on fixed arrays (locale
    \<open>text_buffer\<close>, interpreted for \<^verbatim>\<open>strcat\<close>), \<^verbatim>\<open>getClientId\<close> and \<^verbatim>\<open>getPushId\<close> (locale \<open>id_getter\<close>), and
    \<^verbatim>\<open>parse_uri\<close> with its reference grammar.
  \<^item> \<open>Spdycli_Requests\<close>: the \<^verbatim>\<open>submit_request*\<close> functions and the data providers.
  \<^item> \<open>Spdycli_Client\<close>: the thread's data, the back-off and the callbacks. The relation
    \<open>callback_step\<close> is what the library may do to a client; the locale \<open>thread_invariant\<close> lifts a
    property to every sequence of callbacks.
  \<^item> \<open>Spdycli_Session\<close>: \<^verbatim>\<open>connect_to\<close>, the handshake, the event loop, \<^verbatim>\<open>initSpdySession\<close> and
    \<^verbatim>\<open>createSpdyClient\<close>, with a ledger of what is open. The locale \<open>session_invariant\<close> extends
    \<open>thread_invariant\<close> to sessions and reconnections; both are interpreted for the sizes of the arrays
    and for the identifiers of a registered client.
  \<^item> \<open>Spdycli_Main\<close>: the options, the URL and the start of the clients.
  \<^item> \<open>Shrpx_Util\<close>, \<open>Shrpx_Uri\<close>, \<open>Shrpx_Http\<close>: \<^verbatim>\<open>util.cc\<close> and \<^verbatim>\<open>util.h\<close>, \<^verbatim>\<open>uri.cc\<close>, \<^verbatim>\<open>shrpx_http.cc\<close>.
  \<^item> This theory: the flow of a full client across \<^verbatim>\<open>main\<close>, session and callbacks.

  \<^bold>\<open>Bounds.\<close> No fuel is used. A loop whose end depends on the outside runs over a list of outside
  results: \<open>event_loop\<close> over the results of \<^verbatim>\<open>poll\<close>, \<open>createSpdyClient\<close> over sessions, \<open>retry_eintr\<close> over
  interrupted calls. A list that ends early is the value \<open>Waiting\<close>, \<open>Alive\<close> or \<open>Hangs\<close>, never a
  result of the loop. \<^verbatim>\<open>int\<close> arithmetic is checked against 32 bits, \<^verbatim>\<open>size_t\<close> and the counters of the
  parser are 64-bit words. The number of unused elements behind the header array of the register
  request is the argument \<open>slack\<close>, because the code stores two elements too many.

  \<^bold>\<open>Assumptions.\<close> The library's receive and send functions change their session and act on the
  client through the callbacks only (\<open>env_ok\<close>). Hooks of the parser may do anything to the application's
  data, and see but do not change the parser. A dereference of the end iterator of a \<^verbatim>\<open>std::string\<close>
  reads a terminator. \<^verbatim>\<open>RAND_MAX\<close> is that of the GNU C library.

  \<^bold>\<open>Not modelled.\<close> The interleaving of the client threads: each is modelled on its own, and the
  global \<^verbatim>\<open>stream_id\<close>, which the threads share without a lock, is passed through the sessions of one
  thread. Output, the unused timer of the client, socket options, \<^verbatim>\<open>http_date\<close> and \<^verbatim>\<open>parse_http_date\<close>. The
  event handlers of the proxy, its second HTTP parser \<^verbatim>\<open>http_parser.c\<close>, the example server and tools,
  the scalability client, the CoffeeScript servers, tests and deployment scripts have not been
  reached.
\<close>

section \<open>The whole flow of a full client\<close>

lemma main_opt:
  "main argc os api0 url0 pid clock = Inr (opt, u, ts) \<Longrightarrow>
    \<exists>m. main_options os \<lparr>m_opt = no_options, numclients = 1, apiurl = api0\<rparr> = Inr m \<and> opt = m_opt m"
  by (auto simp: main_def athen_eq_Inr lift_eq_Inr split: if_splits)

lemma full_option:
  assumes "main argc [(CHR ''f'', [])] api0 url0 pid clock = Inr (opt, u, ts)"
  shows "opt = no_options\<lparr>fullmode := True\<rparr>"
  using main_opt [OF assms] by (auto simp: main_option_def set_api_def Let_def athen_eq_Inr)



end
